(* ===== verification/Prelude.thy ===== *)
theory Prelude
  imports Complex_Main "HOL-Library.Sublist" "HOL-Library.Multiset" "HOL-Library.Product_Lexorder"
    "HOL-Library.List_Lexorder" "HOL-Library.Char_ord"
begin

section \<open>Shared vocabulary of the development\<close>

text \<open>
  What every component of the model shares: the exceptions of the Python sources as values,
  the string, integer and list operations of the Python language that the sources call, and
  the generic lemmas about them. Strings are \<^typ>\<open>string\<close> (ASCII text); instants are
  integers counting microseconds, the resolution of Python's \<^verbatim>\<open>datetime\<close>; Python's
  unbounded integers are \<^typ>\<open>int\<close>.
\<close>

named_theorems py_simps \<open>unfoldings of the Python operations\<close>
named_theorems inv_intros \<open>preservation of the component invariants\<close>

subsection \<open>Exceptions as values\<close>

datatype py_error =
    ValueError string
  | TypeError
  | AttributeError
  | KeyError string
  | InvalidOperation
  | IntegrityError string
  | DataError string
  | MultipleResultsFound
  | NotImplementedError string
  | RuntimeError string
  | LoadBalancerError string
  | WireGuardCommandError string
  | ConfigValidationError "string list"

type_synonym 'a result = "py_error + 'a"

definition rbind :: "'a result \<Rightarrow> ('a \<Rightarrow> 'b result) \<Rightarrow> 'b result" where
  "rbind r f = (case r of Inl e \<Rightarrow> Inl e | Inr x \<Rightarrow> f x)"

lemma rbind_simps [simp]: "rbind (Inl e) f = Inl e" "rbind (Inr x) f = f x"
  by (simp_all add: rbind_def)

lemma rbind_Inr_iff: "rbind r f = Inr y \<longleftrightarrow> (\<exists>x. r = Inr x \<and> f x = Inr y)"
  by (cases r) auto

lemma rbind_cong [fundef_cong]:
  "r = r' \<Longrightarrow> (\<And>x. r' = Inr x \<Longrightarrow> f x = g x) \<Longrightarrow> rbind r f = rbind r' g"
  by (cases r') auto

subsection \<open>Instants and durations\<close>

type_synonym datetime = int

definition seconds :: "int \<Rightarrow> int" where "seconds n = n * 1000000"
definition hours :: "int \<Rightarrow> int" where "hours n = seconds (n * 3600)"
definition days :: "int \<Rightarrow> int" where "days n = hours (n * 24)"

lemmas duration_defs = seconds_def hours_def days_def

lemma days_mono: "m \<le> n \<Longrightarrow> days m \<le> days n"
  by (simp add: duration_defs)

lemma days_nonneg: "0 \<le> n \<Longrightarrow> 0 \<le> days n"
  by (simp add: duration_defs)

lemma days_pos: "0 < n \<Longrightarrow> 0 < days n"
  by (simp add: duration_defs)

lemma days_add: "days (m + n) = days m + days n"
  by (simp add: duration_defs algebra_simps)

subsection \<open>Characters and strings\<close>

definition is_space :: "char \<Rightarrow> bool" where
  "is_space c \<longleftrightarrow> c \<in> {CHR '' '', CHR 0x09, CHR 0x0A, CHR 0x0B, CHR 0x0C, CHR 0x0D,
     CHR 0x1C, CHR 0x1D, CHR 0x1E, CHR 0x1F}"

definition is_digit :: "char \<Rightarrow> bool" where
  "is_digit c \<longleftrightarrow> 48 \<le> (of_char c :: nat) \<and> (of_char c :: nat) \<le> 57"

definition is_lower_char :: "char \<Rightarrow> bool" where
  "is_lower_char c \<longleftrightarrow> 97 \<le> (of_char c :: nat) \<and> (of_char c :: nat) \<le> 122"

definition is_upper_char :: "char \<Rightarrow> bool" where
  "is_upper_char c \<longleftrightarrow> 65 \<le> (of_char c :: nat) \<and> (of_char c :: nat) \<le> 90"

definition is_alnum :: "char \<Rightarrow> bool" where
  "is_alnum c \<longleftrightarrow> is_digit c \<or> is_lower_char c \<or> is_upper_char c"

definition lower_char :: "char \<Rightarrow> char" where
  "lower_char c = (if is_upper_char c then char_of ((of_char c :: nat) + 32) else c)"

definition lower :: "string \<Rightarrow> string" where "lower s = map lower_char s"

definition lstrip :: "string \<Rightarrow> string" where "lstrip s = dropWhile is_space s"
definition rstrip :: "string \<Rightarrow> string" where "rstrip s = rev (dropWhile is_space (rev s))"
definition strip :: "string \<Rightarrow> string" where "strip s = rstrip (lstrip s)"

definition startswith :: "string \<Rightarrow> string \<Rightarrow> bool" where
  "startswith s p \<longleftrightarrow> take (length p) s = p"

text \<open>The test \<^verbatim>\<open>sub in s\<close> of Python.\<close>

fun contains :: "string \<Rightarrow> string \<Rightarrow> bool" where
  "contains p [] = (p = [])"
| "contains p (c # s) = (startswith (c # s) p \<or> contains p s)"

text \<open>\<^verbatim>\<open>s.split(c)\<close> for a one-character separator, and \<^verbatim>\<open>c.join(parts)\<close>.\<close>

fun split_on :: "char \<Rightarrow> string \<Rightarrow> string list" where
  "split_on c [] = [[]]"
| "split_on c (x # xs) =
     (if x = c then [] # split_on c xs
      else (case split_on c xs of [] \<Rightarrow> [[x]] | p # ps \<Rightarrow> (x # p) # ps))"

fun join :: "string \<Rightarrow> string list \<Rightarrow> string" where
  "join sep [] = []"
| "join sep [p] = p"
| "join sep (p # q # ps) = p @ sep @ join sep (q # ps)"

lemma split_on_nonempty [simp]: "split_on c s \<noteq> []"
  by (induction s) (auto split: list.splits)

lemma split_on_no_sep: "c \<notin> set s \<Longrightarrow> split_on c s = [s]"
  by (induction s) auto

lemma split_on_append: "c \<notin> set p \<Longrightarrow> split_on c (p @ c # s) = p # split_on c s"
  by (induction p) auto

lemma split_on_join:
  "ps \<noteq> [] \<Longrightarrow> (\<forall>p\<in>set ps. c \<notin> set p) \<Longrightarrow> split_on c (join [c] ps) = ps"
proof (induction "[c]" ps rule: join.induct)
  case (3 p q ps)
  then show ?case using split_on_append[of c p "join [c] (q # ps)"] by simp
qed (auto simp: split_on_no_sep)

lemma join_split_on: "join [c] (split_on c s) = s"
proof (induction s)
  case (Cons x xs)
  obtain p ps where s: "split_on c xs = p # ps" by (cases "split_on c xs") auto
  with Cons show ?case by (cases ps) auto
qed simp

lemma startswith_append [simp]: "startswith (p @ s) p"
  by (simp add: startswith_def)

lemma startswith_iff: "startswith s p \<longleftrightarrow> (\<exists>t. s = p @ t)"
  by (metis append_eq_conv_conj append_take_drop_id startswith_def)

lemma contains_iff: "contains p s \<longleftrightarrow> (\<exists>u v. s = u @ p @ v)"
proof (induction s)
  case (Cons c s)
  show ?case
  proof
    assume "contains p (c # s)"
    then consider "startswith (c # s) p" | "contains p s" by auto
    then show "\<exists>u v. c # s = u @ p @ v"
    proof cases
      case 1 then show ?thesis by (metis append_Nil startswith_iff)
    next
      case 2 then show ?thesis using Cons by (metis append_Cons)
    qed
  next
    assume "\<exists>u v. c # s = u @ p @ v"
    then obtain u v where uv: "c # s = u @ p @ v" by blast
    show "contains p (c # s)"
    proof (cases u)
      case Nil
      then have "startswith (c # s) p" using uv by (simp only: append_Nil startswith_append)
      then show ?thesis by simp
    next
      case (Cons d u')
      then have "s = u' @ p @ v" using uv by simp
      then show ?thesis using Cons.IH by auto
    qed
  qed
qed auto

lemma strip_Nil [simp]: "strip [] = []"
  by (simp add: strip_def lstrip_def rstrip_def)

lemma dropWhile_none: "(\<forall>c\<in>set s. \<not> P c) \<Longrightarrow> dropWhile P s = s"
  by (induction s) auto

lemma strip_no_space: "(\<forall>c\<in>set s. \<not> is_space c) \<Longrightarrow> strip s = s"
  by (simp add: strip_def lstrip_def rstrip_def dropWhile_none)

lemma set_dropWhile_subset: "set (dropWhile P s) \<subseteq> set s"
  by (auto dest: set_dropWhileD)

lemma set_strip: "set (strip s) \<subseteq> set s"
proof -
  have "set (dropWhile is_space (rev (dropWhile is_space s))) \<subseteq> set (dropWhile is_space s)"
    using set_dropWhile_subset[of is_space "rev (dropWhile is_space s)"] by simp
  then show ?thesis using set_dropWhile_subset[of is_space s]
    by (simp add: strip_def lstrip_def rstrip_def)
qed

lemma hd_dropWhile_id: "xs = [] \<or> \<not> P (hd xs) \<Longrightarrow> dropWhile P xs = xs"
  by (cases xs) auto

lemma strip_idem [simp]: "strip (strip s) = strip s"
proof -
  let ?l = "dropWhile is_space s"
  let ?r = "dropWhile is_space (rev ?l)"
  have r: "?r = [] \<or> \<not> is_space (hd ?r)" using hd_dropWhile[of is_space "rev ?l"] by blast
  have "rev ?r = [] \<or> \<not> is_space (hd (rev ?r))"
  proof (cases "?r = []")
    case False
    obtain t where t: "?l = rev ?r @ t"
      by (metis rev_append rev_rev_ident takeWhile_dropWhile_id)
    have "hd (rev ?r @ t) = hd (rev ?r)" using False by (intro hd_append2) (metis rev_is_Nil_conv)
    then have "hd ?l = hd (rev ?r)" using t by simp
    moreover have "?l \<noteq> []" using False by (metis dropWhile.simps(1) rev.simps(1))
    ultimately show ?thesis using hd_dropWhile[of is_space s] by metis
  qed simp
  then have "dropWhile is_space (rev ?r) = rev ?r" by (rule hd_dropWhile_id)
  then show ?thesis using r by (simp add: strip_def lstrip_def rstrip_def hd_dropWhile_id)
qed

subsection \<open>Decimal text of integers\<close>

definition digit_char :: "nat \<Rightarrow> char" where "digit_char d = char_of (48 + d)"
definition digit_val :: "char \<Rightarrow> nat" where "digit_val c = of_char c - 48"

fun nat_str :: "nat \<Rightarrow> string" where
  "nat_str n = (if n < 10 then [digit_char n] else nat_str (n div 10) @ [digit_char (n mod 10)])"

declare nat_str.simps [simp del]

definition int_str :: "int \<Rightarrow> string" where
  "int_str i = (if i < 0 then CHR ''-'' # nat_str (nat (- i)) else nat_str (nat i))"

definition digits_val :: "string \<Rightarrow> nat" where
  "digits_val s = foldl (\<lambda>a c. 10 * a + digit_val c) 0 s"

definition isdigit :: "string \<Rightarrow> bool" where
  "isdigit s \<longleftrightarrow> s \<noteq> [] \<and> list_all is_digit s"

lemma digit_char_val [simp]: "d < 10 \<Longrightarrow> digit_val (digit_char d) = d"
  by (simp add: digit_val_def digit_char_def)

lemma is_digit_digit_char [simp]: "d < 10 \<Longrightarrow> is_digit (digit_char d)"
  by (simp add: is_digit_def digit_char_def)

lemma nat_str_digits: "list_all is_digit (nat_str n)"
proof (induction n rule: nat_str.induct)
  case (1 n)
  then show ?case by (subst nat_str.simps) (cases "n < 10"; simp)
qed

lemma nat_str_nonempty [simp]: "nat_str n \<noteq> []"
  by (subst nat_str.simps) simp

lemma isdigit_nat_str [simp]: "isdigit (nat_str n)"
  by (simp add: isdigit_def nat_str_digits)

lemma digits_val_nat_str [simp]: "digits_val (nat_str n) = n"
proof (induction n rule: nat_str.induct)
  case (1 n)
  then show ?case
  proof (cases "n < 10")
    case True
    then show ?thesis by (simp add: nat_str.simps[of n] digits_val_def)
  next
    case False
    then have "digits_val (nat_str (n div 10)) = n div 10" using "1.IH" by simp
    then show ?thesis using False by (simp add: nat_str.simps[of n] digits_val_def)
  qed
qed

lemma nat_str_inject [simp]: "nat_str m = nat_str n \<longleftrightarrow> m = n"
  by (metis digits_val_nat_str)

lemma nat_str_not_minus: "CHR ''-'' \<notin> set (nat_str n)"
  using nat_str_digits[of n] by (auto simp: list_all_iff is_digit_def)

lemma int_str_neg_iff: "(\<exists>t. int_str i = CHR ''-'' # t) \<longleftrightarrow> i < 0"
proof -
  have "\<not> (\<exists>t. nat_str n = CHR ''-'' # t)" for n using nat_str_not_minus[of n] by auto
  then show ?thesis by (auto simp: int_str_def)
qed

lemma int_str_inject [simp]: "int_str i = int_str j \<longleftrightarrow> i = j"
proof
  assume eq: "int_str i = int_str j"
  then have "i < 0 \<longleftrightarrow> j < 0" using int_str_neg_iff[of i] int_str_neg_iff[of j] by simp
  with eq show "i = j" by (auto simp: int_str_def split: if_splits)
qed simp

text \<open>
  \<^verbatim>\<open>int(s)\<close>: surrounding white space, an optional sign, digits with single underscores
  between them; anything else raises \<^verbatim>\<open>ValueError\<close>.
\<close>

fun digits_us :: "string \<Rightarrow> string option" where
  "digits_us [] = None"
| "digits_us [c] = (if is_digit c then Some [c] else None)"
| "digits_us (c # d # s) =
     (if \<not> is_digit c then None
      else if d = CHR ''_'' then map_option (\<lambda>t. c # t) (digits_us s)
      else map_option (\<lambda>t. c # t) (digits_us (d # s)))"

definition py_int :: "string \<Rightarrow> int option" where
  "py_int s = (case strip s of
       [] \<Rightarrow> None
     | c # t \<Rightarrow>
         if c = CHR ''-'' then map_option (\<lambda>d. - int (digits_val d)) (digits_us t)
         else if c = CHR ''+'' then map_option (\<lambda>d. int (digits_val d)) (digits_us t)
         else map_option (\<lambda>d. int (digits_val d)) (digits_us (c # t)))"

lemma digits_us_digits: "list_all is_digit s \<Longrightarrow> s \<noteq> [] \<Longrightarrow> digits_us s = Some s"
proof (induction s rule: digits_us.induct)
  case (3 c d s)
  then have "is_digit d" by simp
  then have "d \<noteq> CHR ''_''" by (auto simp: is_digit_def)
  with 3 show ?case by simp
qed auto

lemma digit_not_space: "is_digit c \<Longrightarrow> \<not> is_space c"
  by (auto simp: is_digit_def is_space_def)

lemma digit_not_sign: "is_digit c \<Longrightarrow> c \<noteq> CHR ''-'' \<and> c \<noteq> CHR ''+'' \<and> c \<noteq> CHR ''.''"
  by (auto simp: is_digit_def)

lemma strip_nat_str [simp]: "strip (nat_str n) = nat_str n"
  using nat_str_digits[of n] by (auto intro!: strip_no_space simp: list_all_iff digit_not_space)

lemma strip_int_str [simp]: "strip (int_str i) = int_str i"
proof -
  have d: "\<not> is_space c" if "c \<in> set (nat_str n)" for c n
    using that nat_str_digits[of n] digit_not_space by (auto simp: list_all_iff)
  have "\<not> is_space c" if "c \<in> set (int_str i)" for c
    using that d by (cases "i < 0") (auto simp: int_str_def, simp add: is_space_def)
  then show ?thesis by (blast intro: strip_no_space)
qed

text \<open>Printing an integer and reading it back is the identity.\<close>

lemma py_int_int_str [simp]: "py_int (int_str i) = Some i"
proof (cases "i < 0")
  case True
  then have st: "strip (int_str i) = CHR ''-'' # nat_str (nat (- i))"
    by (simp only: strip_int_str) (simp add: int_str_def)
  show ?thesis unfolding py_int_def st using True by (simp add: digits_us_digits nat_str_digits)
next
  case False
  obtain c t where ct: "nat_str (nat i) = c # t" by (cases "nat_str (nat i)") auto
  then have c: "is_digit c" using nat_str_digits[of "nat i"] by simp
  have st: "strip (int_str i) = c # t" using False ct by (simp only: strip_int_str) (simp add: int_str_def)
  have "digits_us (c # t) = Some (nat_str (nat i))"
    using ct digits_us_digits[OF nat_str_digits, of "nat i"] by simp
  then show ?thesis unfolding py_int_def st using False digit_not_sign[OF c] by simp
qed

subsection \<open>List operations\<close>

text \<open>
  Python's \<^verbatim>\<open>max(xs, key=k)\<close> returns the first element whose key is maximal and raises on
  an empty sequence; \<^verbatim>\<open>xs.sort(key=k)\<close> is stable, and so is its \<^verbatim>\<open>reverse=True\<close> form,
  which keeps the original order of equal elements.
\<close>

fun max_key :: "('a \<Rightarrow> 'k::linorder) \<Rightarrow> 'a list \<Rightarrow> 'a option" where
  "max_key k [] = None"
| "max_key k (x # xs) =
     (case max_key k xs of None \<Rightarrow> Some x | Some m \<Rightarrow> if k m \<le> k x then Some x else Some m)"

definition sort_key_desc :: "('a \<Rightarrow> 'k::linorder) \<Rightarrow> 'a list \<Rightarrow> 'a list" where
  "sort_key_desc k xs = rev (sort_key k (rev xs))"

lemma max_key_None [simp]: "max_key k xs = None \<longleftrightarrow> xs = []"
  by (cases xs) (auto split: option.splits)

lemma max_key_in: "max_key k xs = Some m \<Longrightarrow> m \<in> set xs"
  by (induction xs arbitrary: m) (auto split: option.splits if_splits)

lemma max_key_max: "max_key k xs = Some m \<Longrightarrow> x \<in> set xs \<Longrightarrow> k x \<le> k m"
proof (induction xs arbitrary: m)
  case (Cons y ys)
  then show ?case by (cases "max_key k ys") (auto split: if_splits intro: order_trans)
qed simp

text \<open>The element returned is the first of the maximal ones.\<close>

lemma max_key_first:
  "max_key k xs = Some m \<Longrightarrow> \<exists>us vs. xs = us @ m # vs \<and> (\<forall>u\<in>set us. k u < k m)"
proof (induction xs arbitrary: m)
  case (Cons y ys)
  show ?case
  proof (cases "max_key k ys")
    case None
    with Cons.prems show ?thesis by (intro exI[of _ "[]"]) auto
  next
    case (Some n)
    show ?thesis
    proof (cases "k n \<le> k y")
      case True
      with Some Cons.prems show ?thesis by (intro exI[of _ "[]"] exI[of _ ys]) auto
    next
      case False
      with Some Cons.prems have mn: "m = n" by simp
      from Cons.IH[OF Some] obtain us vs
        where "ys = us @ n # vs" "\<forall>u\<in>set us. k u < k n" by blast
      with False mn show ?thesis by (intro exI[of _ "y # us"] exI[of _ vs]) auto
    qed
  qed
qed simp

lemma set_sort_key_desc [simp]: "set (sort_key_desc k xs) = set xs"
  by (simp add: sort_key_desc_def)

lemma length_sort_key_desc [simp]: "length (sort_key_desc k xs) = length xs"
  by (simp add: sort_key_desc_def)

lemma mset_sort_key_desc [simp]: "mset (sort_key_desc k xs) = mset xs"
  by (simp add: sort_key_desc_def)

lemma sort_key_desc_Nil [simp]: "sort_key_desc k xs = [] \<longleftrightarrow> xs = []"
  by (metis length_0_conv length_sort_key_desc)

lemma sort_key_desc_sorted: "sorted_wrt (\<lambda>a b. k b \<le> k a) (sort_key_desc k xs)"
proof -
  have "sorted (map k (sort_key k (rev xs)))" by simp
  then have "sorted_wrt (\<lambda>a b. k a \<le> k b) (sort_key k (rev xs))"
    by (simp only: sorted_map)
  then show ?thesis by (simp add: sort_key_desc_def sorted_wrt_rev)
qed

text \<open>The row a query for one row returns, and the query for a distinct one.\<close>

definition first_row :: "('a \<Rightarrow> bool) \<Rightarrow> 'a list \<Rightarrow> 'a option" where
  "first_row P xs = List.find P xs"

lemma first_row_Some: "first_row P xs = Some x \<Longrightarrow> x \<in> set xs \<and> P x"
  by (auto simp: first_row_def find_Some_iff)

lemma first_row_None: "first_row P xs = None \<longleftrightarrow> (\<forall>x\<in>set xs. \<not> P x)"
  by (auto simp: first_row_def find_None_iff)

lemma sum_list_filter_split:
  "sum_list (map f xs) = sum_list (map f (filter P xs)) + sum_list (map f (filter (\<lambda>x. \<not> P x) xs))"
  for f :: "'a \<Rightarrow> 'b::comm_monoid_add"
  by (induction xs) (simp_all add: ac_simps)

text \<open>The elements with a preferred property when there are any, otherwise all of them.\<close>

definition preferring :: "('a \<Rightarrow> bool) \<Rightarrow> 'a list \<Rightarrow> 'a list" where
  "preferring P xs = (if filter P xs \<noteq> [] then filter P xs else xs)"

lemma preferring_Nil [simp]: "preferring P xs = [] \<longleftrightarrow> xs = []"
  by (auto simp: preferring_def)

lemma set_preferring: "set (preferring P xs) = (if \<exists>x\<in>set xs. P x then {x \<in> set xs. P x} else set xs)"
  by (auto simp: preferring_def filter_empty_conv)

text \<open>What choosing the best of the preferred elements returns.\<close>

lemma max_preferring:
  assumes "max_key k (preferring P xs) = Some m"
  shows "m \<in> set xs \<and> ((\<exists>x\<in>set xs. P x) \<longrightarrow> P m) \<and> (\<forall>x\<in>set xs. P m \<longrightarrow> P x \<longrightarrow> k x \<le> k m)
     \<and> (\<not> P m \<longrightarrow> (\<forall>x\<in>set xs. \<not> P x \<and> k x \<le> k m))"
  using max_key_in[OF assms] max_key_max[OF assms] by (auto simp: set_preferring split: if_splits)

subsection \<open>Reachable states and invariants\<close>

inductive reach :: "('s \<Rightarrow> bool) \<Rightarrow> ('s \<Rightarrow> 's \<Rightarrow> bool) \<Rightarrow> 's \<Rightarrow> bool"
  for init :: "'s \<Rightarrow> bool" and step :: "'s \<Rightarrow> 's \<Rightarrow> bool" where
  reach_init: "init s \<Longrightarrow> reach init step s"
| reach_step: "reach init step s \<Longrightarrow> step s t \<Longrightarrow> reach init step t"

text \<open>The contract of an inductive invariant, proved once for every component.\<close>

locale invariant_system =
  fixes init :: "'s \<Rightarrow> bool" and step :: "'s \<Rightarrow> 's \<Rightarrow> bool" and inv :: "'s \<Rightarrow> bool"
  assumes inv_init: "init s \<Longrightarrow> inv s"
    and inv_step: "inv s \<Longrightarrow> step s t \<Longrightarrow> inv t"
begin

lemma reach_inv: "reach init step s \<Longrightarrow> inv s"
  by (induction rule: reach.induct) (auto intro: inv_init inv_step)

lemma inv_steps: "step\<^sup>*\<^sup>* s t \<Longrightarrow> inv s \<Longrightarrow> inv t"
  by (induction rule: rtranclp_induct) (auto intro: inv_step)

end

end
