(* ===== verification/Float64.thy ===== *)
theory Float64
  imports Prelude
begin

section \<open>Python floats\<close>

text \<open>
  The scores, ratios and watermarks of the control plane are Python floats, that is IEEE~754
  binary64 numbers. A finite float is modelled by its exact value, a \<^typ>\<open>rat\<close>, and every
  arithmetic operation of the source by the exact operation followed by the rounding
  \<open>fl\<close>: to the nearest multiple of the unit in the last place (53 significant bits,
  subnormals below \<open>2 powi (-1022)\<close>), ties to even. Overflow to infinity is not modelled: the
  magnitudes of the program (peer counts, milliseconds, weights below one) stay far below
  \<open>2 powi 1024\<close>. The locale \<open>rounding\<close> states the laws the components rely on, and is
  interpreted by \<open>fl\<close>.
\<close>

subsection \<open>Round to nearest, ties to even\<close>

function bit_len :: "int \<Rightarrow> int" where
  "bit_len n = (if n \<le> 0 then 0 else 1 + bit_len (n div 2))"
  by pat_completeness auto
termination by (relation "measure nat") auto

declare bit_len.simps [simp del]

definition ilog2 :: "rat \<Rightarrow> int" where
  "ilog2 x = (let (p, q) = quotient_of x; k = bit_len p - bit_len q
              in if 2 powi k \<le> x then k else k - 1)"

definition rne :: "rat \<Rightarrow> int" where
  "rne y = (let f = \<lfloor>y\<rfloor>; d = y - of_int f in
     if d < 1/2 then f else if 1/2 < d then f + 1 else if even f then f else f + 1)"

definition ulp_exp :: "rat \<Rightarrow> int" where
  "ulp_exp x = max (ilog2 \<bar>x\<bar> - 52) (- 1074)"

definition fl :: "rat \<Rightarrow> rat" where
  "fl x = (if x = 0 then 0 else let u = 2 powi (ulp_exp x) in of_int (rne (x / u)) * u)"

text \<open>A power of two by repeated squaring, for evaluation.\<close>

function pow2 :: "int \<Rightarrow> int" where
  "pow2 n = (if n \<le> 0 then 1 else (let h = pow2 (n div 2) in if even n then h * h else 2 * (h * h)))"
  by pat_completeness auto
termination by (relation "measure nat") auto

declare pow2.simps [simp del]

lemma pow2_power: "pow2 (int n) = 2 ^ n"
proof (induction n rule: less_induct)
  case (less n)
  show ?case
  proof (cases "n = 0")
    case False
    have "pow2 (int n) = (if even n then 1 else 2) * (2 ^ (n div 2) * 2 ^ (n div 2))"
      using False less[of "n div 2"] pow2.simps[of "int n"] by (simp add: Let_def zdiv_int)
    also have "\<dots> = 2 ^ ((if even n then 0 else 1) + 2 * (n div 2))"
      by (simp add: power_add mult_2)
    also have "(if even n then 0 else 1) + 2 * (n div 2) = n" by (auto elim: oddE)
    finally show ?thesis .
  qed (simp add: pow2.simps)
qed

lemma powi_pow2 [code_unfold]:
  "(2 :: rat) powi k = (if 0 \<le> k then of_int (pow2 k) else 1 / of_int (pow2 (- k)))"
proof -
  have "0 \<le> k \<Longrightarrow> pow2 k = 2 ^ nat k" "k < 0 \<Longrightarrow> pow2 (- k) = 2 ^ nat (- k)"
    using pow2_power[of "nat k"] pow2_power[of "nat (- k)"] by simp_all
  then show ?thesis by (simp add: power_int_def field_simps)
qed

lemma rne_of_int [simp]: "rne (of_int n) = n"
  by (simp add: rne_def Let_def)

lemma rne_bounds: "\<lfloor>y\<rfloor> \<le> rne y" "rne y \<le> \<lfloor>y\<rfloor> + 1"
  by (simp_all add: rne_def Let_def)

lemma rne_mono: assumes "x \<le> y" shows "rne x \<le> rne y"
proof (cases "\<lfloor>x\<rfloor> = \<lfloor>y\<rfloor>")
  case True
  then show ?thesis using assms by (auto simp: rne_def Let_def)
next
  case False
  with assms have "\<lfloor>x\<rfloor> + 1 \<le> \<lfloor>y\<rfloor>" using floor_mono[OF assms] by linarith
  then show ?thesis using rne_bounds(2)[of x] rne_bounds(1)[of y] by linarith
qed

lemma rne_ge_int: "of_int n \<le> y \<Longrightarrow> n \<le> rne y"
  using rne_mono[of "of_int n" y] by simp

lemma rne_le_int: "y \<le> of_int n \<Longrightarrow> rne y \<le> n"
  using rne_mono[of y "of_int n"] by simp

lemma rne_uminus: "rne (- y) = - rne y"
proof (cases "of_int \<lfloor>y\<rfloor> = y")
  case True
  then obtain n where "y = of_int n" by metis
  then show ?thesis by (metis of_int_minus rne_of_int)
next
  case False
  then have f: "\<lfloor>- y\<rfloor> = - \<lfloor>y\<rfloor> - 1" by linarith
  show ?thesis by (simp add: rne_def Let_def f)
qed

lemma bit_len_bounds: "0 < n \<Longrightarrow> (2::rat) powi (bit_len n - 1) \<le> of_int n \<and> of_int n < (2::rat) powi (bit_len n)"
proof (induction n rule: bit_len.induct)
  case (1 n)
  show ?case
  proof (cases "n = 1")
    case True
    have "bit_len 1 = 1" by (simp add: bit_len.simps)
    with True show ?thesis by simp
  next
    case False
    with "1.prems" have h: "0 < n div 2" "\<not> n \<le> 0" by auto
    define b where "b = bit_len (n div 2)"
    have IH: "(2::rat) powi (b - 1) \<le> of_int (n div 2)" "of_int (n div 2) < (2::rat) powi b"
      using "1.IH"[OF h(2,1)] by (auto simp: b_def)
    have "0 \<le> b"
    proof (rule ccontr)
      assume "\<not> 0 \<le> b"
      then have "(2::rat) powi b \<le> 2 powi 0" by (intro power_int_increasing) auto
      with IH(2) h(1) show False by (simp add: not_less)
    qed
    then obtain m where m: "b = int m" using zero_le_imp_eq_int by blast
    have up: "n div 2 < 2 ^ m" using IH(2) m
      by (metis of_int_less_iff of_int_numeral of_int_power power_int_of_nat)
    have "n < 2 * 2 ^ m" using up by linarith
    then have "of_int n < (2::rat) * 2 ^ m"
      by (metis (mono_tags) of_int_less_iff of_int_mult of_int_numeral of_int_power)
    moreover have "(2::rat) powi b \<le> of_int n"
    proof -
      have "2 * (n div 2) \<le> n" by linarith
      then have "2 * of_int (n div 2) \<le> (of_int n :: rat)" by (metis of_int_le_iff of_int_mult of_int_numeral)
      moreover have "(2::rat) powi b = 2 * 2 powi (b - 1)" by (simp add: power_int_diff)
      ultimately show ?thesis using IH(1) by linarith
    qed
    moreover have "bit_len n = b + 1" using h by (simp add: bit_len.simps[of n] b_def)
    ultimately show ?thesis by (simp add: m power_int_add)
  qed
qed

lemma ilog2_bounds: assumes "0 < x"
  shows "2 powi (ilog2 x) \<le> x" "x < 2 powi (ilog2 x + 1)"
proof -
  obtain p q where pq: "quotient_of x = (p, q)" by (cases "quotient_of x")
  have q: "0 < q" using quotient_of_denom_pos[OF pq] .
  have x: "x = of_int p / of_int q" using quotient_of_div[OF pq] .
  with assms q have p: "0 < p" by (simp add: zero_less_divide_iff)
  define a where "a = bit_len p"
  define b where "b = bit_len q"
  have P: "(2::rat) powi (a - 1) \<le> of_int p" "of_int p < (2::rat) powi a"
    using bit_len_bounds[OF p] by (simp_all add: a_def)
  have Q: "(2::rat) powi (b - 1) \<le> of_int q" "of_int q < (2::rat) powi b"
    using bit_len_bounds[OF q] by (simp_all add: b_def)
  have low: "(2::rat) powi (a - b - 1) \<le> x"
  proof -
    have "(2::rat) powi (a - b - 1) * of_int q \<le> 2 powi (a - b - 1) * 2 powi b"
      using Q(2) by (intro mult_left_mono) auto
    also have "\<dots> = 2 powi (a - 1)" by (simp add: power_int_add[symmetric])
    also have "\<dots> \<le> of_int p" by (rule P(1))
    finally show ?thesis using q by (simp add: x field_simps)
  qed
  have high: "x < (2::rat) powi (a - b + 1)"
  proof -
    have "of_int p < (2::rat) powi a" by (rule P(2))
    also have "\<dots> = 2 powi (a - b + 1) * 2 powi (b - 1)" by (simp add: power_int_add[symmetric])
    also have "\<dots> \<le> 2 powi (a - b + 1) * of_int q" using Q(1) by (intro mult_left_mono) auto
    finally show ?thesis using q by (simp add: x field_simps)
  qed
  have il: "ilog2 x = (if 2 powi (a - b) \<le> x then a - b else a - b - 1)"
    by (simp add: ilog2_def pq a_def b_def Let_def)
  show "2 powi (ilog2 x) \<le> x" using low by (simp add: il)
  show "x < 2 powi (ilog2 x + 1)" using high by (simp add: il)
qed

lemma powi_mono: "m \<le> n \<Longrightarrow> (2::rat) powi m \<le> 2 powi n"
  by (simp add: power_int_increasing)

lemma ilog2_mono: assumes "0 < x" "x \<le> y" shows "ilog2 x \<le> ilog2 y"
proof (rule ccontr)
  assume "\<not> ilog2 x \<le> ilog2 y"
  then have "(2::rat) powi (ilog2 y + 1) \<le> 2 powi (ilog2 x)" by (intro powi_mono) simp
  with ilog2_bounds[of x] ilog2_bounds[of y] assms show False by linarith
qed

lemma fl_0 [simp]: "fl 0 = 0" by (simp add: fl_def)

lemma fl_uminus: "fl (- x) = - fl x"
  by (simp add: fl_def Let_def ulp_exp_def rne_uminus)

lemma fl_pos_eq: "0 < x \<Longrightarrow> fl x = of_int (rne (x / 2 powi ulp_exp x)) * 2 powi ulp_exp x"
  by (simp add: fl_def Let_def)

lemma fl_le_pow: assumes "0 < x" "x \<le> 2 powi k" "ulp_exp x \<le> k" shows "fl x \<le> 2 powi k"
proof -
  let ?u = "ulp_exp x"
  have k: "(2::rat) powi k = of_int (2 ^ nat (k - ?u)) * 2 powi ?u"
  proof -
    have "(of_int (2 ^ nat (k - ?u)) :: rat) = 2 powi (k - ?u)"
      using assms(3) by (simp add: power_int_def)
    then show ?thesis by (simp add: power_int_add[symmetric])
  qed
  have "x / 2 powi ?u \<le> of_int (2 ^ nat (k - ?u))"
    using assms(2) k by (simp add: divide_le_eq)
  then have "rne (x / 2 powi ?u) \<le> 2 ^ nat (k - ?u)" by (rule rne_le_int)
  then have "of_int (rne (x / 2 powi ?u)) \<le> (of_int (2 ^ nat (k - ?u)) :: rat)" by (simp only: of_int_le_iff)
  then show ?thesis using assms(1) by (simp only: k fl_pos_eq) (intro mult_right_mono, auto)
qed

lemma fl_ge_pow: assumes "0 < x" "2 powi k \<le> x" "ulp_exp x \<le> k" shows "2 powi k \<le> fl x"
proof -
  let ?u = "ulp_exp x"
  have k: "(2::rat) powi k = of_int (2 ^ nat (k - ?u)) * 2 powi ?u"
  proof -
    have "(of_int (2 ^ nat (k - ?u)) :: rat) = 2 powi (k - ?u)"
      using assms(3) by (simp add: power_int_def)
    then show ?thesis by (simp add: power_int_add[symmetric])
  qed
  have "of_int (2 ^ nat (k - ?u)) \<le> x / 2 powi ?u"
    using assms(2) k by (simp add: le_divide_eq)
  then have "2 ^ nat (k - ?u) \<le> rne (x / 2 powi ?u)" by (rule rne_ge_int)
  then have "(of_int (2 ^ nat (k - ?u)) :: rat) \<le> of_int (rne (x / 2 powi ?u))" by (simp only: of_int_le_iff)
  then show ?thesis using assms(1) by (simp only: k fl_pos_eq) (intro mult_right_mono, auto)
qed

lemma fl_nonneg: "0 \<le> x \<Longrightarrow> 0 \<le> fl x"
  using rne_ge_int[of 0 "x / 2 powi ulp_exp x"] by (cases "x = 0") (auto simp: fl_pos_eq)

lemma fl_mono_pos: assumes "0 < x" "x \<le> y" shows "fl x \<le> fl y"
proof (cases "ulp_exp x = ulp_exp y")
  case True
  have "rne (x / 2 powi ulp_exp y) \<le> rne (y / 2 powi ulp_exp y)"
    using assms by (intro rne_mono divide_right_mono) auto
  then show ?thesis using assms True by (simp add: fl_pos_eq)
next
  case False
  have m: "ilog2 x \<le> ilog2 y" using assms by (rule ilog2_mono)
  with False assms have uy: "ulp_exp y = ilog2 y - 52" and lt: "ulp_exp x < ilog2 y - 52"
    by (auto simp: ulp_exp_def max_def split: if_splits)
  have less: "ilog2 x < ilog2 y" using False m assms by (auto simp: ulp_exp_def)
  have "x \<le> 2 powi (ilog2 y)"
    using ilog2_bounds(2)[of x] powi_mono[of "ilog2 x + 1" "ilog2 y"] less assms by linarith
  then have "fl x \<le> 2 powi (ilog2 y)" using assms lt by (intro fl_le_pow) auto
  also have "\<dots> \<le> fl y" using assms uy ilog2_bounds(1)[of y] by (intro fl_ge_pow) auto
  finally show ?thesis .
qed

lemma fl_mono: assumes "x \<le> y" shows "fl x \<le> fl y"
proof -
  consider "0 < x" | "x \<le> 0" "0 \<le> y" | "y < 0" by linarith
  then show ?thesis
  proof cases
    case 1 then show ?thesis using assms by (rule fl_mono_pos)
  next
    case 2
    then show ?thesis using fl_nonneg[of "- x"] fl_nonneg[of y] by (simp add: fl_uminus)
  next
    case 3
    then show ?thesis using assms fl_mono_pos[of "- y" "- x"] by (simp add: fl_uminus)
  qed
qed

lemma fl_of_int_pos: assumes "0 < n" "n \<le> 2 ^ 53" shows "fl (of_int n) = of_int n"
proof (cases "n = 2 ^ 53")
  case True
  have "fl 9007199254740992 = 9007199254740992" by code_simp
  with True show ?thesis by simp
next
  case False
  let ?x = "of_int n :: rat"
  have x: "0 < ?x" using assms by simp
  have "?x < 2 ^ 53" using assms False by (metis (mono_tags) less_le of_int_less_iff of_int_numeral of_int_power)
  have "ilog2 ?x \<le> 52"
  proof (rule ccontr)
    assume "\<not> ilog2 ?x \<le> 52"
    then have "(2::rat) powi 53 \<le> 2 powi (ilog2 ?x)" by (intro powi_mono) simp
    with ilog2_bounds(1)[OF x] \<open>?x < 2 ^ 53\<close> show False by simp
  qed
  then have u: "ulp_exp ?x \<le> 0" using assms by (simp add: ulp_exp_def)
  have "?x / 2 powi ulp_exp ?x = of_int (n * 2 ^ nat (- ulp_exp ?x))"
    using u by (simp add: power_int_def field_simps)
  then have "rne (?x / 2 powi ulp_exp ?x) = n * 2 ^ nat (- ulp_exp ?x)" by (metis rne_of_int)
  then show ?thesis using x u by (simp add: fl_pos_eq power_int_def field_simps)
qed

lemma fl_of_int: assumes "\<bar>n\<bar> \<le> 2 ^ 53" shows "fl (of_int n) = of_int n"
proof -
  consider "0 < n" | "n = 0" | "n < 0" by linarith
  then show ?thesis
  proof cases
    case 1 then show ?thesis using assms fl_of_int_pos[of n] by simp
  next
    case 2 then show ?thesis by simp
  next
    case 3 then show ?thesis using assms fl_of_int_pos[of "- n"] fl_uminus[of "of_int (- n)"] by simp
  qed
qed
subsection \<open>The operations of the source\<close>

definition fadd :: "rat \<Rightarrow> rat \<Rightarrow> rat" where "fadd x y = fl (x + y)"
definition fsub :: "rat \<Rightarrow> rat \<Rightarrow> rat" where "fsub x y = fl (x - y)"
definition fmul :: "rat \<Rightarrow> rat \<Rightarrow> rat" where "fmul x y = fl (x * y)"
definition fdiv :: "rat \<Rightarrow> rat \<Rightarrow> rat" where "fdiv x y = fl (x / y)"

text \<open>\<^verbatim>\<open>float(i)\<close>, the true division \<^verbatim>\<open>a / b\<close> of two integers, and \<^verbatim>\<open>int(x)\<close>.\<close>

definition float_of_int :: "int \<Rightarrow> rat" where "float_of_int i = fl (of_int i)"
definition int_div :: "int \<Rightarrow> int \<Rightarrow> rat" where "int_div a b = fl (of_int a / of_int b)"
definition int_of_float :: "rat \<Rightarrow> int" where
  "int_of_float x = (if x < 0 then - \<lfloor>- x\<rfloor> else \<lfloor>x\<rfloor>)"

text \<open>
  \<^verbatim>\<open>sum(xs)\<close> of a list of floats. The interpreter adds with a running compensation of the
  rounding error, which is added back at the end.
\<close>

fun compensated_sum :: "rat \<Rightarrow> rat \<Rightarrow> rat list \<Rightarrow> rat" where
  "compensated_sum s c [] = (if c \<noteq> 0 then fadd s c else s)"
| "compensated_sum s c (x # xs) =
     (let t = fadd s x
      in compensated_sum t
           (fadd c (if \<bar>x\<bar> \<le> \<bar>s\<bar> then fadd (fsub s t) x else fadd (fsub x t) s)) xs)"

definition float_sum :: "rat list \<Rightarrow> rat" where "float_sum xs = compensated_sum 0 0 xs"

lemmas float_ops = fadd_def fsub_def fmul_def fdiv_def float_of_int_def int_div_def

subsection \<open>Evaluation on integers\<close>

text \<open>
  \<^const>\<open>fl\<close> evaluated with integer arithmetic on numerator and denominator. The result has a
  power of two below, so that removing common factors of two normalises it.
\<close>

definition round_div :: "int \<Rightarrow> int \<Rightarrow> int" where
  "round_div p q = (let f = p div q; r = 2 * (p mod q) in
     if r < q then f else if q < r then f + 1 else if even f then f else f + 1)"

definition log2_quot :: "int \<Rightarrow> int \<Rightarrow> int" where
  "log2_quot p q = (let k = bit_len p - bit_len q in
     if (if 0 \<le> k then q * pow2 k \<le> p else q \<le> p * pow2 (- k)) then k else k - 1)"

function strip_twos :: "int \<Rightarrow> int \<Rightarrow> int \<times> int" where
  "strip_twos m k = (if k \<le> 0 \<or> odd m then (m, pow2 k) else strip_twos (m div 2) (k - 1))"
  by pat_completeness auto
termination by (relation "measure (nat \<circ> snd)") auto

declare strip_twos.simps [simp del]

lemma pow2_pos [simp]: "0 < pow2 k"
proof (cases "0 \<le> k")
  case True
  then show ?thesis using pow2_power[of "nat k"] by simp
next
  case False
  then show ?thesis by (simp add: pow2.simps)
qed

lemma pow2_neq [simp]: "pow2 k \<noteq> 0"
  by (metis pow2_pos less_irrefl)

lemma pow2_step: "0 < k \<Longrightarrow> pow2 k = 2 * pow2 (k - 1)"
  using pow2_power[of "nat k"] pow2_power[of "nat (k - 1)"]
  by (simp flip: power_Suc)

lemma strip_twos: "strip_twos m k = quotient_of (Fract m (pow2 k))"
proof (induction m k rule: strip_twos.induct)
  case (1 m k)
  show ?case
  proof (cases "k \<le> 0 \<or> odd m")
    case True
    have "coprime m (pow2 k)"
    proof (cases "k \<le> 0")
      case False
      with True have "odd m" by simp
      moreover have "pow2 k = 2 ^ nat k" using pow2_power[of "nat k"] False by simp
      ultimately show ?thesis by simp
    qed (simp add: pow2.simps)
    with True show ?thesis by (simp add: strip_twos.simps[of m k] quotient_of_Fract normalize_stable)
  next
    case False
    then have "Fract m (pow2 k) = Fract (m div 2) (pow2 (k - 1))"
      using pow2_pos[of "k - 1"] by (subst eq_rat(1)) (auto simp: pow2_step elim!: evenE)
    with False 1 show ?thesis by (simp add: strip_twos.simps[of m k])
  qed
qed

lemma rne_quot: assumes "0 < q" shows "rne (of_int p / of_int q) = round_div p q"
proof -
  have p: "p = p div q * q + p mod q" by simp
  have "(of_int p :: rat) = of_int (p div q) * of_int q + of_int (p mod q)"
    by (subst p) (simp only: of_int_add of_int_mult)
  then have d: "(of_int p / of_int q :: rat) - of_int (p div q) = of_int (p mod q) / of_int q"
    using assms by (simp add: field_simps)
  have half: "(of_int r / of_int q < (1/2 :: rat)) = (2 * r < q)" "((1/2 :: rat) < of_int r / of_int q) = (q < 2 * r)" for r
  proof -
    have "(of_int r / of_int q < (1/2 :: rat)) = (2 * of_int r < (of_int q :: rat))"
      "((1/2 :: rat) < of_int r / of_int q) = ((of_int q :: rat) < 2 * of_int r)"
      using assms by (auto simp: pos_divide_less_eq pos_less_divide_eq)
    then show "(of_int r / of_int q < (1/2 :: rat)) = (2 * r < q)" "((1/2 :: rat) < of_int r / of_int q) = (q < 2 * r)"
      by (metis of_int_less_iff of_int_mult of_int_numeral)+
  qed
  have f: "\<lfloor>(of_int p / of_int q :: rat)\<rfloor> = p div q" by (rule floor_divide_of_int_eq)
  show ?thesis unfolding rne_def round_div_def Let_def f d half ..
qed

lemma log2_quot: assumes "0 < p" "0 < q" shows "(let k = bit_len p - bit_len q in
     if 2 powi k \<le> (of_int p / of_int q :: rat) then k else k - 1) = log2_quot p q"
proof -
  have "(2 powi k \<le> (of_int p / of_int q :: rat)) = (if 0 \<le> k then q * pow2 k \<le> p else q \<le> p * pow2 (- k))" for k
  proof (cases "0 \<le> k")
    case True
    then have "(2 powi k \<le> (of_int p / of_int q :: rat)) = (of_int (q * pow2 k) \<le> (of_int p :: rat))"
      using assms by (simp add: powi_pow2 pos_le_divide_eq mult.commute)
    with True show ?thesis by (simp only: of_int_le_iff if_True)
  next
    case False
    have "0 < (of_int (pow2 (- k)) :: rat)" by simp
    then have "(2 powi k \<le> (of_int p / of_int q :: rat)) = (of_int q \<le> (of_int (p * pow2 (- k)) :: rat))"
      using assms False by (simp add: powi_pow2 divide_le_eq le_divide_eq mult.commute)
    with False show ?thesis by (simp only: of_int_le_iff if_False)
  qed
  then show ?thesis by (simp add: log2_quot_def Let_def)
qed

lemma fl_quotient [code abstract]:
  "quotient_of (fl x) = (let (p, q) = quotient_of x in
     if p = 0 then (0, 1)
     else let e = max (log2_quot \<bar>p\<bar> q - 52) (- 1074) in
       if 0 \<le> e then (round_div p (q * pow2 e) * pow2 e, 1)
       else strip_twos (round_div (p * pow2 (- e)) q) (- e))"
proof -
  obtain p q where pq: "quotient_of x = (p, q)" by fastforce
  then have q: "0 < q" and x: "x = of_int p / of_int q" and cop: "coprime p q"
    using quotient_of_denom_pos quotient_of_div quotient_of_coprime by blast+
  show ?thesis
  proof (cases "p = 0")
    case True
    with pq x show ?thesis by simp
  next
    case False
    have "quotient_of \<bar>x\<bar> = (\<bar>p\<bar>, q)"
    proof -
      have "\<bar>x\<bar> = Fract \<bar>p\<bar> q" using q x by (simp add: Fract_of_int_quotient abs_div)
      then show ?thesis using q cop by (simp add: quotient_of_Fract normalize_stable)
    qed
    define e where "e = max (log2_quot \<bar>p\<bar> q - 52) (- 1074)"
    have e: "ulp_exp x = e" unfolding e_def
      using \<open>quotient_of \<bar>x\<bar> = (\<bar>p\<bar>, q)\<close> log2_quot[of "\<bar>p\<bar>" q] False q x by (simp add: ulp_exp_def ilog2_def abs_div)
    have "x \<noteq> 0" using False q x by simp
    then have fx: "fl x = of_int (rne (x / 2 powi e)) * 2 powi e" by (simp add: fl_def Let_def e)
    show ?thesis
    proof (cases "0 \<le> e")
      case True
      have "x / 2 powi e = of_int p / of_int (q * pow2 e)" using True by (simp add: x powi_pow2)
      then have "fl x = of_int (round_div p (q * pow2 e) * pow2 e)"
        unfolding fx using True q rne_quot[of "q * pow2 e" p] by (simp add: powi_pow2)
      then have "quotient_of (fl x) = (round_div p (q * pow2 e) * pow2 e, 1)" by (simp only: Fract_of_int_eq[symmetric] quotient_of_Fract normalize_stable[OF zero_less_one coprime_1_right])
      then show ?thesis using True False pq by (simp add: Let_def flip: e_def)
    next
      case neg: False
      have "x / 2 powi e = of_int (p * pow2 (- e)) / of_int q" using neg by (simp add: x powi_pow2)
      then have "fl x = of_int (round_div (p * pow2 (- e)) q) / of_int (pow2 (- e))"
        unfolding fx using neg q rne_quot[of q "p * pow2 (- e)"] by (simp add: powi_pow2)
      then have "fl x = Fract (round_div (p * pow2 (- e)) q) (pow2 (- e))"
        by (simp add: Fract_of_int_quotient)
      then show ?thesis using neg False pq by (simp add: Let_def strip_twos flip: e_def)
    qed
  qed
qed

text \<open>The literals of the source.\<close>

lemma float_literals [code_unfold]:
  "fl (2/10) = 3602879701896397/18014398509481984"
  "fl (3/10) = 5404319552844595/18014398509481984"
  "fl (4/10) = 3602879701896397/9007199254740992"
  "fl (7/10) = 3152519739159347/4503599627370496"
  "fl (9/10) = 8106479329266893/9007199254740992"
  "fl (5/100) = 3602879701896397/72057594037927936"
  "fl (65/100) = 5854679515581645/9007199254740992"
  "fl (85/100) = 7656119366529843/9007199254740992"
  "fl (95/100) = 4278419646001971/4503599627370496"
  "fl (99/100) = 4458563631096791/4503599627370496"
  by code_simp+

subsection \<open>The laws of a rounding\<close>

locale rounding =
  fixes rnd :: "rat \<Rightarrow> rat"
  assumes rnd_zero: "rnd 0 = 0"
    and rnd_mono: "x \<le> y \<Longrightarrow> rnd x \<le> rnd y"
    and rnd_uminus: "rnd (- x) = - rnd x"
    and rnd_exact: "\<bar>n\<bar> \<le> 2 ^ 53 \<Longrightarrow> rnd (of_int n) = of_int n"
begin

lemma rnd_nonneg: "0 \<le> x \<Longrightarrow> 0 \<le> rnd x"
  using rnd_mono[of 0 x] by (simp add: rnd_zero)

lemma rnd_one: "rnd 1 = 1"
  using rnd_exact[of 1] by simp

lemma rnd_le_int: "x \<le> of_int n \<Longrightarrow> \<bar>n\<bar> \<le> 2 ^ 53 \<Longrightarrow> rnd x \<le> of_int n"
  using rnd_mono[of x "of_int n"] by (simp add: rnd_exact)

lemma rnd_ge_int: "of_int n \<le> x \<Longrightarrow> \<bar>n\<bar> \<le> 2 ^ 53 \<Longrightarrow> of_int n \<le> rnd x"
  using rnd_mono[of "of_int n" x] by (simp add: rnd_exact)

lemma rnd_unit: "0 \<le> x \<Longrightarrow> x \<le> 1 \<Longrightarrow> 0 \<le> rnd x \<and> rnd x \<le> 1"
  using rnd_nonneg[of x] rnd_le_int[of x 1] by simp

lemma rnd_scale_le:
  assumes "0 \<le> n" "n \<le> 2 ^ 53" "0 \<le> w" "w \<le> 1"
  shows "0 \<le> rnd (of_int n * w) \<and> rnd (of_int n * w) \<le> of_int n"
proof -
  have "of_int n * w \<le> of_int n" using assms by (simp add: mult_left_le)
  then have "rnd (of_int n * w) \<le> of_int n" using assms by (intro rnd_le_int) auto
  moreover have "0 \<le> of_int n * w" using assms by simp
  ultimately show ?thesis using rnd_nonneg by blast
qed

lemma rnd_quotient_unit: "0 \<le> a \<Longrightarrow> a \<le> b \<Longrightarrow> 0 \<le> rnd (of_int a / of_int b) \<and> rnd (of_int a / of_int b) \<le> 1"
  by (rule rnd_unit) (auto simp: divide_le_eq_1)

end

interpretation b64: rounding fl
  by unfold_locales (simp_all add: fl_mono fl_uminus fl_of_int)

lemma int_of_float_of_int [simp]: "int_of_float (of_int n) = n"
proof -
  have "\<lfloor>- (of_int n :: rat)\<rfloor> = - n" by (metis floor_of_int of_int_minus)
  then show ?thesis by (simp add: int_of_float_def)
qed

lemma int_of_float_mono: "x \<le> y \<Longrightarrow> int_of_float x \<le> int_of_float y"
proof (cases "x < 0 \<and> \<not> y < 0")
  case True
  then have "0 \<le> \<lfloor>- x\<rfloor>" "0 \<le> \<lfloor>y\<rfloor>" by (simp_all add: zero_le_floor)
  then have "- \<lfloor>- x\<rfloor> \<le> \<lfloor>y\<rfloor>" by linarith
  with True show ?thesis by (auto simp only: int_of_float_def if_True if_False)
next
  case False
  assume "x \<le> y"
  with False show ?thesis by (auto simp: int_of_float_def intro: floor_mono)
qed

lemma int_of_float_le: "x \<le> of_int n \<Longrightarrow> int_of_float x \<le> n"
  using int_of_float_mono[of x "of_int n"] by simp

lemma int_of_float_nonneg: "0 \<le> x \<Longrightarrow> 0 \<le> int_of_float x"
  by (simp add: int_of_float_def)

end
