(* ===== verification/Models.thy ===== *)
theory Models
  imports Float64
begin

section \<open>Rows, tables and the database state\<close>

text \<open>
  The SQLAlchemy models of \<^verbatim>\<open>backend/app/models\<close> that the modelled services read and write,
  one record per class with the columns those services use, and the database as a record of
  tables. A table is the list of its rows in insertion order; a query without
  \<^verbatim>\<open>ORDER BY\<close> sees its rows in that order. A column that may be \<^verbatim>\<open>NULL\<close> is an
  \<^verbatim>\<open>option\<close>. JSON columns hold scalar Python values.

  The locale \<open>table\<close> is the interface between a service and the database: a table is read and
  replaced through a lawful pair of a getter and an updater, and the lemmas of the locale say
  what a lookup by key returns after an update of a row and after an insertion. It is
  interpreted for every table that the services update by key.
\<close>

subsection \<open>Python values in JSON columns\<close>

text \<open>A JSON float is kept as the text Python prints for it.\<close>

datatype pyval = VNone | VBool bool | VInt int | VFloat string | VStr string

type_synonym payload = "(string \<times> pyval) list"

definition pget :: "payload \<Rightarrow> string \<Rightarrow> pyval" where
  "pget p k = (case map_of p k of None \<Rightarrow> VNone | Some v \<Rightarrow> v)"

definition pget_default :: "payload \<Rightarrow> string \<Rightarrow> pyval \<Rightarrow> pyval" where
  "pget_default p k d = (case map_of p k of None \<Rightarrow> d | Some v \<Rightarrow> v)"

text \<open>
  \<^verbatim>\<open>Decimal(s)\<close> for the decimal literals \<^verbatim>\<open>[+-]digits[.digits][e[+-]digits]\<close>; the special
  spellings of infinities and NaN are not numbers here.
\<close>

definition signed :: "string \<Rightarrow> bool \<times> string" where
  "signed s = (case s of [] \<Rightarrow> (False, [])
     | c # t \<Rightarrow> if c = CHR ''-'' then (True, t) else if c = CHR ''+'' then (False, t) else (False, s))"

definition exponent_of :: "string \<Rightarrow> int option" where
  "exponent_of r = (case r of [] \<Rightarrow> Some 0
     | c # t \<Rightarrow> if c = CHR ''e'' \<or> c = CHR ''E''
         then (let (neg, d) = signed t in
           if isdigit d then Some ((if neg then -1 else 1) * int (digits_val d)) else None)
         else None)"

definition decimal_of :: "string \<Rightarrow> rat option" where
  "decimal_of s =
     (let (neg, t) = signed (strip s);
          ip = takeWhile is_digit t; r1 = dropWhile is_digit t;
          (fp, r2) = (case r1 of [] \<Rightarrow> ([], []) | c # u \<Rightarrow>
             if c = CHR ''.'' then (takeWhile is_digit u, dropWhile is_digit u) else ([], r1))
      in if ip = [] \<and> fp = [] then None
         else map_option (\<lambda>e. (if neg then -1 else 1) * of_nat (digits_val (ip @ fp))
                 * 10 powi (e - int (length fp))) (exponent_of r2))"

fun py_str :: "pyval \<Rightarrow> string" where
  "py_str VNone = ''None''"
| "py_str (VBool b) = (if b then ''True'' else ''False'')"
| "py_str (VInt i) = int_str i"
| "py_str (VFloat r) = r"
| "py_str (VStr s) = s"

fun truthy :: "pyval \<Rightarrow> bool" where
  "truthy VNone = False"
| "truthy (VBool b) = b"
| "truthy (VInt i) = (i \<noteq> 0)"
| "truthy (VFloat r) = (decimal_of r \<noteq> Some 0)"
| "truthy (VStr s) = (s \<noteq> [])"

definition py_or :: "pyval \<Rightarrow> pyval \<Rightarrow> pyval" where
  "py_or a b = (if truthy a then a else b)"

fun py_int_val :: "pyval \<Rightarrow> int result" where
  "py_int_val VNone = Inl TypeError"
| "py_int_val (VBool b) = Inr (if b then 1 else 0)"
| "py_int_val (VInt i) = Inr i"
| "py_int_val (VFloat r) = (case decimal_of r of None \<Rightarrow> Inl (ValueError ''int'') | Some x \<Rightarrow> Inr (int_of_float x))"
| "py_int_val (VStr s) = (case py_int s of None \<Rightarrow> Inl (ValueError ''int'') | Some i \<Rightarrow> Inr i)"

text \<open>The payload of a control-plane event is nested.\<close>

datatype json = JNull | JBool bool | JInt int | JFloat rat | JStr string | JList "json list"
  | JObj "(string \<times> json) list"

definition json_opt :: "string option \<Rightarrow> json" where
  "json_opt x = (case x of None \<Rightarrow> JNull | Some s \<Rightarrow> JStr s)"

text \<open>\<^verbatim>\<open>float(v)\<close>, for finite numbers.\<close>

fun py_float_val :: "pyval \<Rightarrow> rat result" where
  "py_float_val VNone = Inl TypeError"
| "py_float_val (VBool b) = Inr (if b then 1 else 0)"
| "py_float_val (VInt i) = Inr (float_of_int i)"
| "py_float_val (VFloat r) = (case decimal_of r of None \<Rightarrow> Inl (ValueError ''float'') | Some x \<Rightarrow> Inr (fl x))"
| "py_float_val (VStr s) = (case decimal_of s of None \<Rightarrow> Inl (ValueError ''float'') | Some x \<Rightarrow> Inr (fl x))"

subsection \<open>Rows\<close>

record user =
  u_id :: int
  u_tg_id :: int
  u_is_banned :: bool

record plan =
  pl_id :: string
  pl_name :: string
  pl_duration_days :: int
  pl_price_amount :: rat

record subscription =
  s_id :: string
  s_user_id :: int
  s_plan_id :: string
  s_valid_from :: datetime
  s_valid_until :: datetime
  s_device_limit :: int
  s_status :: string
  s_is_trial :: bool
  s_trial_ends_at :: "datetime option"
  s_paused_at :: "datetime option"
  s_pause_reason :: "string option"
  s_reminder_3d_sent_at :: "datetime option"
  s_reminder_1d_sent_at :: "datetime option"

record payment =
  pay_id :: string
  pay_user_id :: int
  pay_subscription_id :: string
  pay_provider :: string
  pay_status :: string
  pay_amount :: rat
  pay_currency :: string
  pay_external_id :: string
  pay_webhook_payload :: "payload option"

record payment_event =
  pe_payment_id :: string
  pe_event_type :: string
  pe_payload :: payload

record referral =
  r_id :: string
  r_referrer_user_id :: int
  r_referee_user_id :: int
  r_status :: string
  r_reward_days :: int
  r_reward_applied_at :: "datetime option"

record promo_code =
  pc_id :: string
  pc_code :: string
  pc_type :: string
  pc_value :: rat
  pc_status :: string

record promo_redemption =
  pr_promo_code_id :: string
  pr_user_id :: int
  pr_payment_id :: string
  pr_subscription_id :: string

record funnel_event =
  fe_user_id :: int
  fe_event_type :: string
  fe_payload :: payload

record device =
  d_id :: string
  d_user_id :: int
  d_subscription_id :: string
  d_server_id :: string
  d_device_name :: "string option"
  d_public_key :: string
  d_allowed_ips :: "string option"
  d_preshared_key :: "string option"
  d_issued_at :: datetime
  d_revoked_at :: "datetime option"
  d_suspended_at :: "datetime option"
  d_expires_at :: "datetime option"
  d_apply_status :: "string option"
  d_last_applied_at :: "datetime option"
  d_last_error :: "string option"

record server =
  sv_id :: string
  sv_name :: string
  sv_region :: string
  sv_api_endpoint :: string
  sv_vpn_endpoint :: "string option"
  sv_public_key :: "string option"
  sv_status :: string
  sv_is_active :: bool
  sv_traffic_limit_gb :: "rat option"
  sv_max_connections :: "int option"
  sv_health_score :: "rat option"
  sv_is_draining :: bool

record control_plane_event =
  ev_type :: string
  ev_severity :: string
  ev_server_id :: "string option"
  ev_payload :: json

record latency_probe =
  lp_agent_id :: string
  lp_source_region :: string
  lp_server_id :: string
  lp_latency_ms :: rat
  lp_jitter_ms :: "rat option"
  lp_packet_loss_pct :: "rat option"
  lp_probe_ts :: datetime

record db =
  users :: "user list"
  plans :: "plan list"
  subscriptions :: "subscription list"
  payments :: "payment list"
  payment_events :: "payment_event list"
  referrals :: "referral list"
  promo_codes :: "promo_code list"
  promo_redemptions :: "promo_redemption list"
  funnel_events :: "funnel_event list"
  devices :: "device list"
  servers :: "server list"
  control_plane_events :: "control_plane_event list"
  latency_probes :: "latency_probe list"

definition empty_db :: db where
  "empty_db = \<lparr>users = [], plans = [], subscriptions = [], payments = [], payment_events = [],
     referrals = [], promo_codes = [], promo_redemptions = [], funnel_events = [], devices = [],
     servers = [], control_plane_events = [], latency_probes = []\<rparr>"

subsection \<open>Queries and updates by key\<close>

definition find_row :: "('r \<Rightarrow> 'k) \<Rightarrow> 'k \<Rightarrow> 'r list \<Rightarrow> 'r option" where
  "find_row key k rs = List.find (\<lambda>r. key r = k) rs"

definition upd_row :: "('r \<Rightarrow> 'k) \<Rightarrow> 'k \<Rightarrow> ('r \<Rightarrow> 'r) \<Rightarrow> 'r list \<Rightarrow> 'r list" where
  "upd_row key k f rs = map (\<lambda>r. if key r = k then f r else r) rs"

definition add_row :: "'r \<Rightarrow> 'r list \<Rightarrow> 'r list" where
  "add_row r rs = rs @ [r]"

definition unique_on :: "('r \<Rightarrow> 'k) \<Rightarrow> 'r list \<Rightarrow> bool" where
  "unique_on key rs \<longleftrightarrow> distinct (map key rs)"

lemma find_row_simps [simp]:
  "find_row key k [] = None"
  "find_row key k (r # rs) = (if key r = k then Some r else find_row key k rs)"
  by (simp_all add: find_row_def)

lemma find_row_Some: "find_row key k rs = Some r \<Longrightarrow> r \<in> set rs \<and> key r = k"
  by (induction rs) (auto split: if_splits)

lemma find_row_key: "find_row key k rs = Some r \<Longrightarrow> key r = k"
  by (drule find_row_Some) simp

lemma find_row_None: "find_row key k rs = None \<longleftrightarrow> k \<notin> key ` set rs"
  by (auto simp: find_row_def find_None_iff)

lemma find_row_unique:
  "unique_on key rs \<Longrightarrow> r \<in> set rs \<Longrightarrow> find_row key (key r) rs = Some r"
proof (induction rs)
  case (Cons a rs)
  show ?case
  proof (cases "key a = key r")
    case True
    with Cons.prems have "a = r" by (auto simp: unique_on_def)
    then show ?thesis by simp
  next
    case False
    with Cons have "r \<in> set rs" "unique_on key rs" by (auto simp: unique_on_def)
    with Cons.IH False show ?thesis by simp
  qed
qed simp

lemma unique_on_key:
  "unique_on key rs \<Longrightarrow> r \<in> set rs \<Longrightarrow> r' \<in> set rs \<Longrightarrow> key r = key r' \<longleftrightarrow> r = r'"
  by (auto simp: unique_on_def distinct_map inj_on_eq_iff)

lemma first_row_unique:
  assumes "unique_on key rs" "r \<in> set rs" "P r" "\<And>x. P x \<Longrightarrow> key x = key r"
  shows "first_row P rs = Some r"
proof (cases "first_row P rs")
  case None
  with assms(2,3) show ?thesis by (auto simp: first_row_None)
next
  case (Some x)
  then have x: "x \<in> set rs" "P x" by (simp_all add: first_row_Some)
  have "key x = key r" using assms(4)[OF x(2)] .
  with find_row_unique[OF assms(1,2)] find_row_unique[OF assms(1) x(1)] Some show ?thesis by simp
qed

lemma find_row_append:
  "find_row key k (xs @ ys) = (case find_row key k xs of None \<Rightarrow> find_row key k ys | Some r \<Rightarrow> Some r)"
  by (induction xs) auto

lemma find_row_add_other: "key r \<noteq> k \<Longrightarrow> find_row key k (add_row r rs) = find_row key k rs"
  by (auto simp: add_row_def find_row_append split: option.splits)

lemma find_row_add_same: "key r \<notin> key ` set rs \<Longrightarrow> find_row key (key r) (add_row r rs) = Some r"
  by (simp add: add_row_def find_row_append find_row_None[symmetric])

lemma find_row_upd_other:
  "(\<And>r. key (f r) = key r) \<Longrightarrow> k \<noteq> k' \<Longrightarrow> find_row key k' (upd_row key k f rs) = find_row key k' rs"
  by (induction rs) (auto simp: upd_row_def)

lemma find_row_upd_same:
  "(\<And>r. key (f r) = key r) \<Longrightarrow> find_row key k (upd_row key k f rs) = map_option f (find_row key k rs)"
  by (induction rs) (auto simp: upd_row_def)

lemma map_upd_row: "(\<And>r. g (f r) = g r) \<Longrightarrow> map g (upd_row key k f rs) = map g rs"
  by (simp add: upd_row_def)

lemma unique_on_upd [inv_intros]:
  "(\<And>r. g (f r) = g r) \<Longrightarrow> unique_on g rs \<Longrightarrow> unique_on g (upd_row key k f rs)"
  by (simp add: unique_on_def map_upd_row)

lemma unique_on_add [inv_intros]:
  "key r \<notin> key ` set rs \<Longrightarrow> unique_on key rs \<Longrightarrow> unique_on key (add_row r rs)"
  by (simp add: unique_on_def add_row_def)

lemma set_upd_row: "set (upd_row key k f rs) = (\<lambda>r. if key r = k then f r else r) ` set rs"
  by (simp add: upd_row_def)

lemma in_upd_row:
  "x \<in> set (upd_row key k f rs) \<longleftrightarrow>
     (\<exists>r\<in>set rs. key r = k \<and> x = f r) \<or> (x \<in> set rs \<and> key x \<noteq> k)"
  by (auto simp: upd_row_def)

lemma set_add_row [simp]: "set (add_row r rs) = insert r (set rs)"
  by (auto simp: add_row_def)

lemma length_upd_row [simp]: "length (upd_row key k f rs) = length rs"
  by (simp add: upd_row_def)

subsection \<open>The interface of a table\<close>

locale table =
  fixes rows :: "'d \<Rightarrow> 'r list"
    and upd :: "('r list \<Rightarrow> 'r list) \<Rightarrow> 'd \<Rightarrow> 'd"
    and key :: "'r \<Rightarrow> 'k"
  assumes get_put: "rows (upd f d) = f (rows d)"
    and put_get: "upd (\<lambda>_. rows d) d = d"
    and put_put: "upd f (upd g d) = upd (\<lambda>rs. f (g rs)) d"
begin

lemma put_id: "upd (\<lambda>rs. rs) d = d"
proof -
  have "upd (\<lambda>rs. rs) d = upd (\<lambda>rs. rs) (upd (\<lambda>_. rows d) d)" by (simp add: put_get)
  also have "\<dots> = upd (\<lambda>_. rows d) d" by (simp add: put_put)
  finally show ?thesis by (simp add: put_get)
qed

text \<open>A lookup after an update of the row with the same key, and of another one.\<close>

lemma lookup_updated:
  assumes "\<And>r. key (f r) = key r"
  shows "find_row key k' (rows (upd (upd_row key k f) d)) =
     (if k' = k then map_option f (find_row key k (rows d)) else find_row key k' (rows d))"
  using assms by (simp add: get_put find_row_upd_same find_row_upd_other)

lemma lookup_added:
  assumes "key r \<notin> key ` set (rows d)"
  shows "find_row key k (rows (upd (add_row r) d)) =
     (if k = key r then Some r else find_row key k (rows d))"
  using assms by (simp add: get_put find_row_add_same find_row_add_other)

lemma keys_updated:
  assumes "\<And>r. key (f r) = key r" "unique_on key (rows d)"
  shows "unique_on key (rows (upd (upd_row key k f) d))"
  using assms by (simp add: get_put unique_on_upd)

lemma keys_added:
  assumes "key r \<notin> key ` set (rows d)" "unique_on key (rows d)"
  shows "unique_on key (rows (upd (add_row r) d))"
  using assms by (simp add: get_put unique_on_add)

text \<open>Updates of rows with different keys commute.\<close>

lemma updates_commute:
  assumes "\<And>r. key (f r) = key r" "\<And>r. key (g r) = key r" "k \<noteq> k'"
  shows "upd (upd_row key k f) (upd (upd_row key k' g) d) = upd (upd_row key k' g) (upd (upd_row key k f) d)"
proof -
  have "upd_row key k f (upd_row key k' g rs) = upd_row key k' g (upd_row key k f rs)" for rs
    using assms by (auto simp: upd_row_def)
  then show ?thesis by (simp add: put_put)
qed

end

interpretation users_tbl: table users users_update u_id by unfold_locales simp_all
interpretation plans_tbl: table plans plans_update pl_id by unfold_locales simp_all
interpretation subs_tbl: table subscriptions subscriptions_update s_id by unfold_locales simp_all
interpretation pays_tbl: table payments payments_update pay_id by unfold_locales simp_all
interpretation ext_tbl: table payments payments_update pay_external_id by unfold_locales simp_all
interpretation refs_tbl: table referrals referrals_update r_id by unfold_locales simp_all
interpretation promos_tbl: table promo_codes promo_codes_update pc_id by unfold_locales simp_all
interpretation devices_tbl: table devices devices_update d_id by unfold_locales simp_all
interpretation servers_tbl: table servers servers_update sv_id by unfold_locales simp_all

end
