(* ===== verification/Settings.thy ===== *)
theory Settings
  imports Float64
begin

section \<open>Application settings\<close>

text \<open>
  The settings object of \<^verbatim>\<open>backend/app/core/config.py\<close>: the fields the modelled components
  read, its defaults, the pydantic validators that run when the object is built, and the
  production start-up gate \<open>validate_production_secrets\<close>. Every validator is a function to
  \<^typ>\<open>unit result\<close> whose checks stand in the order of the source.
\<close>

record settings =
  secret_key :: string
  admin_password :: string
  ban_confirm_token :: string
  revoke_confirm_token :: string
  restart_confirm_token :: string
  block_confirm_token :: string
  cleanup_db_confirm_token :: string
  admin_telemetry_sample_rate :: rat
  referral_reward_bonus_days :: int
  trial_duration_hours :: int
  trial_plan_id :: string
  environment :: string
  node_mode :: string
  issue_fallback_on_peer_failure :: bool
  reconciliation_interval_seconds :: int
  reconciliation_read_only :: bool
  reconciliation_remove_orphans :: bool
  node_discovery :: string
  control_plane_rebalance_high_watermark :: rat
  control_plane_rebalance_target_watermark :: rat
  control_plane_rebalance_max_moves_per_node :: int
  control_plane_rebalance_batch_size :: int
  control_plane_rebalance_max_executions_per_cycle :: int
  control_plane_enterprise_plan_keywords :: string
  control_plane_rebalance_qos_idle_handshake_seconds :: int
  control_plane_rebalance_qos_hot_traffic_bytes :: int
  control_plane_probe_fresh_seconds :: int
  control_plane_geo_region_affinity_bonus :: rat
  control_plane_events_ws_poll_seconds :: int
  control_plane_events_ws_initial_limit :: int
  control_plane_unhealthy_health_threshold :: rat
  server_sync_interval_seconds :: int
  server_sync_max_concurrent :: int
  server_sync_backoff_max_seconds :: int
  load_balancer_weight_capacity :: rat
  load_balancer_weight_latency :: rat
  agent_shared_token :: string

definition default_settings :: settings where
  "default_settings = \<lparr>
     secret_key = ''change-me-in-production-min-32-chars'',
     admin_password = ''change-me'',
     ban_confirm_token = ''confirm_ban'',
     revoke_confirm_token = ''confirm_revoke'',
     restart_confirm_token = ''confirm_restart'',
     block_confirm_token = ''confirm_block'',
     cleanup_db_confirm_token = ''confirm_cleanup_db'',
     admin_telemetry_sample_rate = 1,
     referral_reward_bonus_days = 7,
     trial_duration_hours = 24,
     trial_plan_id = '''',
     environment = ''development'',
     node_mode = ''mock'',
     issue_fallback_on_peer_failure = True,
     reconciliation_interval_seconds = 60,
     reconciliation_read_only = False,
     reconciliation_remove_orphans = False,
     node_discovery = ''docker'',
     control_plane_rebalance_high_watermark = fl (85/100),
     control_plane_rebalance_target_watermark = fl (65/100),
     control_plane_rebalance_max_moves_per_node = 250,
     control_plane_rebalance_batch_size = 25,
     control_plane_rebalance_max_executions_per_cycle = 100,
     control_plane_enterprise_plan_keywords = ''enterprise,business,dedicated'',
     control_plane_rebalance_qos_idle_handshake_seconds = 300,
     control_plane_rebalance_qos_hot_traffic_bytes = 10485760,
     control_plane_probe_fresh_seconds = 300,
     control_plane_geo_region_affinity_bonus = fl (5/100),
     control_plane_events_ws_poll_seconds = 2,
     control_plane_events_ws_initial_limit = 20,
     control_plane_unhealthy_health_threshold = fl (5/10),
     server_sync_interval_seconds = 60,
     server_sync_max_concurrent = 5,
     server_sync_backoff_max_seconds = 900,
     load_balancer_weight_capacity = fl (4/10),
     load_balancer_weight_latency = fl (2/10),
     agent_shared_token = ''''\<rparr>"

subsection \<open>Validators\<close>

definition check_node_mode :: "settings \<Rightarrow> unit result" where
  "check_node_mode s =
     (if node_mode s \<notin> {''mock'', ''real'', ''agent''} then Inl (ValueError ''NODE_MODE'')
      else Inr ())"

definition check_node_discovery :: "settings \<Rightarrow> unit result" where
  "check_node_discovery s =
     (if node_discovery s \<notin> {''docker'', ''agent''} then Inl (ValueError ''NODE_DISCOVERY'')
      else Inr ())"

definition check_control_plane_thresholds :: "settings \<Rightarrow> unit result" where
  "check_control_plane_thresholds s =
     (if \<not> (fl (5/10) \<le> control_plane_rebalance_high_watermark s
             \<and> control_plane_rebalance_high_watermark s \<le> fl (99/100))
      then Inl (ValueError ''CONTROL_PLANE_REBALANCE_HIGH_WATERMARK'')
      else if \<not> (fl (2/10) \<le> control_plane_rebalance_target_watermark s
                  \<and> control_plane_rebalance_target_watermark s \<le> fl (9/10))
      then Inl (ValueError ''CONTROL_PLANE_REBALANCE_TARGET_WATERMARK'')
      else if control_plane_rebalance_target_watermark s \<ge> control_plane_rebalance_high_watermark s
      then Inl (ValueError ''TARGET_WATERMARK must be lower than HIGH_WATERMARK'')
      else if control_plane_rebalance_batch_size s \<le> 0
      then Inl (ValueError ''CONTROL_PLANE_REBALANCE_BATCH_SIZE'')
      else if control_plane_rebalance_max_executions_per_cycle s \<le> 0
      then Inl (ValueError ''CONTROL_PLANE_REBALANCE_MAX_EXECUTIONS_PER_CYCLE'')
      else if control_plane_rebalance_qos_idle_handshake_seconds s \<le> 0
      then Inl (ValueError ''CONTROL_PLANE_REBALANCE_QOS_IDLE_HANDSHAKE_SECONDS'')
      else if control_plane_rebalance_qos_hot_traffic_bytes s \<le> 0
      then Inl (ValueError ''CONTROL_PLANE_REBALANCE_QOS_HOT_TRAFFIC_BYTES'')
      else if control_plane_probe_fresh_seconds s \<le> 0
      then Inl (ValueError ''CONTROL_PLANE_PROBE_FRESH_SECONDS'')
      else if \<not> (0 \<le> control_plane_geo_region_affinity_bonus s
                  \<and> control_plane_geo_region_affinity_bonus s \<le> 1)
      then Inl (ValueError ''CONTROL_PLANE_GEO_REGION_AFFINITY_BONUS'')
      else if control_plane_events_ws_poll_seconds s \<le> 0
      then Inl (ValueError ''CONTROL_PLANE_EVENTS_WS_POLL_SECONDS'')
      else if \<not> (1 \<le> control_plane_events_ws_initial_limit s
                  \<and> control_plane_events_ws_initial_limit s \<le> 200)
      then Inl (ValueError ''CONTROL_PLANE_EVENTS_WS_INITIAL_LIMIT'')
      else if \<not> (0 \<le> control_plane_unhealthy_health_threshold s
                  \<and> control_plane_unhealthy_health_threshold s \<le> 1)
      then Inl (ValueError ''CONTROL_PLANE_UNHEALTHY_HEALTH_THRESHOLD'')
      else if server_sync_interval_seconds s < 0
      then Inl (ValueError ''SERVER_SYNC_INTERVAL_SECONDS'')
      else if server_sync_max_concurrent s < 1
      then Inl (ValueError ''SERVER_SYNC_MAX_CONCURRENT'')
      else if server_sync_backoff_max_seconds s < 60
      then Inl (ValueError ''SERVER_SYNC_BACKOFF_MAX_SECONDS'')
      else if \<not> (0 \<le> admin_telemetry_sample_rate s \<and> admin_telemetry_sample_rate s \<le> 1)
      then Inl (ValueError ''ADMIN_TELEMETRY_SAMPLE_RATE'')
      else Inr ())"

text \<open>The object exists only when every validator passed, in the order they are declared.\<close>

definition build_settings :: "settings \<Rightarrow> settings result" where
  "build_settings s =
     rbind (check_node_mode s) (\<lambda>_. rbind (check_node_discovery s) (\<lambda>_.
     rbind (check_control_plane_thresholds s) (\<lambda>_. Inr s)))"

definition weak_secret :: "string \<Rightarrow> string \<Rightarrow> nat \<Rightarrow> bool" where
  "weak_secret v dflt n \<longleftrightarrow> v = [] \<or> v = dflt \<or> length v < n"

definition validate_production_secrets :: "settings \<Rightarrow> unit result" where
  "validate_production_secrets s =
     (if lower (environment s) \<noteq> ''production'' then Inr ()
      else if weak_secret (secret_key s) ''change-me-in-production-min-32-chars'' 32
      then Inl (ValueError ''SECRET_KEY'')
      else if weak_secret (admin_password s) ''change-me'' 12
      then Inl (ValueError ''ADMIN_PASSWORD'')
      else if weak_secret (ban_confirm_token s) ''confirm_ban'' 16
      then Inl (ValueError ''BAN_CONFIRM_TOKEN'')
      else if weak_secret (block_confirm_token s) ''confirm_block'' 16
      then Inl (ValueError ''BLOCK_CONFIRM_TOKEN'')
      else if weak_secret (restart_confirm_token s) ''confirm_restart'' 16
      then Inl (ValueError ''RESTART_CONFIRM_TOKEN'')
      else if weak_secret (revoke_confirm_token s) ''confirm_revoke'' 16
      then Inl (ValueError ''REVOKE_CONFIRM_TOKEN'')
      else if weak_secret (cleanup_db_confirm_token s) ''confirm_cleanup_db'' 16
      then Inl (ValueError ''CLEANUP_DB_CONFIRM_TOKEN'')
      else if (node_discovery s = ''agent'' \<or> node_mode s = ''agent'')
              \<and> (agent_shared_token s = [] \<or> length (agent_shared_token s) < 32)
      then Inl (ValueError ''AGENT_SHARED_TOKEN'')
      else if node_discovery s \<noteq> ''agent'' then Inl (ValueError ''Production requires NODE_DISCOVERY=agent'')
      else Inr ())"

subsection \<open>What accepted settings guarantee\<close>

lemma thresholds_ok:
  assumes "check_control_plane_thresholds s = Inr ()"
  shows "fl (2/10) \<le> control_plane_rebalance_target_watermark s"
    and "control_plane_rebalance_target_watermark s < control_plane_rebalance_high_watermark s"
    and "control_plane_rebalance_high_watermark s \<le> fl (99/100)"
    and "0 < control_plane_rebalance_batch_size s"
    and "0 < control_plane_rebalance_max_executions_per_cycle s"
  using assms by (simp_all add: check_control_plane_thresholds_def split: if_splits)

lemma build_settings_thresholds:
  "build_settings s = Inr s' \<Longrightarrow> s' = s \<and> check_control_plane_thresholds s = Inr ()"
  by (auto simp: build_settings_def rbind_Inr_iff)

lemma build_settings_watermarks:
  assumes "build_settings s = Inr s'"
  shows "0 < control_plane_rebalance_target_watermark s"
    and "control_plane_rebalance_target_watermark s < control_plane_rebalance_high_watermark s"
    and "control_plane_rebalance_high_watermark s < 1"
proof -
  from assms have ok: "check_control_plane_thresholds s = Inr ()"
    using build_settings_thresholds by blast
  have "0 < fl (2/10)" "fl (99/100) < 1" by code_simp+
  with thresholds_ok[OF ok] show "0 < control_plane_rebalance_target_watermark s"
    "control_plane_rebalance_target_watermark s < control_plane_rebalance_high_watermark s"
    "control_plane_rebalance_high_watermark s < 1" by linarith+
qed

lemma default_settings_accepted: "build_settings default_settings = Inr default_settings"
proof -
  have "fl (5/10) \<le> fl (85/100)" "fl (85/100) \<le> fl (99/100)" "fl (2/10) \<le> fl (65/100)"
    "fl (65/100) \<le> fl (9/10)" "\<not> fl (85/100) \<le> fl (65/100)" "0 \<le> fl (5/100)" "fl (5/100) \<le> 1"
    "0 \<le> fl (5/10)" "fl (5/10) \<le> 1"
    by code_simp+
  then show ?thesis
    by (simp add: build_settings_def check_node_mode_def check_node_discovery_def
        check_control_plane_thresholds_def default_settings_def)
qed

end
