(* ===== verification/Billing.thy ===== *)
theory Billing
  imports Models Settings
begin

section \<open>Payments, subscriptions, referrals and promo codes\<close>

text \<open>
  The billing component: \<^verbatim>\<open>services/payment_webhook_service.py\<close> (a payment is found or created
  by its external id, and a completed payment extends the subscription, rewards the referrer
  and redeems a promo code), the HTTP handler of \<^verbatim>\<open>api/v1/webhooks.py\<close> around it,
  \<^verbatim>\<open>services/retention_service.py\<close> (pause and resume) and the reminder task of
  \<^verbatim>\<open>core/subscription_expiry_reminder_task.py\<close>.

  A session that raises is rolled back, so a failing operation is a value \<^term>\<open>Inl e\<close> and
  leaves no state behind. \<open>clk i\<close> is what the \<open>i\<close>-th reading of the clock in the function
  returns. Fresh primary keys (\<^verbatim>\<open>uuid4().hex\<close>) are arguments. Metrics counters and log lines
  have no effect on the state and are left out.
\<close>

subsection \<open>Inserting a payment row\<close>

text \<open>
  The constraints of \<^verbatim>\<open>models/payment.py\<close> as the database checks them: the widths of the
  columns, the unique external id, the two foreign keys. An amount is rounded to two decimals
  by the \<^verbatim>\<open>NUMERIC(12, 2)\<close> column, halves away from zero.
\<close>

definition numeric_12_2 :: "rat \<Rightarrow> rat" where
  "numeric_12_2 x = (if x < 0 then - of_int \<lfloor>- x * 100 + 1/2\<rfloor> / 100 else of_int \<lfloor>x * 100 + 1/2\<rfloor> / 100)"

definition insert_payment :: "payment \<Rightarrow> db \<Rightarrow> db result" where
  "insert_payment p d =
     (if length (pay_subscription_id p) > 32 \<or> length (pay_provider p) > 32 \<or> length (pay_status p) > 32
         \<or> length (pay_currency p) > 8 \<or> length (pay_external_id p) > 255
         \<or> \<bar>numeric_12_2 (pay_amount p)\<bar> \<ge> 10 ^ 10
      then Inl (DataError ''payments'')
      else if pay_external_id p \<in> pay_external_id ` set (payments d)
      then Inl (IntegrityError ''payments.external_id'')
      else if pay_user_id p \<notin> u_id ` set (users d)
      then Inl (IntegrityError ''payments.user_id'')
      else if pay_subscription_id p \<notin> s_id ` set (subscriptions d)
      then Inl (IntegrityError ''payments.subscription_id'')
      else Inr (payments_update (add_row (p\<lparr>pay_amount := numeric_12_2 (pay_amount p)\<rparr>)) d))"

definition log_funnel_event :: "string \<Rightarrow> int \<Rightarrow> payload \<Rightarrow> db \<Rightarrow> db" where
  "log_funnel_event ty uid pl d =
     funnel_events_update (add_row \<lparr>fe_user_id = uid, fe_event_type = ty, fe_payload = pl\<rparr>) d"

definition log_payment_event :: "string \<Rightarrow> string \<Rightarrow> payload \<Rightarrow> db \<Rightarrow> db" where
  "log_payment_event pid ty pl d =
     payment_events_update (add_row \<lparr>pe_payment_id = pid, pe_event_type = ty, pe_payload = pl\<rparr>) d"

subsection \<open>Effects of a completed payment\<close>

definition renew :: "datetime \<Rightarrow> int \<Rightarrow> subscription \<Rightarrow> subscription" where
  "renew now n sub =
     (if s_status sub \<noteq> ''active''
      then sub\<lparr>s_status := ''active'', s_valid_from := now, s_valid_until := now + days n\<rparr>
      else sub\<lparr>s_valid_until :=
             (if s_valid_until sub > now then s_valid_until sub else now) + days n\<rparr>)"

definition extend :: "datetime \<Rightarrow> datetime \<Rightarrow> int \<Rightarrow> subscription \<Rightarrow> subscription" where
  "extend t1 t2 n sub =
     sub\<lparr>s_valid_until := (if s_valid_until sub > t1 then s_valid_until sub else t2) + days n\<rparr>"

definition referrer_subscription :: "int \<Rightarrow> db \<Rightarrow> subscription option" where
  "referrer_subscription uid d =
     max_key s_valid_until
       (filter (\<lambda>s. s_user_id s = uid \<and> s_status s = ''active'') (subscriptions d))"

definition apply_referral :: "settings \<Rightarrow> (nat \<Rightarrow> datetime) \<Rightarrow> int \<Rightarrow> db \<Rightarrow> db" where
  "apply_referral S clk uid d =
     (case first_row (\<lambda>r. r_referee_user_id r = uid \<and> r_reward_applied_at r = None) (referrals d) of
        None \<Rightarrow> d
      | Some ref \<Rightarrow>
          let reward_days = (if r_reward_days ref \<noteq> 0 then r_reward_days ref
                             else referral_reward_bonus_days S) in
          if reward_days = 0 then d
          else
            let d1 = (case referrer_subscription (r_referrer_user_id ref) d of
                        None \<Rightarrow> d
                      | Some rs \<Rightarrow> subscriptions_update
                          (upd_row s_id (s_id rs) (extend (clk 1) (clk 2) reward_days)) d);
                d2 = referrals_update (upd_row r_id (r_id ref)
                       (\<lambda>r. r\<lparr>r_reward_applied_at := Some (clk 3), r_status := ''rewarded''\<rparr>)) d1
            in log_funnel_event ''referral_signup'' (r_referrer_user_id ref)
                 [(''referee_user_id'', VInt (r_referee_user_id ref)), (''reward_applied'', VBool True)] d2)"

text \<open>
  \<^verbatim>\<open>(payload.get("promo_code") or "").strip() or None\<close>: a truthy value that is no string has
  no \<^verbatim>\<open>strip\<close>.
\<close>

definition promo_code_str :: "payload \<Rightarrow> string option result" where
  "promo_code_str pl = (case py_or (pget pl ''promo_code'') (VStr '''') of
       VStr s \<Rightarrow> Inr (if strip s = [] then None else Some (strip s))
     | _ \<Rightarrow> Inl AttributeError)"

definition apply_promo :: "(nat \<Rightarrow> datetime) \<Rightarrow> payment \<Rightarrow> string \<Rightarrow> string \<Rightarrow> db \<Rightarrow> db" where
  "apply_promo clk pay sid code d =
     (case first_row (\<lambda>c. pc_code c = code \<and> pc_status c = ''active'') (promo_codes d) of
        None \<Rightarrow> d
      | Some promo \<Rightarrow>
          if first_row (\<lambda>x. pr_promo_code_id x = pc_id promo \<and> pr_user_id x = pay_user_id pay)
               (promo_redemptions d) \<noteq> None then d
          else
            let d1 = promo_redemptions_update (add_row \<lparr>pr_promo_code_id = pc_id promo,
                       pr_user_id = pay_user_id pay, pr_payment_id = pay_id pay,
                       pr_subscription_id = pay_subscription_id pay\<rparr>) d;
                d2 = (if pc_type promo = ''bonus_days''
                      then subscriptions_update (upd_row s_id sid
                             (extend (clk 4) (clk 5) (int_of_float (pc_value promo)))) d1
                      else d1)
            in log_funnel_event ''promo_applied'' (pay_user_id pay)
                 [(''promo_code_id'', VStr (pc_id promo))] d2)"

definition effects_payload :: "payment \<Rightarrow> payload option \<Rightarrow> payload" where
  "effects_payload pay payload_for_promo = (case payload_for_promo of
       Some (x # xs) \<Rightarrow> x # xs
     | _ \<Rightarrow> (case pay_webhook_payload pay of None \<Rightarrow> [] | Some q \<Rightarrow> q))"

definition apply_payment_success_effects ::
  "settings \<Rightarrow> (nat \<Rightarrow> datetime) \<Rightarrow> payment \<Rightarrow> payload option \<Rightarrow> db \<Rightarrow> db result" where
  "apply_payment_success_effects S clk pay payload_for_promo d =
     (case first_row (\<lambda>s. s_id s = pay_subscription_id pay \<and> s_user_id s = pay_user_id pay) (subscriptions d) of
        None \<Rightarrow> Inr d
      | Some sub \<Rightarrow>
        (case find_row pl_id (s_plan_id sub) (plans d) of
           None \<Rightarrow> Inr d
         | Some plan \<Rightarrow>
             let d1 = subscriptions_update (upd_row s_id (s_id sub) (renew (clk 0) (pl_duration_days plan))) d;
                 note = [(''subscription_id'', VStr (pay_subscription_id pay))];
                 d2 = log_funnel_event ''renewal'' (s_user_id sub) note
                        (log_funnel_event ''payment'' (s_user_id sub) note d1);
                 d3 = apply_referral S clk (pay_user_id pay) d2
             in rbind (promo_code_str (effects_payload pay payload_for_promo)) (\<lambda>code. Inr (case code of
                   None \<Rightarrow> d3
                 | Some c \<Rightarrow> apply_promo clk pay (s_id sub) c d3))))"

subsection \<open>Confirmation by the bot\<close>

definition complete_pending_payment_by_bot ::
  "settings \<Rightarrow> (nat \<Rightarrow> datetime) \<Rightarrow> string \<Rightarrow> int \<Rightarrow> string option \<Rightarrow> db \<Rightarrow> (bool \<times> db) result" where
  "complete_pending_payment_by_bot S clk payment_id tg_id charge d =
     (case find_row pay_id payment_id (payments d) of
        None \<Rightarrow> Inr (False, d)
      | Some pay \<Rightarrow>
        (case find_row u_id (pay_user_id pay) (users d) of
           None \<Rightarrow> Inl AttributeError
         | Some u \<Rightarrow>
             if u_tg_id u \<noteq> tg_id then Inr (False, d)
             else if pay_status pay = ''completed'' then Inr (True, d)
             else if pay_status pay \<noteq> ''pending'' then Inr (False, d)
             else
               let d1 = payments_update (upd_row pay_id payment_id (\<lambda>p. p\<lparr>pay_status := ''completed''\<rparr>)) d;
                   d2 = log_payment_event payment_id ''bot_confirm''
                          [(''tg_id'', VInt tg_id),
                           (''telegram_payment_charge_id'', (case charge of None \<Rightarrow> VNone | Some c \<Rightarrow> VStr c))] d1
               in rbind (apply_payment_success_effects S clk (pay\<lparr>pay_status := ''completed''\<rparr>) None d2)
                    (\<lambda>d3. Inr (True, d3))))"

subsection \<open>The webhook\<close>

text \<open>
  Two requests may run at once. \<open>seen\<close> is the table of payments that the first
  \<^verbatim>\<open>SELECT\<close> of this request saw, \<open>d\<close> the state its statements run on; when no other request
  intervenes they are the same.
\<close>

definition webhook_external_id :: "payload \<Rightarrow> pyval" where
  "webhook_external_id pl =
     py_or (py_or (pget pl ''external_id'') (pget pl ''id'')) (pget pl ''payment_id'')"

definition webhook_payment :: "string \<Rightarrow> string \<Rightarrow> payload \<Rightarrow> int \<Rightarrow> rat \<Rightarrow> payment" where
  "webhook_payment new_id provider pl user_id amount =
     \<lparr>pay_id = new_id, pay_user_id = user_id,
      pay_subscription_id = py_str (pget pl ''subscription_id''), pay_provider = provider,
      pay_status = take 32 (py_str (pget_default pl ''status'' (VStr ''completed''))),
      pay_amount = amount,
      pay_currency = take 8 (py_str (pget_default pl ''currency'' (VStr ''XTR''))),
      pay_external_id = py_str (webhook_external_id pl), pay_webhook_payload = Some pl\<rparr>"

definition process_payment_webhook ::
  "settings \<Rightarrow> (nat \<Rightarrow> datetime) \<Rightarrow> string \<Rightarrow> string \<Rightarrow> payload \<Rightarrow> payment list \<Rightarrow> db
   \<Rightarrow> ((string \<times> bool) \<times> db) result" where
  "process_payment_webhook S clk new_id provider pl seen d =
     (if \<not> truthy (webhook_external_id pl) then Inl (ValueError ''missing external_id'')
      else case find_row pay_external_id (py_str (webhook_external_id pl)) seen of
          Some pay \<Rightarrow> Inr ((pay_id pay, False), log_payment_event (pay_id pay) ''webhook_repeat'' pl d)
        | None \<Rightarrow>
            if pget pl ''user_id'' = VNone \<or> pget pl ''subscription_id'' = VNone
            then Inl (ValueError ''missing user_id or subscription_id'')
            else rbind (py_int_val (pget pl ''user_id'')) (\<lambda>user_id.
              case decimal_of (py_str (pget_default pl ''amount'' (VInt 0))) of
                None \<Rightarrow> Inl InvalidOperation
              | Some amount \<Rightarrow>
                  let pay = webhook_payment new_id provider pl user_id amount
                  in rbind (insert_payment pay d) (\<lambda>d1.
                       let d2 = log_payment_event new_id ''webhook_received'' pl d1 in
                       if pay_status pay = ''completed''
                       then rbind (apply_payment_success_effects S clk pay (Some pl) d2)
                              (\<lambda>d3. Inr ((new_id, True), d3))
                       else Inr ((new_id, True), d2))))"

text \<open>
  The handler \<^verbatim>\<open>POST /webhooks/payments/{provider}\<close>: \<open>body\<close> is the decoded JSON object,
  \<^term>\<open>None\<close> when decoding fails; \<open>raw_len\<close> the size of the request body; \<open>secret\<close> the
  configured webhook secret.
\<close>

datatype response = Ok string bool | HttpError nat string

definition external_id_from_payload :: "payload \<Rightarrow> string option" where
  "external_id_from_payload pl =
     (case webhook_external_id pl of VNone \<Rightarrow> None | v \<Rightarrow> Some (py_str v))"

definition verify_telegram_stars_secret :: "string \<Rightarrow> string \<Rightarrow> string option \<Rightarrow> bool" where
  "verify_telegram_stars_secret secret provider header \<longleftrightarrow>
     provider \<noteq> ''telegram_stars'' \<or> secret = [] \<or> header = Some secret"

definition payment_webhook ::
  "settings \<Rightarrow> (nat \<Rightarrow> datetime) \<Rightarrow> string \<Rightarrow> string \<Rightarrow> string \<Rightarrow> string option \<Rightarrow> int
   \<Rightarrow> payload option \<Rightarrow> payment list \<Rightarrow> db \<Rightarrow> response \<times> db" where
  "payment_webhook S clk new_id secret provider header raw_len body seen d =
     (if provider \<notin> {''telegram_stars'', ''mock''} then (HttpError 400 ''UNKNOWN_PROVIDER'', d)
      else if raw_len > 1000000 then (HttpError 413 ''Webhook body too large'', d)
      else case body of None \<Rightarrow> (HttpError 400 ''Invalid JSON'', d)
      | Some pl \<Rightarrow>
          if \<not> verify_telegram_stars_secret secret provider header
          then (HttpError 401 ''Invalid or missing webhook secret'', d)
          else case process_payment_webhook S clk new_id provider pl seen d of
            Inr ((pid, created), d') \<Rightarrow> (Ok pid created, d')
          | Inl (IntegrityError _) \<Rightarrow>
              (case external_id_from_payload pl of
                 None \<Rightarrow> (HttpError 409 ''CONFLICT'', d)
               | Some ext \<Rightarrow>
                   if ext = [] then (HttpError 409 ''CONFLICT'', d)
                   else case find_row pay_external_id ext (payments d) of
                     Some existing \<Rightarrow> (Ok (pay_id existing) False, d)
                   | None \<Rightarrow> (HttpError 409 ''CONFLICT'', d))
          | Inl (ValueError m) \<Rightarrow> (HttpError 400 m, d)
          | Inl _ \<Rightarrow> (HttpError 500 ''INTERNAL'', d))"


subsection \<open>Pause, resume and reminders\<close>

definition pause_subscription ::
  "datetime \<Rightarrow> string \<Rightarrow> int \<Rightarrow> string \<Rightarrow> db \<Rightarrow> bool \<times> db" where
  "pause_subscription now sid uid reason d =
     (case first_row (\<lambda>s. s_id s = sid \<and> s_user_id s = uid) (subscriptions d) of
        None \<Rightarrow> (False, d)
      | Some sub \<Rightarrow>
          if s_paused_at sub \<noteq> None then (True, d)
          else (True, subscriptions_update (upd_row s_id sid
                 (\<lambda>s. s\<lparr>s_paused_at := Some now,
                          s_pause_reason := (if reason = [] then None else Some (take 64 reason))\<rparr>)) d))"

definition resume_subscription :: "string \<Rightarrow> int \<Rightarrow> db \<Rightarrow> bool \<times> db" where
  "resume_subscription sid uid d =
     (case first_row (\<lambda>s. s_id s = sid \<and> s_user_id s = uid) (subscriptions d) of
        None \<Rightarrow> (False, d)
      | Some sub \<Rightarrow>
          (True, subscriptions_update (upd_row s_id sid
                   (\<lambda>s. s\<lparr>s_paused_at := None, s_pause_reason := None\<rparr>)) d))"

text \<open>
  The reminder check. \<open>send sid tg_id text\<close> is the Telegram request made for subscription
  \<open>sid\<close>, whose outcome the caller only sees as success or failure. The two queries run one after the other; each row found
  gets its mark only when the message was accepted.
\<close>

definition due_3d :: "datetime \<Rightarrow> subscription \<Rightarrow> bool" where
  "due_3d now s \<longleftrightarrow> s_status s = ''active'' \<and> now + hours 71 \<le> s_valid_until s
     \<and> s_valid_until s \<le> now + hours 73 \<and> s_reminder_3d_sent_at s = None"

definition due_1d :: "datetime \<Rightarrow> subscription \<Rightarrow> bool" where
  "due_1d now s \<longleftrightarrow> s_status s = ''active'' \<and> now + hours 23 \<le> s_valid_until s
     \<and> s_valid_until s \<le> now + hours 25 \<and> s_reminder_1d_sent_at s = None"

definition remind :: "(string \<Rightarrow> int \<Rightarrow> string \<Rightarrow> bool) \<Rightarrow> user list \<Rightarrow> (subscription \<Rightarrow> bool) \<Rightarrow> string
    \<Rightarrow> (subscription \<Rightarrow> subscription) \<Rightarrow> subscription list \<Rightarrow> nat \<times> subscription list" where
  "remind send us due text mark subs =
     (let hit = (\<lambda>s. due s \<and> (case find_row u_id (s_user_id s) us of
                    None \<Rightarrow> False | Some u \<Rightarrow> send (s_id s) (u_tg_id u) text))
      in (length (filter hit subs), map (\<lambda>s. if hit s then mark s else s) subs))"

definition run_subscription_reminder_check ::
  "(string \<Rightarrow> int \<Rightarrow> string \<Rightarrow> bool) \<Rightarrow> datetime \<Rightarrow> db \<Rightarrow> (nat \<times> nat) \<times> db" where
  "run_subscription_reminder_check send now d =
     (let (n3, subs3) = remind send (users d) (due_3d now) ''Your secure tunnel expires soon.''
                          (\<lambda>s. s\<lparr>s_reminder_3d_sent_at := Some now\<rparr>) (subscriptions d);
          (n1, subs1) = remind send (users d) (due_1d now) ''Don't lose your secure route.''
                          (\<lambda>s. s\<lparr>s_reminder_1d_sent_at := Some now\<rparr>) subs3
      in ((n3, n1), d\<lparr>subscriptions := subs1\<rparr>))"

subsection \<open>What each operation leaves alone\<close>

lemma renew_keeps [simp]:
  "s_id (renew t n s) = s_id s" "s_user_id (renew t n s) = s_user_id s" "s_plan_id (renew t n s) = s_plan_id s"
  by (simp_all add: renew_def)

lemma extend_keeps [simp]:
  "s_id (extend t u n s) = s_id s" "s_user_id (extend t u n s) = s_user_id s"
  "s_plan_id (extend t u n s) = s_plan_id s" "s_status (extend t u n s) = s_status s"
  by (simp_all add: extend_def)

lemma log_funnel_frame [simp]:
  "users (log_funnel_event ty u p d) = users d" "plans (log_funnel_event ty u p d) = plans d"
  "subscriptions (log_funnel_event ty u p d) = subscriptions d"
  "payments (log_funnel_event ty u p d) = payments d"
  "payment_events (log_funnel_event ty u p d) = payment_events d"
  "referrals (log_funnel_event ty u p d) = referrals d"
  "promo_codes (log_funnel_event ty u p d) = promo_codes d"
  "promo_redemptions (log_funnel_event ty u p d) = promo_redemptions d"
  by (simp_all add: log_funnel_event_def)

lemma log_payment_frame [simp]:
  "users (log_payment_event i ty p d) = users d" "plans (log_payment_event i ty p d) = plans d"
  "subscriptions (log_payment_event i ty p d) = subscriptions d"
  "payments (log_payment_event i ty p d) = payments d"
  "referrals (log_payment_event i ty p d) = referrals d"
  "promo_codes (log_payment_event i ty p d) = promo_codes d"
  "promo_redemptions (log_payment_event i ty p d) = promo_redemptions d"
  "funnel_events (log_payment_event i ty p d) = funnel_events d"
  by (simp_all add: log_payment_event_def)

lemma apply_referral_frame [simp]:
  "users (apply_referral S clk u d) = users d" "plans (apply_referral S clk u d) = plans d"
  "payments (apply_referral S clk u d) = payments d"
  "promo_codes (apply_referral S clk u d) = promo_codes d"
  "promo_redemptions (apply_referral S clk u d) = promo_redemptions d"
  by (simp_all add: apply_referral_def Let_def split: option.split)

lemma apply_promo_frame [simp]:
  "users (apply_promo clk pay sid c d) = users d" "plans (apply_promo clk pay sid c d) = plans d"
  "payments (apply_promo clk pay sid c d) = payments d"
  "referrals (apply_promo clk pay sid c d) = referrals d"
  "promo_codes (apply_promo clk pay sid c d) = promo_codes d"
  by (simp_all add: apply_promo_def Let_def split: option.split)

text \<open>The state an effect can produce, in one elimination rule.\<close>

lemma effects_cases:
  assumes "apply_payment_success_effects S clk pay pl d = Inr d'"
  obtains (none) "d' = d"
  | (applied) sub plan code d3 where
      "first_row (\<lambda>s. s_id s = pay_subscription_id pay \<and> s_user_id s = pay_user_id pay) (subscriptions d) = Some sub"
      "find_row pl_id (s_plan_id sub) (plans d) = Some plan"
      "d3 = apply_referral S clk (pay_user_id pay)
          (log_funnel_event ''renewal'' (s_user_id sub) [(''subscription_id'', VStr (pay_subscription_id pay))]
            (log_funnel_event ''payment'' (s_user_id sub) [(''subscription_id'', VStr (pay_subscription_id pay))]
              (subscriptions_update (upd_row s_id (s_id sub) (renew (clk 0) (pl_duration_days plan))) d)))"
      "d' = (case code of None \<Rightarrow> d3 | Some c \<Rightarrow> apply_promo clk pay (s_id sub) c d3)"
proof (cases "first_row (\<lambda>s. s_id s = pay_subscription_id pay \<and> s_user_id s = pay_user_id pay) (subscriptions d)")
  case None
  with assms none show ?thesis by (simp add: apply_payment_success_effects_def)
next
  case (Some sub)
  note sub = Some
  show ?thesis
  proof (cases "find_row pl_id (s_plan_id sub) (plans d)")
    case None
    with assms sub none show ?thesis by (simp add: apply_payment_success_effects_def)
  next
    case (Some plan)
    from assms sub Some show ?thesis
      unfolding apply_payment_success_effects_def Let_def
      by (auto simp only: option.case rbind_Inr_iff sum.inject intro: applied[OF sub Some refl])
  qed
qed

lemma effects_frame:
  assumes "apply_payment_success_effects S clk pay pl d = Inr d'"
  shows "users d' = users d" "plans d' = plans d" "payments d' = payments d" "promo_codes d' = promo_codes d"
proof -
  from assms have "users d' = users d \<and> plans d' = plans d \<and> payments d' = payments d \<and> promo_codes d' = promo_codes d"
    by (cases rule: effects_cases) (auto split: option.splits)
  then show "users d' = users d" "plans d' = plans d" "payments d' = payments d" "promo_codes d' = promo_codes d"
    by blast+
qed

lemma insert_payment_Inr:
  "insert_payment p d = Inr d' \<longleftrightarrow>
     \<not> (length (pay_subscription_id p) > 32 \<or> length (pay_provider p) > 32 \<or> length (pay_status p) > 32
         \<or> length (pay_currency p) > 8 \<or> length (pay_external_id p) > 255
         \<or> \<bar>numeric_12_2 (pay_amount p)\<bar> \<ge> 10 ^ 10)
     \<and> pay_external_id p \<notin> pay_external_id ` set (payments d)
     \<and> pay_user_id p \<in> u_id ` set (users d) \<and> pay_subscription_id p \<in> s_id ` set (subscriptions d)
     \<and> d' = payments_update (add_row (p\<lparr>pay_amount := numeric_12_2 (pay_amount p)\<rparr>)) d"
  by (auto simp: insert_payment_def)

subsection \<open>Keys survive\<close>

lemma referral_keys [simp]:
  "map s_id (subscriptions (apply_referral S clk u d)) = map s_id (subscriptions d)"
  "map r_id (referrals (apply_referral S clk u d)) = map r_id (referrals d)"
  by (simp_all add: apply_referral_def Let_def map_upd_row split: option.split)

lemma promo_keys [simp]:
  "map s_id (subscriptions (apply_promo clk pay sid c d)) = map s_id (subscriptions d)"
  by (simp add: apply_promo_def Let_def map_upd_row split: option.split)

lemma effects_keys:
  assumes "apply_payment_success_effects S clk pay pl d = Inr d'"
  shows "map s_id (subscriptions d') = map s_id (subscriptions d)"
    and "map r_id (referrals d') = map r_id (referrals d)"
proof -
  from assms have "map s_id (subscriptions d') = map s_id (subscriptions d)
      \<and> map r_id (referrals d') = map r_id (referrals d)"
    by (cases rule: effects_cases) (auto simp: map_upd_row split: option.splits)
  then show "map s_id (subscriptions d') = map s_id (subscriptions d)"
    "map r_id (referrals d') = map r_id (referrals d)" by blast+
qed

definition redemption_key :: "promo_redemption \<Rightarrow> string \<times> int" where
  "redemption_key x = (pr_promo_code_id x, pr_user_id x)"

lemma promo_redemptions_unique:
  assumes "unique_on redemption_key (promo_redemptions d)"
  shows "unique_on redemption_key (promo_redemptions (apply_promo clk pay sid c d))"
proof (cases "first_row (\<lambda>c'. pc_code c' = c \<and> pc_status c' = ''active'') (promo_codes d)")
  case None
  with assms show ?thesis by (simp add: apply_promo_def)
next
  case (Some promo)
  show ?thesis
  proof (cases "first_row (\<lambda>x. pr_promo_code_id x = pc_id promo \<and> pr_user_id x = pay_user_id pay) (promo_redemptions d)")
    case None
    then have "(pc_id promo, pay_user_id pay) \<notin> redemption_key ` set (promo_redemptions d)"
      by (auto simp: first_row_None redemption_key_def)
    with assms Some None show ?thesis
      by (auto simp: apply_promo_def Let_def unique_on_def add_row_def redemption_key_def)
  next
    case (Some x)
    with assms \<open>first_row _ (promo_codes d) = Some promo\<close> show ?thesis
      by (simp add: apply_promo_def)
  qed
qed

lemma effects_redemptions:
  assumes "apply_payment_success_effects S clk pay pl d = Inr d'"
    and "unique_on redemption_key (promo_redemptions d)"
  shows "unique_on redemption_key (promo_redemptions d')"
  using assms(1)
proof (cases rule: effects_cases)
  case (applied sub plan code d3)
  then have "promo_redemptions d3 = promo_redemptions d" by simp
  with applied assms(2) show ?thesis by (auto split: option.splits intro: promo_redemptions_unique)
qed (use assms in simp)

subsection \<open>Outcomes of the webhook\<close>

lemma webhook_cases:
  assumes "process_payment_webhook S clk nid prov pl seen d = Inr ((pid, created), d')"
  obtains (repeat) pay where
      "find_row pay_external_id (py_str (webhook_external_id pl)) seen = Some pay"
      "pid = pay_id pay" "\<not> created" "d' = log_payment_event pid ''webhook_repeat'' pl d"
  | (fresh) pay d1 where
      "find_row pay_external_id (py_str (webhook_external_id pl)) seen = None"
      "pid = nid" created "pay_id pay = nid"
      "pay_external_id pay = py_str (webhook_external_id pl)"
      "insert_payment pay d = Inr d1"
      "(if pay_status pay = ''completed''
        then apply_payment_success_effects S clk pay (Some pl) (log_payment_event nid ''webhook_received'' pl d1) = Inr d'
        else d' = log_payment_event nid ''webhook_received'' pl d1)"
      "pay_status pay = take 32 (py_str (pget_default pl ''status'' (VStr ''completed'')))"
proof (cases "find_row pay_external_id (py_str (webhook_external_id pl)) seen")
  case None
  with assms obtain user_id amount d1 where
      "insert_payment (webhook_payment nid prov pl user_id amount) d = Inr d1"
      "(if pay_status (webhook_payment nid prov pl user_id amount) = ''completed''
        then apply_payment_success_effects S clk (webhook_payment nid prov pl user_id amount) (Some pl)
               (log_payment_event nid ''webhook_received'' pl d1) = Inr d'
        else d' = log_payment_event nid ''webhook_received'' pl d1)" "pid = nid" created
    by (auto simp: process_payment_webhook_def Let_def rbind_Inr_iff split: if_splits option.splits)
  then show ?thesis using None
    by (intro fresh[of "webhook_payment nid prov pl user_id amount" d1]) (simp_all add: webhook_payment_def)
next
  case (Some pay)
  with assms show ?thesis
    by (intro repeat[of pay]) (auto simp: process_payment_webhook_def Let_def split: if_splits)
qed

lemma webhook_payment_found:
  assumes "process_payment_webhook S clk nid prov pl (payments d) d = Inr ((pid, c), d')"
  shows "\<exists>pay. find_row pay_external_id (py_str (webhook_external_id pl)) (payments d') = Some pay
     \<and> pay_id pay = pid"
  using assms
proof (cases rule: webhook_cases)
  case (repeat pay)
  then show ?thesis by simp
next
  case (fresh pay d1)
  let ?p = "pay\<lparr>pay_amount := numeric_12_2 (pay_amount pay)\<rparr>"
  have "payments d' = add_row ?p (payments d)"
    using fresh effects_frame(3) by (auto simp: insert_payment_Inr split: if_splits)
  then show ?thesis using fresh by (simp add: add_row_def find_row_append)
qed

subsection \<open>The invariant of the billing tables\<close>

definition billing_ok :: "db \<Rightarrow> bool" where
  "billing_ok d \<longleftrightarrow> unique_on pay_id (payments d) \<and> unique_on pay_external_id (payments d)
     \<and> unique_on s_id (subscriptions d) \<and> unique_on r_id (referrals d)
     \<and> unique_on redemption_key (promo_redemptions d)
     \<and> (\<forall>p\<in>set (payments d). pay_user_id p \<in> u_id ` set (users d)
            \<and> pay_subscription_id p \<in> s_id ` set (subscriptions d))"

text \<open>
  One request or background run. The webhook may run on a state that other requests changed
  after its first query: \<open>seen\<close> is arbitrary.
\<close>

inductive billing_step :: "settings \<Rightarrow> db \<Rightarrow> db \<Rightarrow> bool" for S where
  webhook: "new_id \<notin> pay_id ` set (payments d) \<Longrightarrow>
     payment_webhook S clk new_id secret provider header raw_len body seen d = (resp, d') \<Longrightarrow>
     billing_step S d d'"
| bot_confirm: "complete_pending_payment_by_bot S clk pid tg charge d = Inr (b, d') \<Longrightarrow> billing_step S d d'"
| pause: "pause_subscription now sid uid reason d = (b, d') \<Longrightarrow> billing_step S d d'"
| resume: "resume_subscription sid uid d = (b, d') \<Longrightarrow> billing_step S d d'"
| reminders: "run_subscription_reminder_check send now d = (n, d') \<Longrightarrow> billing_step S d d'"

inductive_cases billing_stepE: "billing_step S d d'"

lemma set_ids_cong: "map g xs = map g ys \<Longrightarrow> g ` set xs = g ` set ys"
  by (metis set_map)

lemma effects_billing_ok [inv_intros]:
  assumes "apply_payment_success_effects S clk pay pl d = Inr d'" "billing_ok d"
  shows "billing_ok d'"
  using assms(2) effects_frame[OF assms(1)] effects_keys[OF assms(1)] effects_redemptions[OF assms(1)]
    set_ids_cong[OF effects_keys(1)[OF assms(1)]]
  by (simp add: billing_ok_def unique_on_def)

lemma log_payment_event_ok [simp]: "billing_ok (log_payment_event i ty pl d) = billing_ok d"
  by (simp add: billing_ok_def)

lemma insert_payment_ok [inv_intros]:
  assumes "insert_payment p d = Inr d'" "pay_id p \<notin> pay_id ` set (payments d)" "billing_ok d"
  shows "billing_ok d'"
  using assms by (auto simp: insert_payment_Inr billing_ok_def unique_on_def add_row_def)

lemma webhook_service_ok [inv_intros]:
  assumes "process_payment_webhook S clk nid prov pl seen d = Inr ((pid, c), d')"
    and "nid \<notin> pay_id ` set (payments d)" "billing_ok d"
  shows "billing_ok d'"
  using assms(1)
proof (cases rule: webhook_cases)
  case (repeat pay)
  with assms(3) show ?thesis by simp
next
  case (fresh pay d1)
  have "billing_ok d1" using insert_payment_ok[OF fresh(6)] fresh(4) assms(2,3) by simp
  with fresh(7) show ?thesis by (auto split: if_splits intro: effects_billing_ok)
qed

text \<open>A response either answers 200 after the service ran, or leaves the state as it was.\<close>

lemma payment_webhook_cases:
  assumes "payment_webhook S clk nid secret prov hdr len body seen d = (resp, d')"
  obtains (ran) pl pid c where "body = Some pl" "resp = Ok pid c"
      "process_payment_webhook S clk nid prov pl seen d = Inr ((pid, c), d')"
  | (refused) "d' = d"
  using assms unfolding payment_webhook_def
  by (auto split: if_splits option.splits sum.splits py_error.splits)

lemma bot_cases:
  assumes "complete_pending_payment_by_bot S clk pid tg ch d = Inr (b, d')"
  obtains (same) "d' = d"
  | (confirmed) pay pl where "find_row pay_id pid (payments d) = Some pay" "pay_status pay = ''pending''" b
      "apply_payment_success_effects S clk (pay\<lparr>pay_status := ''completed''\<rparr>) None
         (log_payment_event pid ''bot_confirm'' pl
           (payments_update (upd_row pay_id pid (\<lambda>p. p\<lparr>pay_status := ''completed''\<rparr>)) d)) = Inr d'"
  using assms unfolding complete_pending_payment_by_bot_def Let_def
  by (auto simp: rbind_Inr_iff split: if_splits option.splits)

lemma confirm_ok:
  assumes "billing_ok d"
  shows "billing_ok (payments_update (upd_row pay_id pid (\<lambda>p. p\<lparr>pay_status := st\<rparr>)) d)"
  using assms by (auto simp: billing_ok_def unique_on_def map_upd_row in_upd_row)

lemma bot_confirm_ok [inv_intros]:
  assumes "complete_pending_payment_by_bot S clk pid tg ch d = Inr (b, d')" "billing_ok d"
  shows "billing_ok d'"
  using assms(1)
proof (cases rule: bot_cases)
  case (confirmed pay pl)
  show ?thesis using effects_billing_ok[OF confirmed(4)] confirm_ok[OF assms(2)] by simp
qed (use assms in simp)

lemma subs_map_ok:
  assumes "billing_ok d" "map s_id subs = map s_id (subscriptions d)"
  shows "billing_ok (d\<lparr>subscriptions := subs\<rparr>)"
  using assms set_ids_cong[OF assms(2)] by (simp add: billing_ok_def unique_on_def)

lemma subs_update_ok:
  assumes "billing_ok d" "\<And>r. s_id (f r) = s_id r"
  shows "billing_ok (subscriptions_update (upd_row s_id k f) d)"
proof -
  have "subscriptions_update (upd_row s_id k f) d = d\<lparr>subscriptions := upd_row s_id k f (subscriptions d)\<rparr>"
    by simp
  with subs_map_ok[OF assms(1)] assms(2) show ?thesis by (simp only: map_upd_row)
qed

lemma remind_keys:
  assumes "remind send us due t mark subs = (n, subs')" "\<And>s. s_id (mark s) = s_id s"
  shows "map s_id subs' = map s_id subs"
  using assms by (auto simp: remind_def Let_def)

lemma reminders_ok [inv_intros]:
  assumes "run_subscription_reminder_check send now d = (n, d')" "billing_ok d"
  shows "billing_ok d'"
proof -
  obtain n3 subs3 where 3: "remind send (users d) (due_3d now) ''Your secure tunnel expires soon.''
      (\<lambda>s. s\<lparr>s_reminder_3d_sent_at := Some now\<rparr>) (subscriptions d) = (n3, subs3)" by fastforce
  obtain n1 subs1 where 1: "remind send (users d) (due_1d now) ''Don't lose your secure route.''
      (\<lambda>s. s\<lparr>s_reminder_1d_sent_at := Some now\<rparr>) subs3 = (n1, subs1)" by fastforce
  have "map s_id subs1 = map s_id (subscriptions d)"
    using remind_keys[OF 3] remind_keys[OF 1] by simp
  moreover have "d' = d\<lparr>subscriptions := subs1\<rparr>"
    using assms(1) by (simp add: run_subscription_reminder_check_def 3 1)
  ultimately show ?thesis using assms(2) subs_map_ok by blast
qed

lemma billing_step_ok: "billing_step S d d' \<Longrightarrow> billing_ok d \<Longrightarrow> billing_ok d'"
proof (induction rule: billing_step.induct)
  case (webhook new_id d clk secret provider header raw_len body seen resp d')
  from webhook(2) show ?case
    by (cases rule: payment_webhook_cases) (use webhook in \<open>auto intro: webhook_service_ok\<close>)
next
  case (pause now sid uid reason d b d')
  then show ?case by (auto simp: pause_subscription_def split: option.splits if_splits intro: subs_update_ok)
next
  case (resume sid uid d b d')
  then show ?case by (auto simp: resume_subscription_def split: option.splits intro: subs_update_ok)
qed (auto intro: inv_intros)


subsection \<open>Properties\<close>

text \<open>A small state on which the properties are evaluated: one user, one plan of 30 days, one subscription.\<close>

definition sample_sub :: subscription where
  "sample_sub = \<lparr>s_id = ''S1'', s_user_id = 1, s_plan_id = ''P1'', s_valid_from = 0,
     s_valid_until = days 5, s_device_limit = 2, s_status = ''active'', s_is_trial = False,
     s_trial_ends_at = None, s_paused_at = None, s_pause_reason = None,
     s_reminder_3d_sent_at = None, s_reminder_1d_sent_at = None\<rparr>"

definition sample_db :: db where
  "sample_db = empty_db\<lparr>users := [\<lparr>u_id = 1, u_tg_id = 100, u_is_banned = False\<rparr>],
     plans := [\<lparr>pl_id = ''P1'', pl_name = ''month'', pl_duration_days = 30, pl_price_amount = 5\<rparr>],
     subscriptions := [sample_sub]\<rparr>"

definition sample_payload :: payload where
  "sample_payload = [(''external_id'', VStr ''e1''), (''user_id'', VInt 1),
     (''subscription_id'', VStr ''S1''), (''amount'', VInt 5)]"

definition sample_payment :: payment where
  "sample_payment = webhook_payment ''PAY1'' ''mock'' sample_payload 1 5"

definition sample_paid_db :: db where
  "sample_paid_db = sample_db\<lparr>payments := [sample_payment],
     payment_events := [\<lparr>pe_payment_id = ''PAY1'', pe_event_type = ''webhook_received'', pe_payload = sample_payload\<rparr>],
     subscriptions := [sample_sub\<lparr>s_valid_until := days 35\<rparr>],
     funnel_events := [\<lparr>fe_user_id = 1, fe_event_type = ''payment'', fe_payload = [(''subscription_id'', VStr ''S1'')]\<rparr>,
                       \<lparr>fe_user_id = 1, fe_event_type = ''renewal'', fe_payload = [(''subscription_id'', VStr ''S1'')]\<rparr>]\<rparr>"

lemma sample_webhook:
  "process_payment_webhook default_settings (\<lambda>i. int i) ''PAY1'' ''mock'' sample_payload (payments sample_db) sample_db
     = Inr ((''PAY1'', True), sample_paid_db)"
  by code_simp

text \<open>C1. Replaying a webhook is idempotent: once a webhook was accepted, any later webhook that
  carries the same external id (any other field, provider, clock or fresh key) answers with the
  same payment id, says that nothing was created, and appends one \<^verbatim>\<open>webhook_repeat\<close> event and
  changes nothing else.\<close>

theorem webhook_replay_idempotent:
  assumes "process_payment_webhook S clk nid prov pl (payments d) d = Inr ((pid, created), d1)"
    and "webhook_external_id pl' = webhook_external_id pl"
  shows "process_payment_webhook S' clk' nid' prov' pl' (payments d1) d1
           = Inr ((pid, False), log_payment_event pid ''webhook_repeat'' pl' d1)"
proof -
  have "truthy (webhook_external_id pl)"
    using assms(1) by (simp add: process_payment_webhook_def split: if_splits)
  with webhook_payment_found[OF assms(1)] assms(2) show ?thesis
    by (auto simp: process_payment_webhook_def)
qed

theorem webhook_replay_idempotent_witness:
  "process_payment_webhook default_settings (\<lambda>i. days 1) ''PAY2'' ''telegram_stars''
       [(''payment_id'', VStr ''e1''), (''status'', VStr ''pending'')] (payments sample_paid_db) sample_paid_db
     = Inr ((''PAY1'', False), log_payment_event ''PAY1'' ''webhook_repeat''
         [(''payment_id'', VStr ''e1''), (''status'', VStr ''pending'')] sample_paid_db)"
  by (rule webhook_replay_idempotent[OF sample_webhook]) code_simp

definition payments_grow :: "db \<Rightarrow> db \<Rightarrow> bool" where
  "payments_grow d d' \<longleftrightarrow> (\<forall>p\<in>set (payments d). \<exists>p'\<in>set (payments d').
     p'\<lparr>pay_status := pay_status p\<rparr> = p \<and> (pay_status p = ''completed'' \<longrightarrow> pay_status p' = ''completed''))"

lemma payments_grow_eq: "set (payments d) \<subseteq> set (payments d') \<Longrightarrow> payments_grow d d'"
  unfolding payments_grow_def by (intro ballI) (rule bexI, auto)

lemma payments_grow_trans:
  assumes "payments_grow d1 d2" "payments_grow d2 d3"
  shows "payments_grow d1 d3"
  unfolding payments_grow_def
proof
  fix p assume "p \<in> set (payments d1)"
  with assms(1) obtain q where q: "q \<in> set (payments d2)" "q\<lparr>pay_status := pay_status p\<rparr> = p"
    "pay_status p = ''completed'' \<longrightarrow> pay_status q = ''completed''" by (auto simp: payments_grow_def)
  with assms(2) obtain r where r: "r \<in> set (payments d3)" "r\<lparr>pay_status := pay_status q\<rparr> = q"
    "pay_status q = ''completed'' \<longrightarrow> pay_status r = ''completed''" by (auto simp: payments_grow_def)
  have "r\<lparr>pay_status := pay_status p\<rparr> = p" using q(2) r(2) by (cases p; cases q; cases r; simp)
  with q(3) r(1,3) show "\<exists>p'\<in>set (payments d3). p'\<lparr>pay_status := pay_status p\<rparr> = p
      \<and> (pay_status p = ''completed'' \<longrightarrow> pay_status p' = ''completed'')" by blast
qed

lemma payments_grow_confirm:
  "payments_grow d (payments_update (upd_row pay_id pid (\<lambda>p. p\<lparr>pay_status := ''completed''\<rparr>)) d)"
  unfolding payments_grow_def
proof
  fix p assume "p \<in> set (payments d)"
  then show "\<exists>p'\<in>set (payments (payments_update (upd_row pay_id pid (\<lambda>p. p\<lparr>pay_status := ''completed''\<rparr>)) d)).
      p'\<lparr>pay_status := pay_status p\<rparr> = p \<and> (pay_status p = ''completed'' \<longrightarrow> pay_status p' = ''completed'')"
    by (intro bexI[of _ "if pay_id p = pid then p\<lparr>pay_status := ''completed''\<rparr> else p"]) (auto simp: set_upd_row)
qed

lemma webhook_payments:
  assumes "process_payment_webhook S clk nid prov pl seen d = Inr ((pid, c), d')"
  shows "set (payments d) \<subseteq> set (payments d')"
  using assms
proof (cases rule: webhook_cases)
  case (fresh pay d1)
  then show ?thesis using effects_frame(3) by (auto simp: insert_payment_Inr split: if_splits)
qed simp

lemma bot_payments:
  assumes "complete_pending_payment_by_bot S clk pid tg ch d = Inr (b, d')"
  shows "payments_grow d d'"
  using assms
proof (cases rule: bot_cases)
  case (confirmed pay pl)
  show ?thesis using payments_grow_confirm[of d pid] effects_frame(3)[OF confirmed(4)]
    by (simp add: payments_grow_def)
qed (simp add: payments_grow_eq)

lemma billing_step_payments: "billing_step S d d' \<Longrightarrow> payments_grow d d'"
proof (induction rule: billing_step.induct)
  case (webhook new_id d clk secret provider header raw_len body seen resp d')
  from webhook(2) show ?case
    by (cases rule: payment_webhook_cases) (auto intro: payments_grow_eq dest: webhook_payments)
next
  case (pause now sid uid reason d b d')
  then have "payments d' = payments d" by (auto simp: pause_subscription_def split: option.splits if_splits)
  then show ?case by (simp add: payments_grow_eq)
next
  case (resume sid uid d b d')
  then have "payments d' = payments d" by (auto simp: resume_subscription_def split: option.splits)
  then show ?case by (simp add: payments_grow_eq)
next
  case (reminders send now d n d')
  then have "payments d' = payments d" by (auto simp: run_subscription_reminder_check_def split: prod.splits)
  then show ?case by (simp add: payments_grow_eq)
qed (rule bot_payments)

interpretation billing_run: invariant_system "\<lambda>d. d = d0 \<and> billing_ok d0" "billing_step S"
    "\<lambda>d. billing_ok d \<and> payments_grow d0 d" for S d0
  by unfold_locales (auto intro: billing_step_ok payments_grow_eq payments_grow_trans billing_step_payments)

lemma payment_webhook_ran:
  assumes "payment_webhook S clk nid secret prov hdr len (Some pl) seen d = (resp, d')"
    and "process_payment_webhook S clk nid prov pl seen d = Inr ((pid, c), d2)"
  shows "resp = Ok pid c \<and> d' = d2 \<or> d' = d \<and> (\<exists>k m. resp = HttpError k m)"
  using assms by (auto simp: payment_webhook_def split: if_splits)

lemma payment_webhook_failed:
  assumes "payment_webhook S clk nid secret prov hdr len (Some pl) seen d = (resp, d')"
    and "process_payment_webhook S clk nid prov pl seen d = Inl e"
  shows "d' = d \<and> (\<forall>pid c. resp = Ok pid c \<longrightarrow> \<not> c \<and>
     (\<exists>p. find_row pay_external_id (py_str (webhook_external_id pl)) (payments d) = Some p \<and> pid = pay_id p))"
proof (cases "external_id_from_payload pl")
  case None
  with assms show ?thesis by (cases e) (auto simp: payment_webhook_def split: if_splits)
next
  case (Some x)
  then have "x = py_str (webhook_external_id pl)"
    by (auto simp: external_id_from_payload_def split: pyval.splits)
  with assms Some show ?thesis by (cases e) (auto simp: payment_webhook_def split: if_splits option.splits)
qed

text \<open>C2. Concurrent duplicates are safe: when a payment with the external id is already committed,
  the handler changes nothing but the event log, whatever older table of payments its first query
  saw, and an answer 200 carries the id of that payment and says that nothing was created.\<close>

theorem webhook_race_safe:
  assumes "billing_ok d" "set seen \<subseteq> set (payments d)"
    and "find_row pay_external_id (py_str (webhook_external_id pl)) (payments d) = Some pay"
    and "payment_webhook S clk nid secret prov hdr len (Some pl) seen d = (resp, d')"
  shows "(\<exists>evs. d' = payment_events_update (\<lambda>es. es @ evs) d)
     \<and> (case resp of Ok pid c \<Rightarrow> pid = pay_id pay \<and> \<not> c | HttpError _ _ \<Rightarrow> d' = d)"
proof -
  have same: "q = pay" if "find_row pay_external_id (py_str (webhook_external_id pl)) seen = Some q" for q
    using find_row_Some[OF that] find_row_unique[of pay_external_id "payments d" q] assms(1-3)
    by (auto simp: billing_ok_def)
  have no_insert: "insert_payment p d \<noteq> Inr d1"
    if "pay_external_id p = py_str (webhook_external_id pl)" for p d1
    using that find_row_Some[OF assms(3)] imageI[of pay "set (payments d)" pay_external_id]
    by (simp add: insert_payment_Inr)
  have no_events: "\<exists>evs. d = payment_events_update (\<lambda>es. es @ evs) d" by (rule exI[of _ "[]"]) simp
  show ?thesis
  proof (cases "process_payment_webhook S clk nid prov pl seen d")
    case (Inr r)
    then obtain pid c d2 where r: "process_payment_webhook S clk nid prov pl seen d = Inr ((pid, c), d2)"
      by (metis prod.exhaust)
    then have "pid = pay_id pay \<and> \<not> c \<and> (\<exists>evs. d2 = payment_events_update (\<lambda>es. es @ evs) d)"
    proof (cases rule: webhook_cases)
      case (repeat q)
      then have "d2 = payment_events_update (\<lambda>es. es @ [\<lparr>pe_payment_id = pid, pe_event_type = ''webhook_repeat'', pe_payload = pl\<rparr>]) d"
        by (simp add: log_payment_event_def add_row_def)
      with repeat same show ?thesis by blast
    qed (use no_insert in blast)
    moreover from payment_webhook_ran[OF assms(4) r] have "resp = Ok pid c \<and> d' = d2 \<or> d' = d \<and> (\<exists>k m. resp = HttpError k m)" .
    ultimately show ?thesis using no_events by (auto split: response.split)
  next
    case (Inl e)
    from payment_webhook_failed[OF assms(4) Inl] have d': "d' = d" and
      ok: "\<And>pid c. resp = Ok pid c \<Longrightarrow> \<not> c \<and> (\<exists>p. find_row pay_external_id (py_str (webhook_external_id pl)) (payments d) = Some p \<and> pid = pay_id p)"
      by blast+
    then show ?thesis using no_events assms(3) by (auto split: response.split)
  qed
qed

theorem webhook_race_safe_witness:
  "(\<exists>evs. snd (payment_webhook default_settings (\<lambda>i. int i) ''PAY2'' [] ''mock'' None 90 (Some sample_payload) [] sample_paid_db)
       = payment_events_update (\<lambda>es. es @ evs) sample_paid_db)
   \<and> fst (payment_webhook default_settings (\<lambda>i. int i) ''PAY2'' [] ''mock'' None 90 (Some sample_payload) [] sample_paid_db)
       = Ok ''PAY1'' False"
proof -
  have run: "payment_webhook default_settings (\<lambda>i. int i) ''PAY2'' [] ''mock'' None 90 (Some sample_payload) [] sample_paid_db
      = (Ok ''PAY1'' False, sample_paid_db)" by code_simp
  have "billing_ok sample_paid_db" "set [] \<subseteq> set (payments sample_paid_db)"
    "find_row pay_external_id (py_str (webhook_external_id sample_payload)) (payments sample_paid_db) = Some sample_payment"
    by code_simp+
  from webhook_race_safe[OF this run] run show ?thesis by simp
qed



text \<open>C4. Confirmation by the bot is idempotent: after a confirmation succeeded, a second one for
  the same payment and user succeeds again and changes nothing, so that the subscription is
  extended once.\<close>

theorem bot_confirm_idempotent:
  assumes "complete_pending_payment_by_bot S clk pid tg charge d = Inr (True, d')"
  shows "complete_pending_payment_by_bot S' clk' pid tg charge' d' = Inr (True, d')"
proof -
  obtain pay u where pay: "find_row pay_id pid (payments d) = Some pay"
    and u: "find_row u_id (pay_user_id pay) (users d) = Some u" "u_tg_id u = tg"
    using assms by (auto simp: complete_pending_payment_by_bot_def split: option.splits if_splits)
  show ?thesis
  proof (cases "pay_status pay = ''completed''")
    case True
    with assms pay u have "d' = d" by (simp add: complete_pending_payment_by_bot_def)
    with True pay u show ?thesis by (simp add: complete_pending_payment_by_bot_def)
  next
    case False
    with assms pay u obtain d2 where d2: "apply_payment_success_effects S clk (pay\<lparr>pay_status := ''completed''\<rparr>) None d2 = Inr d'"
      "payments d2 = upd_row pay_id pid (\<lambda>p. p\<lparr>pay_status := ''completed''\<rparr>) (payments d)" "users d2 = users d"
      by (auto simp: complete_pending_payment_by_bot_def Let_def rbind_Inr_iff split: if_splits)
    have "find_row pay_id pid (payments d') = Some (pay\<lparr>pay_status := ''completed''\<rparr>)"
      using effects_frame(3)[OF d2(1)] d2(2) pay by (simp add: find_row_upd_same)
    moreover have "users d' = users d" using effects_frame(1)[OF d2(1)] d2(3) by simp
    ultimately show ?thesis using u by (simp add: complete_pending_payment_by_bot_def)
  qed
qed

definition sample_pending_db :: db where
  "sample_pending_db = sample_db\<lparr>payments := [sample_payment\<lparr>pay_status := ''pending''\<rparr>]\<rparr>"

theorem bot_confirm_idempotent_witness:
  "case complete_pending_payment_by_bot default_settings (\<lambda>i. int i) ''PAY1'' 100 None sample_pending_db of
     Inl e \<Rightarrow> False
   | Inr (b, d) \<Rightarrow> b \<and> s_valid_until (hd (subscriptions d)) = days 35
       \<and> complete_pending_payment_by_bot default_settings (\<lambda>i. days 1) ''PAY1'' 100 None d = Inr (True, d)"
proof -
  obtain d where d: "complete_pending_payment_by_bot default_settings (\<lambda>i. int i) ''PAY1'' 100 None sample_pending_db = Inr (True, d)"
    "s_valid_until (hd (subscriptions d)) = days 35"
  proof -
    have "case complete_pending_payment_by_bot default_settings (\<lambda>i. int i) ''PAY1'' 100 None sample_pending_db of
       Inl e \<Rightarrow> False | Inr (b, d) \<Rightarrow> b \<and> s_valid_until (hd (subscriptions d)) = days 35" by code_simp
    then show ?thesis using that by (auto split: sum.splits prod.splits)
  qed
  with bot_confirm_idempotent[OF d(1)] show ?thesis by simp
qed

text \<open>C5. What a completed payment buys: with no reward due to a referrer and no promo code, the
  subscription that was paid for becomes active until the plan's days after the later of now and
  its old end (after now when it was not active), and every other row is as before.\<close>

theorem payment_extends_subscription:
  assumes "billing_ok d" "sub \<in> set (subscriptions d)" "s_id sub = pay_subscription_id pay"
    "s_user_id sub = pay_user_id pay" "find_row pl_id (s_plan_id sub) (plans d) = Some plan"
    and "promo_code_str (effects_payload pay pl) = Inr None"
    and "\<forall>r\<in>set (referrals d). r_referee_user_id r = pay_user_id pay \<longrightarrow> r_reward_applied_at r \<noteq> None"
  shows "\<exists>d'. apply_payment_success_effects S clk pay pl d = Inr d'
     \<and> find_row s_id (pay_subscription_id pay) (subscriptions d') = Some (sub\<lparr>s_status := ''active'',
          s_valid_from := (if s_status sub = ''active'' then s_valid_from sub else clk 0),
          s_valid_until := (if s_status sub = ''active'' then max (s_valid_until sub) (clk 0) else clk 0)
             + days (pl_duration_days plan)\<rparr>)
     \<and> (\<forall>k. k \<noteq> pay_subscription_id pay \<longrightarrow> find_row s_id k (subscriptions d') = find_row s_id k (subscriptions d))
     \<and> payments d' = payments d \<and> referrals d' = referrals d \<and> promo_redemptions d' = promo_redemptions d"
proof -
  have found: "find_row s_id (pay_subscription_id pay) (subscriptions d) = Some sub"
    using find_row_unique[of s_id "subscriptions d" sub] assms(1-3) by (simp add: billing_ok_def)
  have query: "first_row (\<lambda>s. s_id s = pay_subscription_id pay \<and> s_user_id s = pay_user_id pay) (subscriptions d) = Some sub"
    by (rule first_row_unique[where key = s_id]) (use assms in \<open>auto simp: billing_ok_def\<close>)
  have referral: "apply_referral S clk (pay_user_id pay) x = x" if "referrals x = referrals d" for x
  proof -
    have "first_row (\<lambda>r. r_referee_user_id r = pay_user_id pay \<and> r_reward_applied_at r = None) (referrals x) = None"
      using assms(7) that by (auto simp: first_row_None)
    then show ?thesis by (simp add: apply_referral_def)
  qed
  have renewed: "renew (clk 0) n sub = sub\<lparr>s_status := ''active'',
          s_valid_from := (if s_status sub = ''active'' then s_valid_from sub else clk 0),
          s_valid_until := (if s_status sub = ''active'' then max (s_valid_until sub) (clk 0) else clk 0) + days n\<rparr>" for n
    by (cases sub) (auto simp: renew_def max_def)
  show ?thesis
    using assms(3,5,6) query found
    by (simp add: apply_payment_success_effects_def referral Let_def renewed find_row_upd_same find_row_upd_other)
qed

theorem payment_extends_subscription_witness:
  "\<exists>d'. apply_payment_success_effects default_settings (\<lambda>i. days 2) sample_payment None sample_db = Inr d'
     \<and> find_row s_id ''S1'' (subscriptions d') = Some (sample_sub\<lparr>s_valid_until := days 35\<rparr>)"
proof -
  have h: "billing_ok sample_db" "sample_sub \<in> set (subscriptions sample_db)"
    "s_id sample_sub = pay_subscription_id sample_payment" "s_user_id sample_sub = pay_user_id sample_payment"
    "find_row pl_id (s_plan_id sample_sub) (plans sample_db) = Some (hd (plans sample_db))"
    "promo_code_str (effects_payload sample_payment None) = Inr None"
    "\<forall>r\<in>set (referrals sample_db). r_referee_user_id r = pay_user_id sample_payment \<longrightarrow> r_reward_applied_at r \<noteq> None"
    by code_simp+
  have "pay_subscription_id sample_payment = ''S1''" "sample_sub\<lparr>s_status := ''active'',
        s_valid_from := (if s_status sample_sub = ''active'' then s_valid_from sample_sub else days 2),
        s_valid_until := (if s_status sample_sub = ''active'' then max (s_valid_until sample_sub) (days 2) else days 2)
           + days (pl_duration_days (hd (plans sample_db)))\<rparr> = sample_sub\<lparr>s_valid_until := days 35\<rparr>"
    by code_simp+
  with payment_extends_subscription[OF h, of default_settings "\<lambda>i. days 2"] show ?thesis by auto
qed

text \<open>Entitlement never shrinks: the order on tables of subscriptions behind it.\<close>

definition no_shorter :: "subscription list \<Rightarrow> subscription list \<Rightarrow> bool" where
  "no_shorter xs ys \<longleftrightarrow> list_all2 (\<lambda>s t. s_id t = s_id s \<and> s_user_id t = s_user_id s
     \<and> (s_status s = ''active'' \<longrightarrow> s_status t = ''active'' \<and> s_valid_until s \<le> s_valid_until t)) xs ys"

lemma no_shorter_refl [simp]: "no_shorter xs xs"
  by (simp add: no_shorter_def list_all2_refl)

lemma no_shorter_trans: "no_shorter xs ys \<Longrightarrow> no_shorter ys zs \<Longrightarrow> no_shorter xs zs"
  unfolding no_shorter_def by (erule list_all2_trans[rotated], assumption) auto

lemma no_shorter_from: "no_shorter xs ys \<Longrightarrow> xs = xs' \<Longrightarrow> no_shorter xs' ys"
  by simp

lemma no_shorter_upd:
  assumes "\<And>s. s_id (f s) = s_id s" "\<And>s. s_user_id (f s) = s_user_id s"
    and "\<And>s. s_status s = ''active'' \<Longrightarrow> s_status (f s) = ''active'' \<and> s_valid_until s \<le> s_valid_until (f s)"
  shows "no_shorter xs (upd_row s_id k f xs)"
  using assms by (induction xs) (auto simp: no_shorter_def upd_row_def)

lemma no_shorter_renew: "0 \<le> n \<Longrightarrow> no_shorter xs (upd_row s_id k (renew t n) xs)"
  by (rule no_shorter_upd) (auto simp: renew_def dest: days_nonneg)

lemma no_shorter_extend: "0 \<le> n \<Longrightarrow> t1 \<le> t2 \<Longrightarrow> no_shorter xs (upd_row s_id k (extend t1 t2 n) xs)"
  by (rule no_shorter_upd) (auto simp: extend_def dest: days_nonneg)

lemma no_shorter_referral:
  assumes "clk 1 \<le> clk 2" "\<forall>r\<in>set (referrals d). 0 \<le> r_reward_days r" "0 \<le> referral_reward_bonus_days S"
  shows "no_shorter (subscriptions d) (subscriptions (apply_referral S clk u d))"
proof -
  have "0 \<le> r_reward_days ref" if "first_row P (referrals d) = Some ref" for P ref
    using first_row_Some[OF that] assms(2) by blast
  then show ?thesis using assms(1,3)
    by (auto simp: apply_referral_def Let_def no_shorter_extend split: option.split)
qed

lemma no_shorter_promo:
  assumes "clk 4 \<le> clk 5" "\<forall>c\<in>set (promo_codes d). 0 \<le> pc_value c"
  shows "no_shorter (subscriptions d) (subscriptions (apply_promo clk pay sid c d))"
proof -
  have "0 \<le> int_of_float (pc_value p)" if "first_row P (promo_codes d) = Some p" for P p
    using first_row_Some[OF that] assms(2) by (simp add: int_of_float_nonneg)
  then show ?thesis using assms(1)
    by (auto simp: apply_promo_def Let_def no_shorter_extend split: option.split)
qed

text \<open>C6. Paid time is never taken away: when durations and bonuses are not negative and the clock
  does not run backwards, the effects of a payment keep every subscription, keep active ones
  active and never move an active one's end to an earlier time, for the payer, the referrer and
  everybody else.\<close>

theorem payment_never_shortens:
  assumes "apply_payment_success_effects S clk pay pl d = Inr d'"
    and "clk 1 \<le> clk 2" "clk 4 \<le> clk 5"
    and "\<forall>p\<in>set (plans d). 0 \<le> pl_duration_days p" "\<forall>r\<in>set (referrals d). 0 \<le> r_reward_days r"
    and "0 \<le> referral_reward_bonus_days S" "\<forall>c\<in>set (promo_codes d). 0 \<le> pc_value c"
  shows "list_all2 (\<lambda>s t. s_id t = s_id s \<and> s_user_id t = s_user_id s
     \<and> (s_status s = ''active'' \<longrightarrow> s_status t = ''active'' \<and> s_valid_until s \<le> s_valid_until t))
     (subscriptions d) (subscriptions d')"
  using assms(1)
proof (cases rule: effects_cases)
  case (applied sub plan code d3)
  have "0 \<le> pl_duration_days plan" using find_row_Some[OF applied(2)] assms(4) by blast
  then have "no_shorter (subscriptions d) (upd_row s_id (s_id sub) (renew (clk 0) (pl_duration_days plan)) (subscriptions d))"
    by (rule no_shorter_renew)
  moreover have "no_shorter (upd_row s_id (s_id sub) (renew (clk 0) (pl_duration_days plan)) (subscriptions d)) (subscriptions d3)"
    unfolding applied(3) using assms(2,5,6) by (intro no_shorter_referral[THEN no_shorter_from]) simp_all
  ultimately have "no_shorter (subscriptions d) (subscriptions d3)" by (rule no_shorter_trans)
  moreover have "no_shorter (subscriptions d3) (subscriptions d')"
    unfolding applied(4) using assms(3,7) no_shorter_promo[of clk d3]
    by (auto simp: applied(3) split: option.split)
  ultimately show ?thesis unfolding no_shorter_def[symmetric] by (rule no_shorter_trans)
qed (simp add: list_all2_refl)

theorem payment_never_shortens_witness:
  "list_all2 (\<lambda>s t. s_id t = s_id s \<and> s_user_id t = s_user_id s
     \<and> (s_status s = ''active'' \<longrightarrow> s_status t = ''active'' \<and> s_valid_until s \<le> s_valid_until t))
     [sample_sub] [sample_sub\<lparr>s_valid_until := days 35\<rparr>]"
proof -
  have run: "apply_payment_success_effects default_settings (\<lambda>i. int i) sample_payment None sample_db
      = Inr (sample_paid_db\<lparr>payments := [], payment_events := []\<rparr>)" by code_simp
  have h: "(\<lambda>i. int i) 1 \<le> (\<lambda>i. int i) 2" "(\<lambda>i. int i) 4 \<le> (\<lambda>i. int i) 5"
    "\<forall>p\<in>set (plans sample_db). 0 \<le> pl_duration_days p" "\<forall>r\<in>set (referrals sample_db). 0 \<le> r_reward_days r"
    "0 \<le> referral_reward_bonus_days default_settings" "\<forall>c\<in>set (promo_codes sample_db). 0 \<le> pc_value c"
    by code_simp+
  have "subscriptions sample_db = [sample_sub]" "subscriptions sample_paid_db = [sample_sub\<lparr>s_valid_until := days 35\<rparr>]"
    by code_simp+
  with payment_never_shortens[OF run h] show ?thesis by simp
qed

text \<open>C7. A referral is rewarded at most once: a row that was rewarded is never touched again, and
  a run that changes the state at all turns exactly one unrewarded row of this referee into a
  rewarded one.\<close>

theorem referral_rewarded_once:
  assumes "unique_on r_id (referrals d)" "apply_referral S clk uid d \<noteq> d"
  shows "(\<forall>r\<in>set (referrals d). r_reward_applied_at r \<noteq> None \<longrightarrow> r \<in> set (referrals (apply_referral S clk uid d)))
     \<and> (\<exists>ref\<in>set (referrals d). r_referee_user_id ref = uid \<and> r_reward_applied_at ref = None
          \<and> filter (\<lambda>r. r_reward_applied_at r = None) (referrals (apply_referral S clk uid d))
            = filter (\<lambda>r. r_reward_applied_at r = None \<and> r \<noteq> ref) (referrals d))"
proof -
  obtain ref where ref: "first_row (\<lambda>r. r_referee_user_id r = uid \<and> r_reward_applied_at r = None) (referrals d) = Some ref"
    using assms(2) by (auto simp: apply_referral_def split: option.splits)
  have refs: "referrals (apply_referral S clk uid d) = upd_row r_id (r_id ref)
      (\<lambda>r. r\<lparr>r_reward_applied_at := Some (clk 3), r_status := ''rewarded''\<rparr>) (referrals d)"
    using assms(2) ref by (auto simp: apply_referral_def Let_def split: option.splits if_splits)
  note ref' = first_row_Some[OF ref]
  have key: "r_id r = r_id ref \<longleftrightarrow> r = ref" if "r \<in> set (referrals d)" for r
    using unique_on_key[OF assms(1) that] ref' by blast
  have "filter (\<lambda>r. r_reward_applied_at r = None) (upd_row r_id (r_id ref)
      (\<lambda>r. r\<lparr>r_reward_applied_at := Some (clk 3), r_status := ''rewarded''\<rparr>) rs)
      = filter (\<lambda>r. r_reward_applied_at r = None \<and> r \<noteq> ref) rs" if "set rs \<subseteq> set (referrals d)" for rs
    using that by (induction rs) (auto simp: upd_row_def key)
  then show ?thesis using ref' refs key by (auto simp: in_upd_row)
qed

definition sample_referral :: referral where
  "sample_referral = \<lparr>r_id = ''R1'', r_referrer_user_id = 1, r_referee_user_id = 2, r_status = ''pending'',
     r_reward_days = 7, r_reward_applied_at = None\<rparr>"

theorem referral_rewarded_once_witness:
  "let d = sample_db\<lparr>referrals := [sample_referral]\<rparr> in
   \<exists>ref\<in>set (referrals d). r_referee_user_id ref = 2 \<and> r_reward_applied_at ref = None
     \<and> filter (\<lambda>r. r_reward_applied_at r = None) (referrals (apply_referral default_settings (\<lambda>i. int i) 2 d))
       = filter (\<lambda>r. r_reward_applied_at r = None \<and> r \<noteq> ref) (referrals d)"
proof -
  have "unique_on r_id (referrals (sample_db\<lparr>referrals := [sample_referral]\<rparr>))" by code_simp
  moreover have "apply_referral default_settings (\<lambda>i. int i) 2 (sample_db\<lparr>referrals := [sample_referral]\<rparr>)
      \<noteq> sample_db\<lparr>referrals := [sample_referral]\<rparr>" by code_simp
  ultimately show ?thesis unfolding Let_def by (rule referral_rewarded_once[THEN conjunct2])
qed

text \<open>C8. A promo code is redeemed once per user: after a payment was processed with a code, a
  second payment of the same user with the same code, for any subscription and at any time,
  changes nothing.\<close>

theorem promo_applied_once:
  assumes "pay_user_id pay' = pay_user_id pay"
  shows "apply_promo clk' pay' sid' code (apply_promo clk pay sid code d) = apply_promo clk pay sid code d"
proof (cases "first_row (\<lambda>c. pc_code c = code \<and> pc_status c = ''active'') (promo_codes d)")
  case None
  then show ?thesis by (simp add: apply_promo_def)
next
  case (Some promo)
  let ?d = "apply_promo clk pay sid code d"
  have "first_row (\<lambda>x. pr_promo_code_id x = pc_id promo \<and> pr_user_id x = pay_user_id pay) (promo_redemptions ?d) \<noteq> None"
    using Some by (auto simp: apply_promo_def Let_def first_row_None)
  with Some assms show ?thesis by (simp add: apply_promo_def[of clk'])
qed

definition sample_promo_db :: db where
  "sample_promo_db = sample_db\<lparr>promo_codes := [\<lparr>pc_id = ''C1'', pc_code = ''PLUS7'', pc_type = ''bonus_days'',
     pc_value = 7, pc_status = ''active''\<rparr>]\<rparr>"

theorem promo_applied_once_witness:
  "apply_promo (\<lambda>i. days 9) (sample_payment\<lparr>pay_id := ''PAY2''\<rparr>) ''S1'' ''PLUS7''
       (apply_promo (\<lambda>i. int i) sample_payment ''S1'' ''PLUS7'' sample_promo_db)
     = apply_promo (\<lambda>i. int i) sample_payment ''S1'' ''PLUS7'' sample_promo_db
   \<and> map s_valid_until (subscriptions (apply_promo (\<lambda>i. int i) sample_payment ''S1'' ''PLUS7'' sample_promo_db)) = [days 12]"
proof -
  have "map s_valid_until (subscriptions (apply_promo (\<lambda>i. int i) sample_payment ''S1'' ''PLUS7'' sample_promo_db)) = [days 12]"
    by code_simp
  moreover have "pay_user_id (sample_payment\<lparr>pay_id := ''PAY2''\<rparr>) = pay_user_id sample_payment" by simp
  ultimately show ?thesis using promo_applied_once by blast
qed

lemma remind_again:
  assumes "remind send us due t mark subs = (n, subs')"
    and "\<And>s. s_id (mark s) = s_id s \<and> s_user_id (mark s) = s_user_id s"
    and "\<And>s. \<not> due (mark s)"
  shows "remind send us due t mark subs' = (0, subs')"
  using assms by (auto simp: remind_def Let_def filter_empty_conv split: option.splits)

lemma remind_other:
  assumes "\<And>s. s_id (mark s) = s_id s \<and> s_user_id (mark s) = s_user_id s"
    and "\<And>s. due (mark s) \<longleftrightarrow> due s" "remind send us due t mk subs = (0, subs)"
  shows "remind send us due t mk (map (\<lambda>s. if P s then mark s else s) subs)
     = (0, map (\<lambda>s. if P s then mark s else s) subs)"
proof -
  have "\<not> (due s \<and> (case find_row u_id (s_user_id s) us of None \<Rightarrow> False | Some u \<Rightarrow> send (s_id s) (u_tg_id u) t))"
    if "s \<in> set subs" for s
    using assms(3) that by (auto simp: remind_def Let_def filter_empty_conv)
  then show ?thesis using assms(1,2)
    by (auto simp: remind_def Let_def filter_empty_conv cong: option.case_cong)
qed

lemma remind_map: "snd (remind send us due t mark subs)
    = map (\<lambda>s. if due s \<and> (case find_row u_id (s_user_id s) us of None \<Rightarrow> False | Some u \<Rightarrow> send (s_id s) (u_tg_id u) t)
                then mark s else s) subs"
  by (simp add: remind_def Let_def)

text \<open>C9. A reminder that was delivered is not sent again: running the check again at the same time,
  with the same deliveries succeeding, sends nothing and changes nothing; and over any run each
  mark that was set stays as it is.\<close>

theorem reminders_sent_once:
  assumes "run_subscription_reminder_check send now d = (n, d')"
  shows "run_subscription_reminder_check send now d' = ((0, 0), d')
     \<and> (\<forall>s\<in>set (subscriptions d). \<exists>s'\<in>set (subscriptions d'). s_id s' = s_id s
          \<and> (s_reminder_3d_sent_at s \<noteq> None \<longrightarrow> s_reminder_3d_sent_at s' = s_reminder_3d_sent_at s)
          \<and> (s_reminder_1d_sent_at s \<noteq> None \<longrightarrow> s_reminder_1d_sent_at s' = s_reminder_1d_sent_at s))"
proof -
  let ?m3 = "\<lambda>s. s\<lparr>s_reminder_3d_sent_at := Some now\<rparr>" and ?m1 = "\<lambda>s. s\<lparr>s_reminder_1d_sent_at := Some now\<rparr>"
  let ?t3 = "''Your secure tunnel expires soon.''" and ?t1 = "''Don't lose your secure route.''"
  obtain n3 subs3 where 3: "remind send (users d) (due_3d now) ?t3 ?m3 (subscriptions d) = (n3, subs3)" by fastforce
  obtain n1 subs1 where 1: "remind send (users d) (due_1d now) ?t1 ?m1 subs3 = (n1, subs1)" by fastforce
  have d': "d' = d\<lparr>subscriptions := subs1\<rparr>" using assms by (simp add: run_subscription_reminder_check_def 3 1)
  have "remind send (users d) (due_3d now) ?t3 ?m3 subs3 = (0, subs3)"
    by (rule remind_again[OF 3]) (simp_all add: due_3d_def)
  moreover have "subs1 = map (\<lambda>s. if due_1d now s \<and> (case find_row u_id (s_user_id s) (users d) of None \<Rightarrow> False
      | Some u \<Rightarrow> send (s_id s) (u_tg_id u) ?t1) then ?m1 s else s) subs3"
    using remind_map[of send "users d" "due_1d now" ?t1 ?m1 subs3] 1 by simp
  ultimately have again3: "remind send (users d) (due_3d now) ?t3 ?m3 subs1 = (0, subs1)"
    by (simp only:) (rule remind_other; simp add: due_3d_def)
  have again1: "remind send (users d) (due_1d now) ?t1 ?m1 subs1 = (0, subs1)"
    by (rule remind_again[OF 1]) (simp_all add: due_1d_def)
  have marks: "\<exists>s'\<in>set subs1. s_id s' = s_id s
      \<and> (s_reminder_3d_sent_at s \<noteq> None \<longrightarrow> s_reminder_3d_sent_at s' = s_reminder_3d_sent_at s)
      \<and> (s_reminder_1d_sent_at s \<noteq> None \<longrightarrow> s_reminder_1d_sent_at s' = s_reminder_1d_sent_at s)"
    if s: "s \<in> set (subscriptions d)" for s
  proof -
    let ?s3 = "if due_3d now s \<and> (case find_row u_id (s_user_id s) (users d) of None \<Rightarrow> False
        | Some u \<Rightarrow> send (s_id s) (u_tg_id u) ?t3) then ?m3 s else s"
    let ?s1 = "if due_1d now ?s3 \<and> (case find_row u_id (s_user_id ?s3) (users d) of None \<Rightarrow> False
        | Some u \<Rightarrow> send (s_id ?s3) (u_tg_id u) ?t1) then ?m1 ?s3 else ?s3"
    have "?s3 \<in> set subs3"
      using s remind_map[of send "users d" "due_3d now" ?t3 ?m3 "subscriptions d"] 3 by (auto simp only: snd_conv set_map)
    then have "?s1 \<in> set subs1"
      using remind_map[of send "users d" "due_1d now" ?t1 ?m1 subs3] 1 by (simp only: snd_conv set_map) (rule imageI)
    then show ?thesis by (rule rev_bexI) (simp add: due_3d_def due_1d_def)
  qed
  show ?thesis using marks by (simp add: d' run_subscription_reminder_check_def again3 again1)
qed
theorem reminders_sent_once_witness:
  "run_subscription_reminder_check (\<lambda>_ _ _. True) (days 2) (snd (run_subscription_reminder_check (\<lambda>_ _ _. True) (days 2) sample_db))
     = ((0, 0), snd (run_subscription_reminder_check (\<lambda>_ _ _. True) (days 2) sample_db))
   \<and> fst (run_subscription_reminder_check (\<lambda>_ _ _. True) (days 2) sample_db) = (1, 0)"
proof -
  have "run_subscription_reminder_check (\<lambda>_ _ _. True) (days 2) sample_db
      = ((1, 0), snd (run_subscription_reminder_check (\<lambda>_ _ _. True) (days 2) sample_db))" by code_simp
  from reminders_sent_once[OF this] this show ?thesis by (metis fst_conv)
qed

text \<open>The six-hour period of the reminder loop does not cover its two-hour windows: for a
  subscription that ends 75 hours after one run, no run at that pace ever finds it due, so
  neither reminder is sent; a period of at most two hours would meet each window.\<close>

theorem reminder_window_gap:
  assumes "s_valid_until s = t0 + hours 75"
  shows "\<not> due_3d (t0 + hours (6 * k)) s \<and> \<not> due_1d (t0 + hours (6 * k)) s"
proof -
  have "\<not> (1 \<le> 3 * k \<and> 3 * k \<le> 2)" "\<not> (25 \<le> 3 * k \<and> 3 * k \<le> 26)" for k :: int by presburger+
  with assms show ?thesis by (auto simp: due_3d_def due_1d_def duration_defs)
qed

theorem reminder_window_gap_witness:
  "\<not> due_3d (0 + hours (6 * 0)) (sample_sub\<lparr>s_valid_until := 0 + hours 75\<rparr>)
   \<and> \<not> due_1d (0 + hours (6 * 0)) (sample_sub\<lparr>s_valid_until := 0 + hours 75\<rparr>)"
  by (rule reminder_window_gap) simp

text \<open>C10. The handler authenticates: an answer 200 for Telegram with a configured secret means that
  the header carried that very secret and that the body was small enough, and every refusal (wrong
  secret, unknown provider, bad payload, conflict) leaves the database as it was.\<close>

theorem webhook_refusal_changes_nothing:
  assumes "payment_webhook S clk nid secret prov hdr len body seen d = (resp, d')"
  shows "case resp of
     Ok pid c \<Rightarrow> prov \<in> {''telegram_stars'', ''mock''} \<and> len \<le> 1000000 \<and> body \<noteq> None
        \<and> (prov = ''telegram_stars'' \<and> secret \<noteq> [] \<longrightarrow> hdr = Some secret)
   | HttpError code m \<Rightarrow> d' = d \<and> code \<in> {400, 401, 409, 413, 500}"
proof (cases resp)
  case (Ok pid c)
  with assms show ?thesis
    by (auto simp: payment_webhook_def verify_telegram_stars_secret_def split: if_splits option.splits)
next
  case (HttpError code m)
  with assms show ?thesis
    by (cases body; cases "process_payment_webhook S clk nid prov (the body) seen d")
       (auto simp: payment_webhook_def split: if_splits option.splits py_error.splits)
qed

theorem webhook_refusal_changes_nothing_witness:
  "payment_webhook default_settings (\<lambda>i. int i) ''PAY1'' ''s3cret'' ''telegram_stars'' (Some ''guess'') 90
       (Some sample_payload) [] sample_db = (HttpError 401 ''Invalid or missing webhook secret'', sample_db)
   \<and> (401::nat) \<in> {400, 401, 409, 413, 500}"
proof -
  have run: "payment_webhook default_settings (\<lambda>i. int i) ''PAY1'' ''s3cret'' ''telegram_stars'' (Some ''guess'') 90
       (Some sample_payload) [] sample_db = (HttpError 401 ''Invalid or missing webhook secret'', sample_db)" by code_simp
  from webhook_refusal_changes_nothing[OF run] run show ?thesis by simp
qed

end
