(* ===== verification/Nodes.thy ===== *)
theory Nodes
  imports Models Settings "HOL-Library.AList"
begin

section \<open>Nodes, health, load balancing and topology\<close>

text \<open>
  The nodes of the VPN fleet as the control plane sees them: \<^verbatim>\<open>schemas/node.py\<close>, the health
  score of \<^verbatim>\<open>services/health_scoring.py\<close>, the choice of a node in \<^verbatim>\<open>services/load_balancer.py\<close>,
  the runtime adapter interface of \<^verbatim>\<open>services/node_runtime.py\<close> with the agent adapter of
  \<^verbatim>\<open>services/node_runtime_agent.py\<close>, and the aggregation of \<^verbatim>\<open>services/topology_engine.py\<close>.

  Floats are finite binary64 numbers. Of \<^verbatim>\<open>NodeMetadata\<close> the fields that only travel to the
  dashboard (host id, classification, confidence, evidence, internal address, MTU, last seen)
  are left out, and a capability is the truth value of its entry.
\<close>

subsection \<open>Node metadata and topology\<close>

record node =
  n_node_id :: string
  n_container_name :: string
  n_container_id :: string
  n_interface_name :: string
  n_public_key :: string
  n_listen_port :: int
  n_endpoint_ip :: string
  n_peer_count :: int
  n_active_peers :: "int option"
  n_total_rx_bytes :: int
  n_total_tx_bytes :: int
  n_status :: string
  n_capabilities :: "(string \<times> bool) list"
  n_health_score :: rat
  n_max_peers :: int
  n_is_draining :: bool
  n_latency_ms :: "rat option"

record topology =
  t_timestamp :: datetime
  t_nodes :: "node list"
  t_total_capacity :: int
  t_current_load :: int
  t_load_factor :: rat
  t_load_index :: rat
  t_health_score :: rat
  t_health_index :: rat
  t_capacity_score :: rat
  t_version :: int

subsection \<open>Health score\<close>

datatype health_state = HEALTHY | DEGRADED | UNHEALTHY | UNKNOWN

text \<open>
  \<open>log_status\<close> is the status of the latest health log, when there is one; the first factor of the
  score comes from it, or from the server row.
\<close>

definition effective_max_peers :: "int option \<Rightarrow> int option \<Rightarrow> int" where
  "effective_max_peers max_peers max_connections =
     (case max_peers of Some m \<Rightarrow> if m \<noteq> 0 then m else
          (case max_connections of Some c \<Rightarrow> if c \<noteq> 0 then c else 1000 | None \<Rightarrow> 1000)
      | None \<Rightarrow> (case max_connections of Some c \<Rightarrow> if c \<noteq> 0 then c else 1000 | None \<Rightarrow> 1000))"

definition reachability_score :: "string \<Rightarrow> string option \<Rightarrow> rat" where
  "reachability_score server_status log_status =
     (case log_status of
        Some st \<Rightarrow> if st = ''unreachable'' then fmul 1 0
                   else if st = ''degraded'' then fmul 1 (1/2)
                   else if st \<noteq> ''ok'' then fmul 1 (fl (3/10)) else 1
      | None \<Rightarrow> if server_status = ''unreachable'' then fmul 1 0
                else if server_status \<in> {''degraded'', ''unknown''} then fmul 1 (1/2) else 1)"

definition calculate_health_score ::
  "string \<Rightarrow> int option \<Rightarrow> string option \<Rightarrow> int \<Rightarrow> int \<Rightarrow> int option \<Rightarrow> rat" where
  "calculate_health_score server_status max_connections log_status peer_count active_peer_count max_peers =
     (let mp = effective_max_peers max_peers max_connections;
          s1 = reachability_score server_status log_status;
          s2 = (if peer_count > 0
                then fmul s1 (fadd (1/2) (fmul (1/2) (int_div active_peer_count peer_count))) else s1);
          s3 = (if mp \<noteq> 0 \<and> of_int peer_count \<ge> fmul (float_of_int mp) (fl (95/100)) then fmul s2 (fl (7/10)) else s2)
      in max 0 (min 1 s3))"

definition health_score_to_state :: "rat \<Rightarrow> health_state" where
  "health_score_to_state score =
     (if score \<ge> fl (9/10) then HEALTHY
      else if score \<ge> 1/2 then DEGRADED
      else if score > 0 then UNHEALTHY
      else UNKNOWN)"

subsection \<open>Load balancer\<close>

definition capacity_score :: "node \<Rightarrow> rat" where
  "capacity_score n = float_of_int (max (n_max_peers n - n_peer_count n) 0)"

definition health_score_of :: "node \<Rightarrow> rat" where
  "health_score_of n = max 0 (min 1 (n_health_score n))"

definition latency_penalty :: "settings \<Rightarrow> node \<Rightarrow> rat" where
  "latency_penalty S n =
     fmul (fdiv (case n_latency_ms n of None \<Rightarrow> 0 | Some l \<Rightarrow> l) 1000) (load_balancer_weight_latency S)"

definition calculate_node_score :: "settings \<Rightarrow> node \<Rightarrow> rat" where
  "calculate_node_score S n =
     fsub (fadd (fmul (capacity_score n) (load_balancer_weight_capacity S)) (health_score_of n))
          (latency_penalty S n)"

definition schedulable :: "node \<Rightarrow> bool" where
  "schedulable n \<longleftrightarrow> n_status n \<in> {''healthy'', ''degraded'', ''unknown''} \<and> n_health_score n \<ge> 1/2
     \<and> n_peer_count n < n_max_peers n \<and> \<not> n_is_draining n"

definition has_capabilities :: "string list \<Rightarrow> node \<Rightarrow> bool" where
  "has_capabilities caps n \<longleftrightarrow> list_all (\<lambda>c. map_of (n_capabilities n) c = Some True) caps"

definition select_node :: "settings \<Rightarrow> string list \<Rightarrow> topology \<Rightarrow> node result" where
  "select_node S required_capabilities topo =
     (let candidates = filter (has_capabilities required_capabilities) (filter schedulable (t_nodes topo))
      in case max_key (\<lambda>n. (calculate_node_score S n, n_node_id n))
                (preferring (\<lambda>n. n_health_score n \<ge> fl (9/10)) candidates) of
           None \<Rightarrow> Inl (LoadBalancerError ''No suitable node available for peer placement'')
         | Some best \<Rightarrow> Inr best)"

subsection \<open>The runtime adapter\<close>

text \<open>
  \<^verbatim>\<open>NodeRuntimeAdapter\<close> as a record of operations on a world \<open>'w\<close> the control plane does not
  see: an operation that raises is a \<^const>\<open>Inl\<close>, and it may have changed the world before it
  raised.
\<close>

record peer_config =
  pcf_public_key :: string
  pcf_allowed_ips :: "string option"
  pcf_preshared_key :: "string option"
  pcf_persistent_keepalive :: int

definition PeerConfigLike :: "string \<Rightarrow> string option \<Rightarrow> string option \<Rightarrow> peer_config" where
  "PeerConfigLike key ips psk = \<lparr>pcf_public_key = key, pcf_allowed_ips = ips, pcf_preshared_key = psk,
     pcf_persistent_keepalive = 25\<rparr>"

record peer_row =
  p_public_key :: string
  p_allowed_ips :: string
  p_last_handshake :: int
  p_transfer_rx :: int
  p_transfer_tx :: int

record 'w adapter =
  ad_discover :: "'w \<Rightarrow> node list result"
  ad_add_peer :: "string \<Rightarrow> peer_config \<Rightarrow> 'w \<Rightarrow> unit result \<times> 'w"
  ad_remove_peer :: "string \<Rightarrow> string \<Rightarrow> 'w \<Rightarrow> unit result \<times> 'w"
  ad_list_peers :: "string \<Rightarrow> 'w \<Rightarrow> peer_row list result"

subsection \<open>The agent adapter\<close>

text \<open>
  The adapter of production: discovery reads the server table and the latest heartbeat of each
  server (\<^term>\<open>None\<close> when there is none), peers are never changed from here.
\<close>

record agent_world =
  aw_servers :: "server list"
  aw_heartbeat :: "string \<Rightarrow> payload option"

definition str_or :: "pyval \<Rightarrow> string \<Rightarrow> string" where
  "str_or v dflt = py_str (py_or v (VStr dflt))"

definition int_or_zero :: "pyval \<Rightarrow> int result" where
  "int_or_zero v = py_int_val (py_or v (VInt 0))"

definition heartbeat_node :: "server \<Rightarrow> payload \<Rightarrow> node result" where
  "heartbeat_node s hb =
     (let status = py_or (pget hb ''status'') (VStr (if sv_status s = [] then ''unknown'' else sv_status s)) in
      rbind (if pget hb ''health_score'' \<noteq> VNone then py_float_val (pget hb ''health_score'')
             else Inr (case sv_health_score s of None \<Rightarrow> 0 | Some h \<Rightarrow> h)) (\<lambda>health.
      rbind (int_or_zero (pget hb ''peer_count'')) (\<lambda>peers.
      rbind (int_or_zero (pget hb ''listen_port'')) (\<lambda>port.
      rbind (int_or_zero (pget hb ''total_rx_bytes'')) (\<lambda>rx.
      rbind (int_or_zero (pget hb ''total_tx_bytes'')) (\<lambda>tx.
        Inr \<lparr>n_node_id = sv_id s,
             n_container_name = str_or (pget hb ''container_name'') (sv_name s),
             n_container_id = str_or (pget hb ''container_id'') [],
             n_interface_name = str_or (pget hb ''interface_name'') ''awg0'',
             n_public_key = str_or (pget hb ''public_key'') (case sv_public_key s of None \<Rightarrow> [] | Some k \<Rightarrow> k),
             n_listen_port = port, n_endpoint_ip = [], n_peer_count = peers, n_active_peers = None,
             n_total_rx_bytes = rx, n_total_tx_bytes = tx,
             n_status = py_str (py_or status (VStr ''unknown'')), n_capabilities = [],
             n_health_score = health,
             n_max_peers = (case sv_max_connections s of None \<Rightarrow> 1000 | Some c \<Rightarrow> if c \<noteq> 0 then c else 1000),
             n_is_draining = sv_is_draining s, n_latency_ms = None\<rparr>))))))"

text \<open>
  \<^verbatim>\<open>discover_nodes\<close> asks \<^verbatim>\<open>hb.get(...)\<close> for four fields without checking that there is a
  heartbeat, so a missing one raises; \<^verbatim>\<open>get_node_for_sync\<close> checks.
\<close>

fun map_result :: "('a \<Rightarrow> 'b result) \<Rightarrow> 'a list \<Rightarrow> 'b list result" where
  "map_result f [] = Inr []"
| "map_result f (x # xs) = rbind (f x) (\<lambda>y. rbind (map_result f xs) (\<lambda>ys. Inr (y # ys)))"

definition agent_discover_nodes :: "agent_world \<Rightarrow> node list result" where
  "agent_discover_nodes w =
     map_result (\<lambda>s. case aw_heartbeat w (sv_id s) of None \<Rightarrow> Inl AttributeError | Some hb \<Rightarrow> heartbeat_node s hb)
       (filter sv_is_active (aw_servers w))"

definition agent_get_node_for_sync :: "agent_world \<Rightarrow> string \<Rightarrow> node option result" where
  "agent_get_node_for_sync w sid =
     (case find_row sv_id sid (aw_servers w) of
        None \<Rightarrow> Inr None
      | Some s \<Rightarrow> rbind (heartbeat_node s (case aw_heartbeat w sid of None \<Rightarrow> [] | Some hb \<Rightarrow> hb)) (\<lambda>n. Inr (Some n)))"

definition agent_health_check :: "agent_world \<Rightarrow> string \<Rightarrow> string \<times> bool" where
  "agent_health_check w sid = (case aw_heartbeat w sid of
       None \<Rightarrow> (''unreachable'', False)
     | Some hb \<Rightarrow> if hb = [] then (''unreachable'', False) else (''ok'', True))"

definition agent_adapter :: "agent_world adapter" where
  "agent_adapter = \<lparr>ad_discover = agent_discover_nodes,
     ad_add_peer = (\<lambda>_ _ w. (Inl (NotImplementedError ''add_peer is not supported in NODE_DISCOVERY=agent''), w)),
     ad_remove_peer = (\<lambda>_ _ w. (Inl (NotImplementedError ''remove_peer is not supported in NODE_DISCOVERY=agent''), w)),
     ad_list_peers = (\<lambda>_ _. Inr [])\<rparr>"

subsection \<open>Topology engine\<close>

definition derive_vpn_endpoint :: "node \<Rightarrow> string option" where
  "derive_vpn_endpoint n =
     (if n_endpoint_ip n \<noteq> [] \<and> n_listen_port n \<noteq> 0
      then Some (n_endpoint_ip n @ '':'' @ int_str (n_listen_port n)) else None)"

definition discovered_nodes :: "node list \<Rightarrow> (string \<times> node) list" where
  "discovered_nodes nodes = fold (\<lambda>n m. AList.update (n_node_id n) n m) nodes []"

definition docker_server :: "server \<Rightarrow> bool" where
  "docker_server s \<longleftrightarrow> startswith (sv_api_endpoint s) ''docker://''"

definition new_server :: "node \<Rightarrow> server" where
  "new_server n = \<lparr>sv_id = n_node_id n, sv_name = n_container_name n, sv_region = ''docker'',
     sv_api_endpoint = ''docker://'' @ n_container_name n, sv_vpn_endpoint = derive_vpn_endpoint n,
     sv_public_key = (if n_public_key n = [] then None else Some (n_public_key n)),
     sv_status = (if n_status n = [] then ''unknown'' else n_status n),
     sv_is_active = (n_status n \<noteq> ''unhealthy''), sv_traffic_limit_gb = None,
     sv_max_connections = Some (n_max_peers n), sv_health_score = Some (n_health_score n),
     sv_is_draining = False\<rparr>"

definition sync_node :: "server \<Rightarrow> node \<Rightarrow> node" where
  "sync_node s n = n\<lparr>n_max_peers := (case sv_max_connections s of
                        Some c \<Rightarrow> if c > 0 then c else n_max_peers n | None \<Rightarrow> n_max_peers n),
                      n_is_draining := sv_is_draining s\<rparr>"

definition sync_server :: "node \<Rightarrow> server \<Rightarrow> server" where
  "sync_server n s = s\<lparr>sv_name := n_container_name n,
     sv_api_endpoint := ''docker://'' @ n_container_name n,
     sv_vpn_endpoint := (case derive_vpn_endpoint n of None \<Rightarrow> sv_vpn_endpoint s | Some e \<Rightarrow> Some e),
     sv_public_key := (if n_public_key n = [] then sv_public_key s else Some (n_public_key n)),
     sv_status := (if n_status n = [] then sv_status s else n_status n),
     sv_is_active := (n_status n \<noteq> ''unhealthy''),
     sv_max_connections := Some (n_max_peers (sync_node s n)),
     sv_health_score := Some (n_health_score n)\<rparr>"

text \<open>
  The dictionary keeps the last of several nodes with one id, so only that one is updated. A
  new row whose id belongs to a server of another kind, or a value too long for its column, makes
  the commit fail: the table stays, the nodes keep what the loop wrote into them.
\<close>

fun sync_nodes :: "server list \<Rightarrow> node list \<Rightarrow> node list" where
  "sync_nodes existing [] = []"
| "sync_nodes existing (n # ns) =
     (if n_node_id n \<in> n_node_id ` set ns then n
      else case find_row sv_id (n_node_id n) existing of None \<Rightarrow> n | Some s \<Rightarrow> sync_node s n)
     # sync_nodes existing ns"

definition server_row_ok :: "server \<Rightarrow> bool" where
  "server_row_ok s \<longleftrightarrow> length (sv_id s) \<le> 32 \<and> length (sv_name s) \<le> 255
     \<and> length (sv_api_endpoint s) \<le> 512 \<and> length (sv_status s) \<le> 32
     \<and> (case sv_vpn_endpoint s of None \<Rightarrow> True | Some e \<Rightarrow> length e \<le> 256)"

definition sync_discovered_nodes :: "settings \<Rightarrow> node list \<Rightarrow> server list \<Rightarrow> node list \<times> server list" where
  "sync_discovered_nodes S nodes rows =
     (if node_discovery S \<noteq> ''docker'' then (nodes, rows)
      else
        let existing = filter docker_server rows;
            discovered = discovered_nodes nodes;
            added = map (\<lambda>(_, n). new_server n)
                      (filter (\<lambda>(i, _). find_row sv_id i existing = None) discovered);
            updated = map (\<lambda>s. if \<not> docker_server s then s
                        else case map_of discovered (sv_id s) of
                          Some n \<Rightarrow> sync_server n s
                        | None \<Rightarrow> s\<lparr>sv_is_active := False, sv_status := ''unreachable'', sv_health_score := Some 0\<rparr>) rows
        in (sync_nodes existing nodes,
            if list_all server_row_ok (updated @ added) \<and> list_all (\<lambda>s. sv_id s \<notin> sv_id ` set rows) added
            then updated @ added else rows))"

definition node_load :: "node \<Rightarrow> int" where
  "node_load n = (case n_active_peers n of Some v \<Rightarrow> v | None \<Rightarrow> n_peer_count n)"

definition aggregate_topology :: "datetime \<Rightarrow> node list \<Rightarrow> topology" where
  "aggregate_topology now nodes =
     (let total_capacity = sum_list (map n_max_peers nodes);
          current_load = sum_list (map node_load nodes);
          load_factor = (if total_capacity \<noteq> 0 then int_div current_load total_capacity else 0);
          capacity = (if total_capacity \<noteq> 0 then int_div (total_capacity - current_load) total_capacity else 0);
          health = (if nodes \<noteq> [] then fdiv (float_sum (map n_health_score nodes)) (float_of_int (int (length nodes))) else 0)
      in \<lparr>t_timestamp = now, t_nodes = nodes, t_total_capacity = total_capacity,
          t_current_load = current_load, t_load_factor = load_factor, t_load_index = load_factor,
          t_health_score = health, t_health_index = health, t_capacity_score = capacity, t_version = 0\<rparr>)"

text \<open>
  The cache in Redis: \<open>ok i\<close> says whether the \<open>i\<close>-th request to it succeeds. \<open>digest\<close> is SHA-256
  of the canonical JSON text, which leaves out the time and the version and lists the nodes by id.
\<close>

record topology_cache =
  tc_hash :: "string option"
  tc_version :: "int option"
  tc_topology :: "topology option"

definition compute_topology_hash :: "(topology \<Rightarrow> string) \<Rightarrow> topology \<Rightarrow> string" where
  "compute_topology_hash digest t =
     digest (t\<lparr>t_timestamp := 0, t_version := 0, t_nodes := sort_key n_node_id (t_nodes t)\<rparr>)"

definition next_version :: "string \<Rightarrow> topology_cache \<Rightarrow> int" where
  "next_version h c =
     (let prev = (case tc_version c of None \<Rightarrow> 0 | Some v \<Rightarrow> v)
      in if (case tc_hash c of None \<Rightarrow> [] | Some x \<Rightarrow> x) = h \<and> prev > 0 then prev else prev + 1)"

definition rebuild_topology ::
  "settings \<Rightarrow> (topology \<Rightarrow> string) \<Rightarrow> 'w adapter \<Rightarrow> (nat \<Rightarrow> bool) \<Rightarrow> datetime \<Rightarrow> 'w \<Rightarrow> server list \<Rightarrow> topology_cache
   \<Rightarrow> (topology \<times> server list \<times> topology_cache) result" where
  "rebuild_topology S digest A ok now w rows c =
     rbind (ad_discover A w) (\<lambda>found.
       let (nodes, rows') = sync_discovered_nodes S found rows;
           t = aggregate_topology now nodes;
           h = compute_topology_hash digest t;
           v = next_version h c;
           c1 = (if ok 0 \<and> ok 1 \<and> ok 2 then c\<lparr>tc_version := Some v\<rparr> else c);
           c2 = (if ok 0 \<and> ok 1 \<and> ok 2 \<and> ok 3 then c1\<lparr>tc_hash := Some h\<rparr> else c1);
           t' = t\<lparr>t_version := (if ok 0 \<and> ok 1 \<and> ok 2 \<and> ok 3 then v else 1)\<rparr>;
           c3 = (if ok 4 then c2\<lparr>tc_topology := Some t'\<rparr> else c2)
       in Inr (t', rows', c3))"

definition get_topology ::
  "settings \<Rightarrow> (topology \<Rightarrow> string) \<Rightarrow> 'w adapter \<Rightarrow> (nat \<Rightarrow> bool) \<Rightarrow> datetime \<Rightarrow> 'w \<Rightarrow> server list \<Rightarrow> topology_cache
   \<Rightarrow> (topology \<times> server list \<times> topology_cache) result" where
  "get_topology S digest A ok now w rows c =
     (case (if ok 5 then tc_topology c else None) of
        Some t \<Rightarrow> Inr (t, rows, c)
      | None \<Rightarrow> rbind (rebuild_topology S digest A ok now w rows c) (\<lambda>(t, rows', c').
          Inr (t, rows', if ok 6 then c'\<lparr>tc_topology := Some t\<rparr> else c')))"

subsection \<open>Scores\<close>

lemma fmul_mono: "0 \<le> a \<Longrightarrow> a \<le> b \<Longrightarrow> 0 \<le> w \<Longrightarrow> fmul a w \<le> fmul b w"
  by (auto simp: fmul_def intro!: fl_mono mult_right_mono)

lemma fadd_mono: "a \<le> b \<Longrightarrow> c \<le> d \<Longrightarrow> fadd a c \<le> fadd b d"
  by (auto simp: fadd_def intro!: fl_mono add_mono)

lemma fsub_mono: "a \<le> b \<Longrightarrow> d \<le> c \<Longrightarrow> fsub a c \<le> fsub b d"
  by (auto simp: fsub_def intro!: fl_mono diff_mono)

lemma fdiv_mono: "a \<le> b \<Longrightarrow> 0 < c \<Longrightarrow> fdiv a c \<le> fdiv b c"
  by (auto simp: fdiv_def intro!: fl_mono divide_right_mono)

lemma fdiv_nonneg: "0 \<le> a \<Longrightarrow> 0 < c \<Longrightarrow> 0 \<le> fdiv a c"
  by (simp add: fdiv_def fl_nonneg)

lemma fmul_nonneg: "0 \<le> a \<Longrightarrow> 0 \<le> b \<Longrightarrow> 0 \<le> fmul a b"
  by (simp add: fmul_def fl_nonneg)

lemma fadd_nonneg: "0 \<le> a \<Longrightarrow> 0 \<le> b \<Longrightarrow> 0 \<le> fadd a b"
  by (simp add: fadd_def fl_nonneg)

lemma capacity_score_mono:
  "n_max_peers a - n_peer_count a \<le> n_max_peers b - n_peer_count b \<Longrightarrow>
   0 \<le> capacity_score a \<and> capacity_score a \<le> capacity_score b"
  by (auto simp: capacity_score_def float_of_int_def intro!: fl_mono fl_nonneg)

lemma latency_penalty_mono:
  assumes "0 \<le> (case n_latency_ms b of None \<Rightarrow> 0 | Some l \<Rightarrow> l)"
    and "(case n_latency_ms b of None \<Rightarrow> 0 | Some l \<Rightarrow> l) \<le> (case n_latency_ms a of None \<Rightarrow> 0 | Some l \<Rightarrow> l)"
    and "0 \<le> load_balancer_weight_latency S"
  shows "latency_penalty S b \<le> latency_penalty S a"
  unfolding latency_penalty_def using assms by (intro fmul_mono fdiv_mono fdiv_nonneg) auto

lemma reachability_nonneg: "0 \<le> reachability_score st ls"
  by (auto simp: reachability_score_def fmul_def fl_nonneg split: option.split)

lemma connectivity_mono:
  assumes "0 \<le> a" "a \<le> b" "0 \<le> s"
  shows "0 < pc \<Longrightarrow> 0 \<le> fmul s (fadd (1/2) (fmul (1/2) (int_div a pc)))
    \<and> fmul s (fadd (1/2) (fmul (1/2) (int_div a pc))) \<le> fmul s (fadd (1/2) (fmul (1/2) (int_div b pc)))"
proof -
  assume "0 < pc"
  then have "int_div a pc \<le> int_div b pc" "0 \<le> int_div a pc"
    using assms by (auto simp: int_div_def intro!: fl_mono divide_right_mono fl_nonneg)
  then have "fadd (1/2) (fmul (1/2) (int_div a pc)) \<le> fadd (1/2) (fmul (1/2) (int_div b pc))"
    "0 \<le> fadd (1/2) (fmul (1/2) (int_div a pc))"
    by (auto simp: fadd_def fmul_def intro!: fl_mono fl_nonneg add_mono add_nonneg_nonneg)
  with assms(3) show ?thesis by (auto simp: fmul_def intro!: fl_mono fl_nonneg mult_left_mono)
qed

lemma fl_pos_nine_tenths [simp]: "\<not> fl (9/10) \<le> 0"
  by code_simp

subsection \<open>Properties\<close>

definition sample_node :: "string \<Rightarrow> int \<Rightarrow> rat \<Rightarrow> node" where
  "sample_node i peers health = \<lparr>n_node_id = i, n_container_name = i, n_container_id = [], n_interface_name = ''awg0'',
     n_public_key = [], n_listen_port = 51820, n_endpoint_ip = [], n_peer_count = peers, n_active_peers = None,
     n_total_rx_bytes = 0, n_total_tx_bytes = 0, n_status = ''healthy'', n_capabilities = [],
     n_health_score = health, n_max_peers = 100, n_is_draining = False, n_latency_ms = None\<rparr>"

definition sample_topology :: topology where
  "sample_topology = aggregate_topology 0 [sample_node ''a'' 95 1, sample_node ''b'' 10 1, sample_node ''c'' 5 (3/5)]"



text \<open>The load balancer refuses only when it must: it raises exactly when no node of the
  topology is schedulable with the required capabilities.\<close>

theorem select_node_refuses:
  "(\<exists>e. select_node S caps topo = Inl e) \<longleftrightarrow>
     (\<forall>n\<in>set (t_nodes topo). \<not> (schedulable n \<and> has_capabilities caps n))"
proof -
  have "(\<exists>e. select_node S caps topo = Inl e) \<longleftrightarrow>
      filter (has_capabilities caps) (filter schedulable (t_nodes topo)) = []"
    by (auto simp: select_node_def Let_def split: option.splits)
       (metis max_key_None option.distinct(1) preferring_Nil)
  then show ?thesis by (auto simp: filter_empty_conv)
qed

theorem select_node_refuses_witness:
  "(\<exists>e. select_node default_settings [''amnezia''] sample_topology = Inl e)
     \<and> \<not> (\<exists>e. select_node default_settings [] sample_topology = Inl e)"
proof -
  have "\<forall>n\<in>set (t_nodes sample_topology). \<not> (schedulable n \<and> has_capabilities [''amnezia''] n)"
    "\<not> (\<forall>n\<in>set (t_nodes sample_topology). \<not> (schedulable n \<and> has_capabilities [] n))" by code_simp+
  then show ?thesis using select_node_refuses by blast
qed

text \<open>The score is monotone in binary64 arithmetic: a node with at least as many free slots, a
  health at least as good and a latency at most as high never scores lower.\<close>

theorem node_score_monotone:
  assumes "n_max_peers a - n_peer_count a \<le> n_max_peers b - n_peer_count b"
    and "n_health_score a \<le> n_health_score b"
    and "0 \<le> (case n_latency_ms b of None \<Rightarrow> 0 | Some l \<Rightarrow> l)"
    and "(case n_latency_ms b of None \<Rightarrow> 0 | Some l \<Rightarrow> l) \<le> (case n_latency_ms a of None \<Rightarrow> 0 | Some l \<Rightarrow> l)"
    and "0 \<le> load_balancer_weight_capacity S" "0 \<le> load_balancer_weight_latency S"
  shows "calculate_node_score S a \<le> calculate_node_score S b"
  unfolding calculate_node_score_def
  using capacity_score_mono[OF assms(1)] latency_penalty_mono[OF assms(3,4,6)] assms(2,5)
  by (intro fsub_mono fadd_mono fmul_mono) (auto simp: health_score_of_def min_def max_def)

theorem node_score_monotone_witness:
  "calculate_node_score default_settings (sample_node ''c'' 5 (3/5)) \<le> calculate_node_score default_settings (sample_node ''b'' 5 1)"
  by (rule node_score_monotone; code_simp)



lemma map_result_Inr: "map_result f xs = Inr ys \<longleftrightarrow> list_all2 (\<lambda>x y. f x = Inr y) xs ys"
  by (induction xs arbitrary: ys) (auto simp: rbind_Inr_iff list_all2_Cons1)

lemma map_result_Inl: "x \<in> set xs \<Longrightarrow> f x = Inl e \<Longrightarrow> \<exists>e'. map_result f xs = Inl e'"
  by (induction xs) (auto simp: rbind_def split: sum.splits)

lemma heartbeat_node_row:
  "heartbeat_node s hb = Inr n \<Longrightarrow> n_node_id n = sv_id s \<and> n_is_draining n = sv_is_draining s
     \<and> n_max_peers n = (case sv_max_connections s of None \<Rightarrow> 1000 | Some c \<Rightarrow> if c \<noteq> 0 then c else 1000)"
  by (auto simp: heartbeat_node_def Let_def rbind_Inr_iff)

lemma heartbeat_node_empty: "\<exists>n. heartbeat_node s [] = Inr n"
  by (simp add: heartbeat_node_def Let_def int_or_zero_def pget_def py_or_def)

text \<open>Discovery through the agents: when it returns, the nodes are the active servers in the
  order of the table, each with the draining flag and the capacity of its row.\<close>

theorem agent_discovery_rows:
  assumes "agent_discover_nodes w = Inr nodes"
  shows "list_all2 (\<lambda>s n. n_node_id n = sv_id s \<and> n_is_draining n = sv_is_draining s
          \<and> n_max_peers n = (case sv_max_connections s of None \<Rightarrow> 1000 | Some c \<Rightarrow> if c \<noteq> 0 then c else 1000))
        (filter sv_is_active (aw_servers w)) nodes"
  using assms unfolding agent_discover_nodes_def map_result_Inr
  by (rule list_all2_mono) (auto split: option.splits dest: heartbeat_node_row)

definition sample_server :: "string \<Rightarrow> server" where
  "sample_server i = \<lparr>sv_id = i, sv_name = i, sv_region = ''eu'', sv_api_endpoint = ''https://x'', sv_vpn_endpoint = None,
     sv_public_key = None, sv_status = ''healthy'', sv_is_active = True, sv_traffic_limit_gb = None,
     sv_max_connections = Some 100, sv_health_score = None, sv_is_draining = False\<rparr>"

definition sample_world :: agent_world where
  "sample_world = \<lparr>aw_servers = [sample_server ''a''],
     aw_heartbeat = (\<lambda>i. if i = ''a'' then Some [(''peer_count'', VInt 7), (''health_score'', VFloat ''0.9'')] else None)\<rparr>"

theorem agent_discovery_rows_witness:
  "\<exists>nodes. agent_discover_nodes sample_world = Inr nodes \<and> map n_max_peers nodes = [100]"
proof -
  obtain nodes where run: "agent_discover_nodes sample_world = Inr nodes"
  proof (cases "agent_discover_nodes sample_world")
    case (Inl e)
    moreover have "(case agent_discover_nodes sample_world of Inl e \<Rightarrow> False | Inr _ \<Rightarrow> True)" by code_simp
    ultimately show ?thesis by simp
  qed (rule that)
  moreover have "filter sv_is_active (aw_servers sample_world) = [sample_server ''a'']"
    "sv_max_connections (sample_server ''a'') = Some 100" by code_simp+
  ultimately show ?thesis using agent_discovery_rows[OF run] by (auto simp: list_all2_Cons1)
qed

text \<open>One active server without a heartbeat makes discovery through the agents raise for the
  whole fleet, although the lookup of that very server for a manual sync succeeds.\<close>

theorem agent_discovery_needs_heartbeats:
  assumes "unique_on sv_id (aw_servers w)"
    and "s \<in> set (aw_servers w)" "sv_is_active s" "aw_heartbeat w (sv_id s) = None"
  shows "(\<exists>e. agent_discover_nodes w = Inl e) \<and> (\<exists>n. agent_get_node_for_sync w (sv_id s) = Inr (Some n))"
proof
  show "\<exists>e. agent_discover_nodes w = Inl e"
    unfolding agent_discover_nodes_def by (rule map_result_Inl[of s]) (use assms in auto)
  show "\<exists>n. agent_get_node_for_sync w (sv_id s) = Inr (Some n)"
    using find_row_unique[OF assms(1,2)] heartbeat_node_empty[of s] assms(4)
    by (auto simp: agent_get_node_for_sync_def)
qed

theorem agent_discovery_needs_heartbeats_witness:
  "let w = sample_world\<lparr>aw_servers := [sample_server ''a'', sample_server ''b'']\<rparr> in
   (\<exists>e. agent_discover_nodes w = Inl e) \<and> (\<exists>n. agent_get_node_for_sync w (sv_id (sample_server ''b'')) = Inr (Some n))"
  unfolding Let_def by (rule agent_discovery_needs_heartbeats) code_simp+





end
