(* ===== verification/Rebalance.thy ===== *)
theory Rebalance
  imports Nodes
begin

section \<open>Planning: rebalance, placement and failover\<close>

text \<open>
  The planning half of \<^verbatim>\<open>services/control_plane_service.py\<close>: the summary of a topology, the
  greedy rebalance plan, the simulated placement of a peer and the failover map, with
  \<^verbatim>\<open>control_plane/server_crud.py\<close>. A planner reads the topology and the database and appends
  control-plane events; the moves themselves are executed in the theory of migrations.
\<close>

subsection \<open>Shared queries\<close>

definition usable_status :: "string \<Rightarrow> bool" where
  "usable_status st \<longleftrightarrow> st \<in> {''healthy'', ''degraded'', ''unknown''}"

definition node_regions :: "db \<Rightarrow> string list \<Rightarrow> string \<Rightarrow> string option" where
  "node_regions d ids i =
     (if i \<in> set ids
      then map_option (\<lambda>s. if sv_region s = [] then ''unknown'' else sv_region s) (find_row sv_id i (servers d))
      else None)"

definition topology_regions :: "db \<Rightarrow> topology \<Rightarrow> string \<Rightarrow> string option" where
  "topology_regions d topo = node_regions d (map n_node_id (t_nodes topo))"

definition log_event :: "string \<Rightarrow> string \<Rightarrow> string option \<Rightarrow> json \<Rightarrow> db \<Rightarrow> db" where
  "log_event ty sev sid pl d = control_plane_events_update
     (add_row \<lparr>ev_type = ty, ev_severity = sev, ev_server_id = sid, ev_payload = pl\<rparr>) d"

definition load_ratio :: "node \<Rightarrow> rat" where
  "load_ratio n = int_div (n_peer_count n) (n_max_peers n)"

subsection \<open>Topology summary\<close>

record topology_summary =
  ts_nodes_total :: int
  ts_healthy :: int
  ts_degraded :: int
  ts_unhealthy :: int
  ts_draining :: int
  ts_overloaded :: int

definition count_nodes :: "(node \<Rightarrow> bool) \<Rightarrow> node list \<Rightarrow> int" where
  "count_nodes P ns = int (length (filter P ns))"

definition build_topology_summary :: "topology \<Rightarrow> rat \<Rightarrow> topology_summary" where
  "build_topology_summary topo overload_threshold =
     \<lparr>ts_nodes_total = int (length (t_nodes topo)),
      ts_healthy = count_nodes (\<lambda>n. n_status n = ''healthy'') (t_nodes topo),
      ts_degraded = count_nodes (\<lambda>n. n_status n = ''degraded'') (t_nodes topo),
      ts_unhealthy = count_nodes (\<lambda>n. n_status n = ''unhealthy'') (t_nodes topo),
      ts_draining = count_nodes n_is_draining (t_nodes topo),
      ts_overloaded = count_nodes (\<lambda>n. (if n_max_peers n > 0 then load_ratio n else 0) \<ge> overload_threshold) (t_nodes topo)\<rparr>"

subsection \<open>Enterprise plans\<close>

definition enterprise_plan_keywords :: "settings \<Rightarrow> string list" where
  "enterprise_plan_keywords S =
     map (\<lambda>item. lower (strip item))
       (filter (\<lambda>item. strip item \<noteq> []) (split_on (CHR '','') (control_plane_enterprise_plan_keywords S)))"

definition is_enterprise_plan_name :: "string \<Rightarrow> string list \<Rightarrow> bool" where
  "is_enterprise_plan_name name keywords \<longleftrightarrow>
     name \<noteq> [] \<and> keywords \<noteq> [] \<and> list_ex (\<lambda>k. contains k (lower name)) keywords"

text \<open>SQL \<^verbatim>\<open>LIKE\<close>: \<^verbatim>\<open>%\<close> is any text, \<^verbatim>\<open>_\<close> any character, a backslash takes the next character literally.\<close>

fun sql_like :: "string \<Rightarrow> string \<Rightarrow> bool" where
  "sql_like [] s = (s = [])"
| "sql_like (p # ps) [] = (if p = CHR ''%'' then sql_like ps [] else False)"
| "sql_like (p # ps) (c # s) =
     (if p = CHR ''%'' then sql_like ps (c # s) \<or> sql_like (p # ps) s
      else if p = CHR ''_'' then sql_like ps s
      else if p = CHR 0x5C then (case ps of [] \<Rightarrow> False | q # qs \<Rightarrow> q = c \<and> sql_like qs s)
      else p = c \<and> sql_like ps s)"

definition ilike_contains :: "string \<Rightarrow> string \<Rightarrow> bool" where
  "ilike_contains keyword name = sql_like (''%'' @ lower keyword @ ''%'') (lower name)"

definition device_subscription :: "db \<Rightarrow> device \<Rightarrow> (subscription \<times> plan) option" where
  "device_subscription d dev =
     (case find_row s_id (d_subscription_id dev) (subscriptions d) of
        None \<Rightarrow> None
      | Some sub \<Rightarrow> map_option (Pair sub) (find_row pl_id (s_plan_id sub) (plans d)))"

definition pinned_device :: "db \<Rightarrow> string list \<Rightarrow> device \<Rightarrow> bool" where
  "pinned_device d keywords dev \<longleftrightarrow> d_revoked_at dev = None \<and>
     (case device_subscription d dev of
        None \<Rightarrow> False
      | Some (sub, plan) \<Rightarrow> s_status sub = ''active'' \<and> list_ex (\<lambda>k. ilike_contains k (pl_name plan)) keywords)"

definition enterprise_pinned_counts :: "settings \<Rightarrow> db \<Rightarrow> string list \<Rightarrow> (string \<times> int) list" where
  "enterprise_pinned_counts S d ids =
     (let keywords = enterprise_plan_keywords S;
          hits = filter (\<lambda>dev. d_server_id dev \<in> set ids \<and> pinned_device d keywords dev) (devices d)
      in if ids = [] \<or> keywords = [] then []
         else map (\<lambda>i. (i, int (length (filter (\<lambda>dev. d_server_id dev = i) hits)))) (remdups (map d_server_id hits)))"

subsection \<open>The rebalance plan\<close>

record rebalance_request =
  rq_high_watermark :: rat
  rq_target_watermark :: rat
  rq_max_moves_per_node :: int

definition make_rebalance_request :: "rat \<Rightarrow> rat \<Rightarrow> int \<Rightarrow> rebalance_request result" where
  "make_rebalance_request hw tw mm =
     (if 1/2 \<le> hw \<and> hw \<le> fl (99/100) \<and> fl (2/10) \<le> tw \<and> tw \<le> fl (9/10) \<and> 1 \<le> mm \<and> mm \<le> 5000
      then Inr \<lparr>rq_high_watermark = hw, rq_target_watermark = tw, rq_max_moves_per_node = mm\<rparr>
      else Inl (ValueError ''RebalancePlanRequest''))"

record move =
  m_source :: string
  m_target :: string
  m_peers :: int

definition rebalanceable :: "node \<Rightarrow> bool" where
  "rebalanceable n \<longleftrightarrow> n_max_peers n > 0 \<and> usable_status (n_status n) \<and> \<not> n_is_draining n"

definition overloaded_nodes :: "rat \<Rightarrow> node list \<Rightarrow> node list" where
  "overloaded_nodes hw ns = filter (\<lambda>n. rebalanceable n \<and> load_ratio n \<ge> hw) ns"

definition underloaded_nodes :: "rat \<Rightarrow> node list \<Rightarrow> node list" where
  "underloaded_nodes tw ns = filter (\<lambda>n. rebalanceable n \<and> load_ratio n < tw) ns"

definition target_peers :: "rat \<Rightarrow> node \<Rightarrow> int" where
  "target_peers tw n = int_of_float (fmul (float_of_int (n_max_peers n)) tw)"

type_synonym slots = "(string \<times> int) list"

definition receiver_slots :: "rat \<Rightarrow> node list \<Rightarrow> slots" where
  "receiver_slots tw ns =
     fold (\<lambda>n m. AList.update (n_node_id n) (max (target_peers tw n - n_peer_count n) 0) m) ns []"

text \<open>The inner loop: peers of one source go to the receiver with the most free slots until none is left.\<close>

function distribute :: "string \<Rightarrow> int \<Rightarrow> slots \<Rightarrow> move list \<times> slots" where
  "distribute src pending slots =
     (if pending \<le> 0 then ([], slots)
      else case max_key snd (filter (\<lambda>(i, free). free > 0 \<and> i \<noteq> src) slots) of
        None \<Rightarrow> ([], slots)
      | Some (tgt, free) \<Rightarrow>
          let moved = min pending free in
          if moved \<le> 0 then ([], slots)
          else let (ms, slots') = distribute src (pending - moved) (AList.update tgt (free - moved) slots)
               in (\<lparr>m_source = src, m_target = tgt, m_peers = moved\<rparr> # ms, slots'))"
  by pat_completeness auto
termination by (relation "measure (\<lambda>(_, pending, _). nat pending)") auto

declare distribute.simps [simp del]

definition movable_peers :: "rat \<Rightarrow> (string \<Rightarrow> int) \<Rightarrow> node \<Rightarrow> int" where
  "movable_peers tw pinned n = max (n_peer_count n - max (pinned (n_node_id n)) 0 - target_peers tw n) 0"

fun plan_moves :: "rat \<Rightarrow> int \<Rightarrow> (string \<Rightarrow> int) \<Rightarrow> node list \<Rightarrow> slots \<Rightarrow> move list \<times> string list \<times> slots" where
  "plan_moves tw mm pinned [] slots = ([], [], slots)"
| "plan_moves tw mm pinned (s # ss) slots =
     (let movable = movable_peers tw pinned s;
          pending = min movable mm;
          limited = (if movable \<le> 0 \<and> n_peer_count s > target_peers tw s then [n_node_id s] else []);
          (ms, slots1) = distribute (n_node_id s) pending slots;
          (ms', limited', slots2) = plan_moves tw mm pinned ss slots1
      in (ms @ ms', limited @ limited', slots2))"

definition move_json :: "move \<Rightarrow> json" where
  "move_json m = JObj [(''source_node_id'', JStr (m_source m)), (''target_node_id'', JStr (m_target m)),
     (''peers_to_move'', JInt (m_peers m))]"

record rebalance_plan =
  rp_overloaded :: "string list"
  rp_underloaded :: "string list"
  rp_total :: int
  rp_moves :: "move list"

definition plan_rebalance :: "settings \<Rightarrow> topology \<Rightarrow> rebalance_request \<Rightarrow> db \<Rightarrow> (rebalance_plan \<times> db) result" where
  "plan_rebalance S topo rq d =
     (if rq_target_watermark rq \<ge> rq_high_watermark rq
      then Inl (ValueError ''target_watermark must be lower than high_watermark'')
      else
        let tw = rq_target_watermark rq;
            over = overloaded_nodes (rq_high_watermark rq) (t_nodes topo);
            under = underloaded_nodes tw (t_nodes topo);
            counts = enterprise_pinned_counts S d (map n_node_id over);
            pinned = (\<lambda>i. case map_of counts i of None \<Rightarrow> 0 | Some c \<Rightarrow> c);
            (ms, limited, _) = plan_moves tw (rq_max_moves_per_node rq) pinned
                                 (sort_key_desc load_ratio over) (receiver_slots tw under)
        in Inr (\<lparr>rp_overloaded = map n_node_id over, rp_underloaded = map n_node_id under,
                 rp_total = sum_list (map m_peers ms), rp_moves = ms\<rparr>,
                log_event ''rebalance.plan.generated'' ''info'' None
                  (JObj [(''high_watermark'', JFloat (rq_high_watermark rq)), (''target_watermark'', JFloat tw),
                         (''moves'', JList (map move_json ms)),
                         (''enterprise_pinned_by_node'', JObj (map (\<lambda>(i, c). (i, JInt c)) counts)),
                         (''pinned_limited_nodes'', JList (map JStr limited))]) d))"

text \<open>The edges the topology graph suggests: the same loop with nothing pinned.\<close>

definition graph_rebalance_edges :: "topology \<Rightarrow> rat \<Rightarrow> rat \<Rightarrow> int \<Rightarrow> move list" where
  "graph_rebalance_edges topo hw tw mm =
     fst (plan_moves tw mm (\<lambda>_. 0) (sort_key_desc load_ratio (overloaded_nodes hw (t_nodes topo)))
            (receiver_slots tw (underloaded_nodes tw (t_nodes topo))))"

subsection \<open>Failover\<close>

definition failed_node :: "node \<Rightarrow> bool" where
  "failed_node n \<longleftrightarrow> n_status n = ''unhealthy'' \<or> n_health_score n < 1/2"

definition fallback_candidate :: "node \<Rightarrow> bool" where
  "fallback_candidate n \<longleftrightarrow> n_status n \<in> {''healthy'', ''degraded''} \<and> \<not> n_is_draining n
     \<and> n_peer_count n < n_max_peers n"

definition choose_fallback :: "settings \<Rightarrow> (string \<Rightarrow> string option) \<Rightarrow> node list \<Rightarrow> node \<Rightarrow> node option" where
  "choose_fallback S regions candidates failed =
     max_key (calculate_node_score S)
       (preferring (\<lambda>c. regions (n_node_id c) = regions (n_node_id failed)) candidates)"

record failover =
  fo_failed :: "string list"
  fo_fallback :: "string list"
  fo_mappings :: "(string \<times> string option) list"

definition failover_step :: "settings \<Rightarrow> (string \<Rightarrow> string option) \<Rightarrow> node list \<Rightarrow> node
    \<Rightarrow> (string \<times> string option) list \<times> db \<Rightarrow> (string \<times> string option) list \<times> db" where
  "failover_step S regions candidates f = (\<lambda>(m, d).
     case choose_fallback S regions candidates f of
       None \<Rightarrow> (AList.update (n_node_id f) None m, d)
     | Some c \<Rightarrow> (AList.update (n_node_id f) (Some (n_node_id c)) m,
         log_event ''failover.candidate.selected'' ''warning'' (Some (n_node_id f))
           (JObj [(''failed_node_id'', JStr (n_node_id f)), (''fallback_node_id'', JStr (n_node_id c)),
                  (''same_region'', JBool (list_ex (\<lambda>x. regions (n_node_id x) = regions (n_node_id f)) candidates))]) d))"

definition evaluate_failover :: "settings \<Rightarrow> topology \<Rightarrow> db \<Rightarrow> failover \<times> db" where
  "evaluate_failover S topo d =
     (let regions = topology_regions d topo;
          failed = filter failed_node (t_nodes topo);
          candidates = filter fallback_candidate (t_nodes topo);
          (m, d') = fold (failover_step S regions candidates) failed ([], d)
      in (\<lparr>fo_failed = map n_node_id failed, fo_fallback = map n_node_id candidates, fo_mappings = m\<rparr>, d'))"

subsection \<open>Simulated placement\<close>

definition eligible_candidates :: "node list \<Rightarrow> string list \<Rightarrow> node list" where
  "eligible_candidates ns caps =
     filter (\<lambda>n. usable_status (n_status n) \<and> \<not> n_is_draining n \<and> n_peer_count n < n_max_peers n
                 \<and> \<not> n_health_score n < 1/2 \<and> has_capabilities caps n) ns"

text \<open>
  The latest fresh probe of each server; among several of the same time the database may
  return any, the model takes the first of the table.
\<close>

definition latest_probe_latency :: "settings \<Rightarrow> datetime \<Rightarrow> db \<Rightarrow> string \<Rightarrow> string list \<Rightarrow> string \<Rightarrow> rat option" where
  "latest_probe_latency S now d source_region ids i =
     (if source_region = [] \<or> ids = [] then None
      else map_option lp_latency_ms (max_key lp_probe_ts
        (filter (\<lambda>p. lp_source_region p = source_region \<and> lp_server_id p \<in> set ids \<and> lp_server_id p = i
                     \<and> lp_probe_ts p \<ge> now - seconds (control_plane_probe_fresh_seconds S)) (latency_probes d))))"

record placement_request =
  plr_preferred_region :: string
  plr_source_region :: string
  plr_use_latency_probes :: bool
  plr_required_capabilities :: "string list"
  plr_top_k :: int

record candidate =
  c_node_id :: string
  c_container_name :: string
  c_region :: string
  c_status :: string
  c_health_score :: rat
  c_peer_count :: int
  c_max_peers :: int
  c_free_slots :: int
  c_score :: rat
  c_effective_latency :: "rat option"
  c_latency_source :: string

definition latency_ms_penalty :: "settings \<Rightarrow> rat \<Rightarrow> rat" where
  "latency_ms_penalty S l = fmul (fdiv l 1000) (load_balancer_weight_latency S)"

definition rank_candidate :: "settings \<Rightarrow> (string \<Rightarrow> string option) \<Rightarrow> (string \<Rightarrow> rat option) \<Rightarrow> string \<Rightarrow> node \<Rightarrow> candidate" where
  "rank_candidate S regions probes source_region n =
     (let s0 = calculate_node_score S n;
          (s1, lat, src) = (case probes (n_node_id n) of
             None \<Rightarrow> (s0, n_latency_ms n, if n_latency_ms n \<noteq> None then ''runtime'' else ''none'')
           | Some probed \<Rightarrow>
               (fadd s0 (fsub (latency_ms_penalty S (case n_latency_ms n of None \<Rightarrow> 0 | Some l \<Rightarrow> l))
                              (latency_ms_penalty S probed)), Some probed, ''probe''));
          s2 = (if source_region \<noteq> [] \<and> regions (n_node_id n) = Some source_region
                then fadd s1 (control_plane_geo_region_affinity_bonus S) else s1)
      in \<lparr>c_node_id = n_node_id n, c_container_name = n_container_name n,
          c_region = (case regions (n_node_id n) of None \<Rightarrow> ''unknown'' | Some r \<Rightarrow> r),
          c_status = n_status n, c_health_score = n_health_score n,
          c_peer_count = n_peer_count n, c_max_peers = n_max_peers n,
          c_free_slots = max (n_max_peers n - n_peer_count n) 0, c_score = s2,
          c_effective_latency = lat, c_latency_source = src\<rparr>)"

record placement =
  po_selected :: "string option"
  po_fallback_used :: bool
  po_candidates :: "candidate list"

definition simulate_placement :: "settings \<Rightarrow> datetime \<Rightarrow> db \<Rightarrow> topology \<Rightarrow> placement_request \<Rightarrow> placement" where
  "simulate_placement S now d topo rq =
     (let ids = map n_node_id (t_nodes topo);
          regions = topology_regions d topo;
          probes = (if plr_use_latency_probes rq \<and> plr_source_region rq \<noteq> []
                    then latest_probe_latency S now d (plr_source_region rq) ids else (\<lambda>_. None));
          candidates = eligible_candidates (t_nodes topo) (plr_required_capabilities rq);
          in_region = filter (\<lambda>n. regions (n_node_id n) = Some (plr_preferred_region rq)) candidates;
          fallback = (plr_preferred_region rq \<noteq> [] \<and> in_region = [] \<and> candidates \<noteq> []);
          regional = (if plr_preferred_region rq \<noteq> [] \<and> in_region \<noteq> [] then in_region else candidates);
          ranked = sort_key_desc (\<lambda>c. (c_score c, c_free_slots c, c_node_id c))
                     (map (rank_candidate S regions probes (plr_source_region rq)) regional);
          top = take (nat (plr_top_k rq)) ranked
      in \<lparr>po_selected = (case top of [] \<Rightarrow> None | c # _ \<Rightarrow> Some (c_node_id c)),
          po_fallback_used = fallback, po_candidates = top\<rparr>)"

subsection \<open>The greedy loop\<close>

definition moved_to :: "string \<Rightarrow> move list \<Rightarrow> int" where
  "moved_to i ms = sum_list (map m_peers (filter (\<lambda>m. m_target m = i) ms))"

definition moved_from :: "string \<Rightarrow> move list \<Rightarrow> int" where
  "moved_from i ms = sum_list (map m_peers (filter (\<lambda>m. m_source m = i) ms))"

lemma moved_simps [simp]:
  "moved_to i [] = 0" "moved_from i [] = 0"
  "moved_to i (m # ms) = (if m_target m = i then m_peers m else 0) + moved_to i ms"
  "moved_from i (m # ms) = (if m_source m = i then m_peers m else 0) + moved_from i ms"
  "moved_to i (ms @ ms') = moved_to i ms + moved_to i ms'"
  "moved_from i (ms @ ms') = moved_from i ms + moved_from i ms'"
  by (simp_all add: moved_to_def moved_from_def)

definition free_slots :: "slots \<Rightarrow> string \<Rightarrow> int" where
  "free_slots slots i = (case map_of slots i of None \<Rightarrow> 0 | Some f \<Rightarrow> f)"

definition slots_ok :: "slots \<Rightarrow> bool" where
  "slots_ok slots \<longleftrightarrow> distinct (map fst slots) \<and> (\<forall>i. 0 \<le> free_slots slots i)"

lemma free_slots_update [simp]: "free_slots (AList.update k v slots) i = (if i = k then v else free_slots slots i)"
  by (simp add: free_slots_def update_conv')

lemma slots_ok_update: "slots_ok slots \<Longrightarrow> 0 \<le> v \<Longrightarrow> slots_ok (AList.update k v slots)"
  by (simp add: slots_ok_def distinct_update)

lemma slot_in: "slots_ok slots \<Longrightarrow> (i, f) \<in> set slots \<Longrightarrow> free_slots slots i = f"
  by (simp add: slots_ok_def free_slots_def)

text \<open>What one run of the inner loop does to the slots, and what it leaves.\<close>

lemma distribute_spec:
  assumes "slots_ok slots" "distribute src pending slots = (ms, slots')"
  shows "slots_ok slots' \<and> (\<forall>i. free_slots slots' i = free_slots slots i - moved_to i ms)
     \<and> map fst slots' = map fst slots
     \<and> (\<forall>m\<in>set ms. m_source m = src \<and> m_target m \<noteq> src \<and> m_target m \<in> fst ` set slots \<and> 0 < m_peers m)
     \<and> moved_from src ms \<le> max pending 0 \<and> 0 \<le> moved_from src ms
     \<and> (moved_from src ms = max pending 0 \<or> (\<forall>i. i \<noteq> src \<longrightarrow> free_slots slots' i = 0))"
  using assms
proof (induction src pending slots arbitrary: ms slots' rule: distribute.induct)
  case (1 src pending slots)
  let ?pool = "filter (\<lambda>(i, free). free > 0 \<and> i \<noteq> src) slots"
  show ?case
  proof (cases "pending \<le> 0")
    case True
    with 1 show ?thesis by (simp add: distribute.simps[of src pending])
  next
    case pos: False
    show ?thesis
    proof (cases "max_key snd ?pool")
      case None
      have "free_slots slots i = 0" if "i \<noteq> src" for i
      proof (cases "map_of slots i")
        case (Some f)
        then have "(i, f) \<in> set slots" by (rule map_of_SomeD)
        with None that have "\<not> 0 < f" by (auto simp: filter_empty_conv)
        with Some 1(2) show ?thesis by (auto simp: slots_ok_def free_slots_def dest: spec[of _ i])
      qed (simp add: free_slots_def)
      with 1 None pos show ?thesis by (simp add: distribute.simps[of src pending])
    next
      case (Some tf)
      obtain tgt free where tf: "tf = (tgt, free)" by fastforce
      have tin: "(tgt, free) \<in> set slots" "0 < free" "tgt \<noteq> src"
        using max_key_in[OF Some] tf by auto
      let ?moved = "min pending free" and ?slots1 = "AList.update tgt (free - min pending free) slots"
      have moved: "0 < ?moved" using pos tin by simp
      obtain ms1 where rec: "distribute src (pending - ?moved) ?slots1 = (ms1, slots')"
        and ms: "ms = \<lparr>m_source = src, m_target = tgt, m_peers = ?moved\<rparr> # ms1"
        using 1(3) pos Some tf moved by (auto simp: distribute.simps[of src pending] Let_def split: prod.splits)
      have ok1: "slots_ok ?slots1" by (rule slots_ok_update[OF 1(2)]) simp
      have free: "free_slots slots tgt = free" by (rule slot_in[OF 1(2) tin(1)])
      have keys: "map fst ?slots1 = map fst slots"
        using imageI[OF tin(1), of fst] by (simp add: update_keys)
      then have fsts: "fst ` set ?slots1 = fst ` set slots" by (metis set_map)
      have nm: "\<not> ?moved \<le> 0" unfolding not_le by (fact moved)
      from 1(1)[OF pos Some tf[symmetric] refl nm ok1 rec] have IH: "slots_ok slots' \<and> (\<forall>i. free_slots slots' i = free_slots ?slots1 i - moved_to i ms1)
          \<and> map fst slots' = map fst ?slots1
          \<and> (\<forall>m\<in>set ms1. m_source m = src \<and> m_target m \<noteq> src \<and> m_target m \<in> fst ` set ?slots1 \<and> 0 < m_peers m)
          \<and> moved_from src ms1 \<le> max (pending - ?moved) 0 \<and> 0 \<le> moved_from src ms1
          \<and> (moved_from src ms1 = max (pending - ?moved) 0 \<or> (\<forall>i. i \<noteq> src \<longrightarrow> free_slots slots' i = 0))"
        .
      have "moved_from src ms1 = max (pending - ?moved) 0 \<or> (\<forall>i. i \<noteq> src \<longrightarrow> free_slots slots' i = 0)"
        using IH by blast
      then have "moved_from src ms = max pending 0 \<or> (\<forall>i. i \<noteq> src \<longrightarrow> free_slots slots' i = 0)"
        using ms pos by auto
      moreover have "slots_ok slots' \<and> (\<forall>i. free_slots slots' i = free_slots slots i - moved_to i ms)
         \<and> map fst slots' = map fst slots
         \<and> (\<forall>m\<in>set ms. m_source m = src \<and> m_target m \<noteq> src \<and> m_target m \<in> fst ` set slots \<and> 0 < m_peers m)
         \<and> moved_from src ms \<le> max pending 0 \<and> 0 \<le> moved_from src ms"
        using IH ms free keys fsts tin moved pos imageI[OF tin(1), of fst] by auto
      ultimately show ?thesis by blast
    qed
  qed
qed

lemma moved_nonneg: "\<forall>m\<in>set ms. 0 < m_peers m \<Longrightarrow> 0 \<le> moved_to i ms \<and> 0 \<le> moved_from i ms"
  by (induction ms) auto

lemma moved_from_other: "\<forall>m\<in>set ms. m_source m \<noteq> i \<Longrightarrow> moved_from i ms = 0"
  by (induction ms) auto

lemma plan_moves_spec:
  assumes "slots_ok slots" "plan_moves tw mm pinned ss slots = (ms, lims, slots')" "distinct (map n_node_id ss)"
  shows "slots_ok slots' \<and> (\<forall>i. free_slots slots' i = free_slots slots i - moved_to i ms)
     \<and> (\<forall>m\<in>set ms. m_source m \<in> n_node_id ` set ss \<and> m_target m \<noteq> m_source m \<and> m_target m \<in> fst ` set slots \<and> 0 < m_peers m)
     \<and> (\<forall>s\<in>set ss. moved_from (n_node_id s) ms \<le> max (min (movable_peers tw pinned s) mm) 0
          \<and> (moved_from (n_node_id s) ms = max (min (movable_peers tw pinned s) mm) 0
             \<or> (\<forall>i. i \<noteq> n_node_id s \<longrightarrow> free_slots slots' i = 0)))"
  using assms
proof (induction ss arbitrary: slots ms lims slots')
  case (Cons s ss)
  let ?id = "n_node_id s" and ?p = "min (movable_peers tw pinned s) mm"
  obtain ms1 slots1 where d: "distribute ?id ?p slots = (ms1, slots1)" by fastforce
  obtain ms2 lims2 where p: "plan_moves tw mm pinned ss slots1 = (ms2, lims2, slots')"
    and ms: "ms = ms1 @ ms2" using Cons.prems(2) d by (auto simp: Let_def split: prod.splits)
  note D = distribute_spec[OF Cons.prems(1) d]
  from D have ok1: "slots_ok slots1" and keys: "fst ` set slots1 = fst ` set slots" by (metis set_map)+
  have dist: "distinct (map n_node_id ss)" using Cons.prems(3) by simp
  note P = Cons.IH[OF ok1 p dist]
  have src2: "\<forall>m\<in>set ms2. m_source m \<in> n_node_id ` set ss" using P by blast
  have "?id \<notin> n_node_id ` set ss" using Cons.prems(3) by simp
  then have other: "moved_from ?id ms2 = 0" using src2 by (intro moved_from_other) metis
  have own: "moved_from (n_node_id x) ms1 = 0" if "x \<in> set ss" for x
    using D that Cons.prems(3) by (intro moved_from_other) (auto simp: image_iff)
  have shrink: "0 \<le> free_slots slots' i \<and> free_slots slots' i \<le> free_slots slots1 i" for i
    using P moved_nonneg[of ms2 i] by (auto simp: slots_ok_def)
  have head: "moved_from ?id ms \<le> max ?p 0 \<and> (moved_from ?id ms = max ?p 0 \<or> (\<forall>i. i \<noteq> ?id \<longrightarrow> free_slots slots' i = 0))"
  proof -
    have "moved_from ?id ms = moved_from ?id ms1" by (simp add: ms other)
    moreover have "free_slots slots' i = 0" if "free_slots slots1 i = 0" for i using shrink[of i] that by simp
    ultimately show ?thesis using D by auto
  qed
  have tail: "moved_from (n_node_id x) ms \<le> max (min (movable_peers tw pinned x) mm) 0
      \<and> (moved_from (n_node_id x) ms = max (min (movable_peers tw pinned x) mm) 0 \<or> (\<forall>i. i \<noteq> n_node_id x \<longrightarrow> free_slots slots' i = 0))"
    if "x \<in> set ss" for x
  proof -
    have "moved_from (n_node_id x) ms = moved_from (n_node_id x) ms2" using own[OF that] by (simp add: ms)
    moreover from P have "\<forall>s\<in>set ss. moved_from (n_node_id s) ms2 \<le> max (min (movable_peers tw pinned s) mm) 0
        \<and> (moved_from (n_node_id s) ms2 = max (min (movable_peers tw pinned s) mm) 0
          \<or> (\<forall>i. i \<noteq> n_node_id s \<longrightarrow> free_slots slots' i = 0))" by (elim conjE)
    ultimately show ?thesis using that by (simp only:)
  qed
  have "\<forall>i. free_slots slots' i = free_slots slots i - moved_to i ms" using D P by (simp add: ms)
  moreover have "\<forall>m\<in>set ms. m_source m \<in> n_node_id ` set (s # ss) \<and> m_target m \<noteq> m_source m \<and> m_target m \<in> fst ` set slots \<and> 0 < m_peers m"
    using D P keys by (auto simp: ms)
  ultimately show ?case using P head tail by simp
qed simp

lemma receiver_slots_ok:
  "slots_ok (receiver_slots tw ns)" "fst ` set (receiver_slots tw ns) = n_node_id ` set ns"
  "distinct (map n_node_id ns) \<Longrightarrow> n \<in> set ns \<Longrightarrow>
     free_slots (receiver_slots tw ns) (n_node_id n) = max (target_peers tw n - n_peer_count n) 0"
proof -
  let ?f = "\<lambda>n m. AList.update (n_node_id n) (max (target_peers tw n - n_peer_count n) 0) m"
  have "slots_ok m \<Longrightarrow> slots_ok (fold ?f ns m)" for m
    by (induction ns arbitrary: m) (simp_all add: slots_ok_update)
  then show "slots_ok (receiver_slots tw ns)" unfolding receiver_slots_def
    by (simp add: slots_ok_def free_slots_def)
  have "fst ` set (fold ?f ns m) = n_node_id ` set ns \<union> fst ` set m" for m
    by (induction ns arbitrary: m) (auto simp: update_conv' simp flip: dom_map_of_conv_image_fst)
  then show "fst ` set (receiver_slots tw ns) = n_node_id ` set ns" by (simp add: receiver_slots_def)
  have keep: "i \<notin> n_node_id ` set ns \<Longrightarrow> free_slots (fold ?f ns m) i = free_slots m i" for i m
    by (induction ns arbitrary: m) auto
  have "distinct (map n_node_id ns) \<Longrightarrow> n \<in> set ns \<Longrightarrow>
      free_slots (fold ?f ns m) (n_node_id n) = max (target_peers tw n - n_peer_count n) 0" for m
  proof (induction ns arbitrary: m)
    case (Cons a ns)
    have keep: "i \<notin> n_node_id ` set ns \<Longrightarrow> free_slots (fold ?f ns m) i = free_slots m i" for i m
      by (induction ns arbitrary: m) auto
    show ?case using Cons keep[of "n_node_id n"] by (cases "n = a") auto
  qed simp
  then show "distinct (map n_node_id ns) \<Longrightarrow> n \<in> set ns \<Longrightarrow>
     free_slots (receiver_slots tw ns) (n_node_id n) = max (target_peers tw n - n_peer_count n) 0"
    unfolding receiver_slots_def .
qed

lemma target_peers_bounds:
  assumes "0 \<le> tw" "tw \<le> 1" "0 \<le> n_max_peers n" "n_max_peers n \<le> 2 ^ 53"
  shows "0 \<le> target_peers tw n \<and> target_peers tw n \<le> n_max_peers n"
proof -
  have "float_of_int (n_max_peers n) = of_int (n_max_peers n)"
    using assms by (simp add: float_of_int_def fl_of_int)
  then show ?thesis
    using b64.rnd_scale_le[OF assms(3,4,1,2)] by (simp add: target_peers_def fmul_def int_of_float_nonneg int_of_float_le)
qed

text \<open>The plan as a whole, in one elimination rule.\<close>

lemma plan_rebalance_cases:
  assumes "plan_rebalance S topo rq d = Inr (plan, d')"
  obtains pinned lims slots' where
    "rq_target_watermark rq < rq_high_watermark rq"
    "rp_overloaded plan = map n_node_id (overloaded_nodes (rq_high_watermark rq) (t_nodes topo))"
    "rp_underloaded plan = map n_node_id (underloaded_nodes (rq_target_watermark rq) (t_nodes topo))"
    "rp_total plan = sum_list (map m_peers (rp_moves plan))"
    "pinned = (\<lambda>i. case map_of (enterprise_pinned_counts S d (rp_overloaded plan)) i of None \<Rightarrow> 0 | Some c \<Rightarrow> c)"
    "plan_moves (rq_target_watermark rq) (rq_max_moves_per_node rq) pinned
       (sort_key_desc load_ratio (overloaded_nodes (rq_high_watermark rq) (t_nodes topo)))
       (receiver_slots (rq_target_watermark rq) (underloaded_nodes (rq_target_watermark rq) (t_nodes topo)))
       = (rp_moves plan, lims, slots')"
    "\<exists>pl. d' = log_event ''rebalance.plan.generated'' ''info'' None pl d"
proof -
  let ?over = "overloaded_nodes (rq_high_watermark rq) (t_nodes topo)"
  let ?pinned = "\<lambda>i. case map_of (enterprise_pinned_counts S d (map n_node_id ?over)) i of None \<Rightarrow> 0 | Some c \<Rightarrow> c"
  obtain ms lims slots' where pm: "plan_moves (rq_target_watermark rq) (rq_max_moves_per_node rq) ?pinned
       (sort_key_desc load_ratio ?over)
       (receiver_slots (rq_target_watermark rq) (underloaded_nodes (rq_target_watermark rq) (t_nodes topo)))
       = (ms, lims, slots')" by (rule prod_cases3)
  have w: "rq_target_watermark rq < rq_high_watermark rq"
    using assms by (auto simp: plan_rebalance_def split: if_splits)
  then show ?thesis using assms pm
    by (intro that[of ?pinned lims slots']) (auto simp: plan_rebalance_def Let_def)
qed

lemma distinct_sources:
  "distinct (map n_node_id ns) \<Longrightarrow> distinct (map n_node_id (sort_key_desc load_ratio (overloaded_nodes hw ns)))"
proof -
  assume "distinct (map n_node_id ns)"
  then have "distinct (map n_node_id (overloaded_nodes hw ns))"
    unfolding overloaded_nodes_def by (rule distinct_map_filter)
  then show ?thesis
    by (metis mset_map mset_eq_imp_distinct_iff mset_sort_key_desc)
qed

lemma request_bounds:
  assumes "make_rebalance_request hw tw mm = Inr rq"
  shows "rq = \<lparr>rq_high_watermark = hw, rq_target_watermark = tw, rq_max_moves_per_node = mm\<rparr>"
    "0 \<le> tw" "tw \<le> 1" "1 \<le> mm"
proof -
  have "0 \<le> fl (2/10)" "fl (9/10) \<le> 1" by code_simp+
  with assms show "rq = \<lparr>rq_high_watermark = hw, rq_target_watermark = tw, rq_max_moves_per_node = mm\<rparr>"
    "0 \<le> tw" "tw \<le> 1" "1 \<le> mm"
    by (auto simp: make_rebalance_request_def split: if_splits)
qed

lemma plan_rebalance_spec:
  assumes "plan_rebalance S topo rq d = Inr (plan, d')" "distinct (map n_node_id (t_nodes topo))"
  obtains pinned slots' where
    "pinned = (\<lambda>i. case map_of (enterprise_pinned_counts S d (rp_overloaded plan)) i of None \<Rightarrow> 0 | Some c \<Rightarrow> c)"
    "slots_ok slots'"
    "\<forall>n\<in>set (underloaded_nodes (rq_target_watermark rq) (t_nodes topo)).
        free_slots slots' (n_node_id n) = max (target_peers (rq_target_watermark rq) n - n_peer_count n) 0 - moved_to (n_node_id n) (rp_moves plan)"
    "\<forall>m\<in>set (rp_moves plan). m_source m \<in> set (rp_overloaded plan) \<and> m_target m \<noteq> m_source m
        \<and> m_target m \<in> set (rp_underloaded plan) \<and> 0 < m_peers m"
    "\<forall>s\<in>set (overloaded_nodes (rq_high_watermark rq) (t_nodes topo)).
        moved_from (n_node_id s) (rp_moves plan) \<le> max (min (movable_peers (rq_target_watermark rq) pinned s) (rq_max_moves_per_node rq)) 0
        \<and> (moved_from (n_node_id s) (rp_moves plan) = max (min (movable_peers (rq_target_watermark rq) pinned s) (rq_max_moves_per_node rq)) 0
           \<or> (\<forall>i. i \<noteq> n_node_id s \<longrightarrow> free_slots slots' i = 0))"
  using assms(1)
proof (cases rule: plan_rebalance_cases)
  case (1 pinned lims slots')
  let ?under = "underloaded_nodes (rq_target_watermark rq) (t_nodes topo)"
  have under: "distinct (map n_node_id ?under)"
    unfolding underloaded_nodes_def by (rule distinct_map_filter[OF assms(2)])
  note P = plan_moves_spec[OF receiver_slots_ok(1) 1(6) distinct_sources[OF assms(2)]]
  show ?thesis
  proof (rule that[OF 1(5)])
    show "slots_ok slots'" using P by blast
    show "\<forall>n\<in>set ?under. free_slots slots' (n_node_id n)
        = max (target_peers (rq_target_watermark rq) n - n_peer_count n) 0 - moved_to (n_node_id n) (rp_moves plan)"
      using P receiver_slots_ok(3)[OF under] by simp
    show "\<forall>m\<in>set (rp_moves plan). m_source m \<in> set (rp_overloaded plan) \<and> m_target m \<noteq> m_source m
        \<and> m_target m \<in> set (rp_underloaded plan) \<and> 0 < m_peers m"
      using P 1(2,3) receiver_slots_ok(2)[of "rq_target_watermark rq" ?under] by simp
  qed (use P in auto)
qed

subsection \<open>Properties\<close>

definition sample_request :: rebalance_request where
  "sample_request = \<lparr>rq_high_watermark = fl (85/100), rq_target_watermark = fl (65/100), rq_max_moves_per_node = 20\<rparr>"

definition sample_nodes :: "node list" where
  "sample_nodes = [sample_node ''a'' 95 1, sample_node ''b'' 50 1, sample_node ''c'' 60 1]"

definition sample_cluster :: topology where
  "sample_cluster = \<lparr>t_timestamp = 0, t_nodes = sample_nodes, t_total_capacity = 300, t_current_load = 205,
     t_load_factor = 0, t_load_index = 0, t_health_score = 1, t_health_index = 1, t_capacity_score = 0, t_version = 1\<rparr>"

definition sample_plan :: rebalance_plan where
  "sample_plan = \<lparr>rp_overloaded = [''a''], rp_underloaded = [''b'', ''c''], rp_total = 20,
     rp_moves = [\<lparr>m_source = ''a'', m_target = ''b'', m_peers = 15\<rparr>, \<lparr>m_source = ''a'', m_target = ''c'', m_peers = 5\<rparr>]\<rparr>"

lemma sample_plan_run:
  "\<exists>d'. plan_rebalance default_settings sample_cluster sample_request empty_db = Inr (sample_plan, d')"
proof -
  have "case plan_rebalance default_settings sample_cluster sample_request empty_db of Inl _ \<Rightarrow> False
    | Inr (p, _) \<Rightarrow> p = sample_plan" by code_simp
  then show ?thesis by (auto split: sum.splits)
qed

lemma sample_request_valid: "make_rebalance_request (fl (85/100)) (fl (65/100)) 20 = Inr sample_request"
  by code_simp

text \<open>C15. Every move of a rebalance plan takes a positive number of peers from an overloaded node
  to a different, underloaded one; none of them is draining or in a bad state; and the total is
  the sum of the moves.\<close>

theorem rebalance_moves_sound:
  assumes "plan_rebalance S topo rq d = Inr (plan, d')" "distinct (map n_node_id (t_nodes topo))"
  shows "rp_total plan = sum_list (map m_peers (rp_moves plan))
     \<and> (\<forall>m\<in>set (rp_moves plan). 0 < m_peers m \<and> m_source m \<noteq> m_target m
         \<and> (\<exists>s\<in>set (t_nodes topo). n_node_id s = m_source m \<and> rebalanceable s \<and> rq_high_watermark rq \<le> load_ratio s)
         \<and> (\<exists>t\<in>set (t_nodes topo). n_node_id t = m_target m \<and> rebalanceable t \<and> load_ratio t < rq_target_watermark rq))"
proof -
  from assms(1) have lists: "rp_overloaded plan = map n_node_id (overloaded_nodes (rq_high_watermark rq) (t_nodes topo))"
    "rp_underloaded plan = map n_node_id (underloaded_nodes (rq_target_watermark rq) (t_nodes topo))"
    "rp_total plan = sum_list (map m_peers (rp_moves plan))" by (cases rule: plan_rebalance_cases, blast)+
  show ?thesis using assms
  proof (cases rule: plan_rebalance_spec)
    case (1 pinned slots')
    have "i \<in> set (rp_overloaded plan) \<Longrightarrow> \<exists>s\<in>set (t_nodes topo). n_node_id s = i \<and> rebalanceable s \<and> rq_high_watermark rq \<le> load_ratio s"
      "i \<in> set (rp_underloaded plan) \<Longrightarrow> \<exists>t\<in>set (t_nodes topo). n_node_id t = i \<and> rebalanceable t \<and> load_ratio t < rq_target_watermark rq" for i
      using lists(1,2) by (auto simp: overloaded_nodes_def underloaded_nodes_def)
    with 1(4) lists(3) show ?thesis by metis
  qed
qed

theorem rebalance_moves_sound_witness:
  "rp_total sample_plan = sum_list (map m_peers (rp_moves sample_plan)) \<and> list_all (\<lambda>m. 0 < m_peers m \<and> m_source m \<noteq> m_target m) (rp_moves sample_plan)"
proof -
  obtain d' where "plan_rebalance default_settings sample_cluster sample_request empty_db = Inr (sample_plan, d')"
    using sample_plan_run by blast
  moreover have "distinct (map n_node_id (t_nodes sample_cluster))" by code_simp
  ultimately show ?thesis unfolding list_all_iff using rebalance_moves_sound by blast
qed

text \<open>C16. Receivers are not overfilled: after all moves of the plan a node that receives peers has at
  most the target share of its capacity, computed in binary64, and hence at most its capacity.\<close>

theorem rebalance_receivers_fit:
  assumes "make_rebalance_request hw tw mm = Inr rq" "plan_rebalance S topo rq d = Inr (plan, d')"
    and "distinct (map n_node_id (t_nodes topo))" "n \<in> set (t_nodes topo)" "n_max_peers n \<le> 2 ^ 53"
    and "0 < moved_to (n_node_id n) (rp_moves plan)"
  shows "n_peer_count n + moved_to (n_node_id n) (rp_moves plan) \<le> target_peers tw n \<and> target_peers tw n \<le> n_max_peers n"
proof -
  note rq = request_bounds[OF assms(1)]
  from assms(2) have under: "rp_underloaded plan = map n_node_id (underloaded_nodes tw (t_nodes topo))"
    by (cases rule: plan_rebalance_cases) (simp add: rq(1))
  show ?thesis using assms(2,3)
  proof (cases rule: plan_rebalance_spec)
    case (1 pinned slots')
    have "n_node_id n \<in> set (rp_underloaded plan)"
    proof (rule ccontr)
      assume "n_node_id n \<notin> set (rp_underloaded plan)"
      with 1(4) have "filter (\<lambda>m. m_target m = n_node_id n) (rp_moves plan) = []" by (auto simp: filter_empty_conv)
      with assms(6) show False by (simp add: moved_to_def)
    qed
    then have n: "n \<in> set (underloaded_nodes tw (t_nodes topo))"
      using under assms(3,4) unique_on_key[of n_node_id "t_nodes topo" n]
      by (auto simp: unique_on_def underloaded_nodes_def)
    then have "free_slots slots' (n_node_id n) = max (target_peers tw n - n_peer_count n) 0 - moved_to (n_node_id n) (rp_moves plan)"
      using 1(3) rq(1) by simp
    moreover have "0 \<le> free_slots slots' (n_node_id n)" using 1(2) by (simp add: slots_ok_def)
    moreover have "0 \<le> n_max_peers n" using n by (simp add: underloaded_nodes_def rebalanceable_def)
    ultimately show ?thesis using assms(5,6) target_peers_bounds[OF rq(2,3)] by (auto simp: max_def split: if_splits)
  qed
qed

theorem rebalance_receivers_fit_witness:
  "50 + moved_to ''b'' (rp_moves sample_plan) \<le> target_peers (fl (65/100)) (sample_node ''b'' 50 1)"
proof -
  obtain d' where run: "plan_rebalance default_settings sample_cluster sample_request empty_db = Inr (sample_plan, d')"
    using sample_plan_run by blast
  have "distinct (map n_node_id (t_nodes sample_cluster))" "sample_node ''b'' 50 1 \<in> set (t_nodes sample_cluster)"
    "0 < moved_to (n_node_id (sample_node ''b'' 50 1)) (rp_moves sample_plan)" by code_simp+
  moreover have "n_max_peers (sample_node ''b'' 50 1) \<le> 2 ^ 53" by (simp add: sample_node_def)
  moreover have "n_peer_count (sample_node ''b'' 50 1) = 50" "n_node_id (sample_node ''b'' 50 1) = ''b''" by (simp_all add: sample_node_def)
  ultimately show ?thesis using rebalance_receivers_fit[OF sample_request_valid run, of "sample_node ''b'' 50 1"] by simp
qed

text \<open>Sources are drained within limits: a node gives up at most the configured number of moves,
  and never so many that fewer than its target share plus its pinned enterprise peers remain.\<close>

theorem rebalance_sources_keep:
  assumes "make_rebalance_request hw tw mm = Inr rq" "plan_rebalance S topo rq d = Inr (plan, d')"
    and "distinct (map n_node_id (t_nodes topo))" "s \<in> set (t_nodes topo)"
    and "0 < moved_from (n_node_id s) (rp_moves plan)"
    and "pinned = (case map_of (enterprise_pinned_counts S d (rp_overloaded plan)) (n_node_id s) of None \<Rightarrow> 0 | Some c \<Rightarrow> c)"
  shows "moved_from (n_node_id s) (rp_moves plan) \<le> mm
     \<and> target_peers tw s + max pinned 0 \<le> n_peer_count s - moved_from (n_node_id s) (rp_moves plan)"
proof -
  note rq = request_bounds[OF assms(1)]
  from assms(2) have over: "rp_overloaded plan = map n_node_id (overloaded_nodes hw (t_nodes topo))"
    by (cases rule: plan_rebalance_cases) (simp add: rq(1))
  show ?thesis using assms(2,3)
  proof (cases rule: plan_rebalance_spec)
    case (1 pin slots')
    have "n_node_id s \<in> set (rp_overloaded plan)"
    proof (rule ccontr)
      assume "n_node_id s \<notin> set (rp_overloaded plan)"
      with 1(4) have "\<forall>m\<in>set (rp_moves plan). m_source m \<noteq> n_node_id s" by auto
      with assms(5) moved_from_other show False by fastforce
    qed
    then have "s \<in> set (overloaded_nodes hw (t_nodes topo))"
      using over assms(3,4) unique_on_key[of n_node_id "t_nodes topo" s]
      by (auto simp: unique_on_def overloaded_nodes_def)
    then have "moved_from (n_node_id s) (rp_moves plan) \<le> max (min (movable_peers tw pin s) mm) 0"
      using 1(5) rq(1) by simp
    then show ?thesis using assms(5,6) 1(1) by (auto simp: movable_peers_def max_def min_def split: if_splits)
  qed
qed

theorem rebalance_sources_keep_witness:
  "moved_from ''a'' (rp_moves sample_plan) \<le> 20 \<and> target_peers (fl (65/100)) (sample_node ''a'' 95 1) + max 0 0 \<le> 95 - moved_from ''a'' (rp_moves sample_plan)"
proof -
  obtain d' where run: "plan_rebalance default_settings sample_cluster sample_request empty_db = Inr (sample_plan, d')"
    using sample_plan_run by blast
  have "distinct (map n_node_id (t_nodes sample_cluster))" "sample_node ''a'' 95 1 \<in> set (t_nodes sample_cluster)"
    "0 < moved_from (n_node_id (sample_node ''a'' 95 1)) (rp_moves sample_plan)"
    "0 = (case map_of (enterprise_pinned_counts default_settings empty_db (rp_overloaded sample_plan)) (n_node_id (sample_node ''a'' 95 1)) of None \<Rightarrow> 0 | Some c \<Rightarrow> c)"
    by code_simp+
  moreover have "n_peer_count (sample_node ''a'' 95 1) = 95" "n_node_id (sample_node ''a'' 95 1) = ''a''" by (simp_all add: sample_node_def)
  ultimately show ?thesis using rebalance_sources_keep[OF sample_request_valid run, of "sample_node ''a'' 95 1"] by simp
qed

text \<open>C17. The plan is as large as its limits allow: a source of the plan gives up all its movable
  peers (up to the limit per node), unless every other receiver was filled up to its target.\<close>

theorem rebalance_uses_capacity:
  assumes "make_rebalance_request hw tw mm = Inr rq" "plan_rebalance S topo rq d = Inr (plan, d')"
    and "distinct (map n_node_id (t_nodes topo))" "s \<in> set (overloaded_nodes hw (t_nodes topo))"
    and "pinned = (\<lambda>i. case map_of (enterprise_pinned_counts S d (rp_overloaded plan)) i of None \<Rightarrow> 0 | Some c \<Rightarrow> c)"
  shows "moved_from (n_node_id s) (rp_moves plan) = min (movable_peers tw pinned s) mm
     \<or> (\<forall>n\<in>set (underloaded_nodes tw (t_nodes topo)). n_node_id n \<noteq> n_node_id s \<longrightarrow>
          target_peers tw n \<le> n_peer_count n + moved_to (n_node_id n) (rp_moves plan))"
proof -
  note rq = request_bounds[OF assms(1)]
  have nonneg: "0 \<le> min (movable_peers tw pinned s) mm" using rq(4) by (simp add: movable_peers_def)
  show ?thesis using assms(2,3)
  proof (cases rule: plan_rebalance_spec)
    case (1 pin slots')
    have "pin = pinned" using 1(1) assms(5) by simp
    with 1(5) assms(4) rq(1) nonneg consider
      "moved_from (n_node_id s) (rp_moves plan) = min (movable_peers tw pinned s) mm"
      | "\<forall>i. i \<noteq> n_node_id s \<longrightarrow> free_slots slots' i = 0" by fastforce
    then show ?thesis
    proof cases
      case 2
      have "target_peers tw n \<le> n_peer_count n + moved_to (n_node_id n) (rp_moves plan)"
        if "n \<in> set (underloaded_nodes tw (t_nodes topo))" "n_node_id n \<noteq> n_node_id s" for n
        using 1(3) 2 that rq(1) by (auto simp: max_def split: if_splits)
      then show ?thesis by blast
    qed simp
  qed
qed

theorem rebalance_uses_capacity_witness:
  "moved_from ''a'' (rp_moves sample_plan) = 20 \<or> (\<forall>n\<in>set (underloaded_nodes (fl (65/100)) sample_nodes). n_node_id n \<noteq> ''a'' \<longrightarrow>
          target_peers (fl (65/100)) n \<le> n_peer_count n + moved_to (n_node_id n) (rp_moves sample_plan))"
proof -
  obtain d' where run: "plan_rebalance default_settings sample_cluster sample_request empty_db = Inr (sample_plan, d')"
    using sample_plan_run by blast
  have "distinct (map n_node_id (t_nodes sample_cluster))"
    "sample_node ''a'' 95 1 \<in> set (overloaded_nodes (fl (85/100)) (t_nodes sample_cluster))" by code_simp+
  from rebalance_uses_capacity[OF sample_request_valid run this refl] show ?thesis
    by (auto simp: sample_cluster_def sample_node_def sample_plan_def)
qed

lemma failover_fold:
  assumes "distinct (map n_node_id fs)" "f \<in> set fs"
  shows "map_of (fst (fold (failover_step S regions cands) fs (m, d))) (n_node_id f)
     = Some (map_option n_node_id (choose_fallback S regions cands f))"
  using assms
proof (induction fs arbitrary: m d)
  case (Cons a fs)
  have step: "fst (failover_step S regions cands a (m, d)) = AList.update (n_node_id a) (map_option n_node_id (choose_fallback S regions cands a)) m"
    by (simp add: failover_step_def split: option.split)
  have keep: "n_node_id x \<notin> n_node_id ` set fs \<Longrightarrow> map_of (fst (fold (failover_step S regions cands) fs (m, d))) (n_node_id x) = map_of m (n_node_id x)" for x m d
  proof (induction fs arbitrary: m d)
    case (Cons b fs)
    obtain m' d' where md: "failover_step S regions cands b (m, d) = (m', d')" by fastforce
    then have "map_of m' (n_node_id x) = map_of m (n_node_id x)"
      using Cons.prems by (auto simp: failover_step_def update_conv' split: option.splits)
    with Cons md show ?case by simp
  qed simp
  obtain m' d' where md: "failover_step S regions cands a (m, d) = (m', d')" by fastforce
  show ?case
  proof (cases "f = a")
    case True
    have "m' = AList.update (n_node_id a) (map_option n_node_id (choose_fallback S regions cands a)) m" using step md by simp
    with True md keep[of a m' d'] Cons.prems show ?thesis by (simp add: update_conv')
  next
    case False
    with Cons md show ?thesis by simp
  qed
qed simp

text \<open>C18. The failover map: every failed node is mapped, to no node exactly when there is no candidate,
  otherwise to a node that is neither draining nor full, in the same region whenever a candidate of
  that region exists, and no candidate of the pool it was taken from scores higher.\<close>

theorem failover_targets_best:
  assumes "evaluate_failover S topo d = (fo, d')" "distinct (map n_node_id (t_nodes topo))"
    and "f \<in> set (t_nodes topo)" "failed_node f" "regions = topology_regions d topo"
  shows "\<exists>target. map_of (fo_mappings fo) (n_node_id f) = Some (map_option n_node_id target)
     \<and> (case target of
          None \<Rightarrow> (\<forall>c\<in>set (t_nodes topo). \<not> fallback_candidate c)
        | Some c \<Rightarrow> c \<in> set (t_nodes topo) \<and> fallback_candidate c
            \<and> ((\<exists>x\<in>set (t_nodes topo). fallback_candidate x \<and> regions (n_node_id x) = regions (n_node_id f))
                 \<longrightarrow> regions (n_node_id c) = regions (n_node_id f))
            \<and> (\<forall>x\<in>set (t_nodes topo). fallback_candidate x
                 \<and> (regions (n_node_id x) = regions (n_node_id f) \<longleftrightarrow> regions (n_node_id c) = regions (n_node_id f))
                 \<longrightarrow> calculate_node_score S x \<le> calculate_node_score S c))"
proof -
  let ?cands = "filter fallback_candidate (t_nodes topo)" and ?fs = "filter failed_node (t_nodes topo)"
  have "fo_mappings fo = fst (fold (failover_step S regions ?cands) ?fs ([], d))"
    using assms(1,5) by (auto simp: evaluate_failover_def Let_def split: prod.splits)
  then have m: "map_of (fo_mappings fo) (n_node_id f) = Some (map_option n_node_id (choose_fallback S regions ?cands f))"
    using failover_fold[of ?fs f] assms(2-4) by (simp add: distinct_map_filter)
  show ?thesis
  proof (intro exI conjI, rule m)
    show "case choose_fallback S regions ?cands f of
          None \<Rightarrow> (\<forall>c\<in>set (t_nodes topo). \<not> fallback_candidate c)
        | Some c \<Rightarrow> c \<in> set (t_nodes topo) \<and> fallback_candidate c
            \<and> ((\<exists>x\<in>set (t_nodes topo). fallback_candidate x \<and> regions (n_node_id x) = regions (n_node_id f))
                 \<longrightarrow> regions (n_node_id c) = regions (n_node_id f))
            \<and> (\<forall>x\<in>set (t_nodes topo). fallback_candidate x
                 \<and> (regions (n_node_id x) = regions (n_node_id f) \<longleftrightarrow> regions (n_node_id c) = regions (n_node_id f))
                 \<longrightarrow> calculate_node_score S x \<le> calculate_node_score S c)"
    proof (cases "choose_fallback S regions ?cands f")
      case None
      then have "?cands = []" by (simp add: choose_fallback_def)
      then show ?thesis unfolding None option.case by (simp add: filter_empty_conv)
    next
      case (Some c)
      note best = max_preferring[OF Some[unfolded choose_fallback_def], unfolded set_filter mem_Collect_eq]
      show ?thesis unfolding Some option.case using best by blast
    qed
  qed
qed

definition sample_failing_cluster :: topology where
  "sample_failing_cluster = sample_cluster\<lparr>t_nodes := [sample_node ''a'' 95 0, sample_node ''b'' 50 1]\<rparr>"

theorem failover_targets_best_witness:
  "\<exists>target :: node option. map_of (fo_mappings (fst (evaluate_failover default_settings sample_failing_cluster empty_db))) (n_node_id (sample_node ''a'' 95 0))
     = Some (map_option n_node_id target) \<and> map_option n_node_id target = Some ''b''"
proof -
  let ?f = "sample_node ''a'' 95 0"
  have h: "distinct (map n_node_id (t_nodes sample_failing_cluster))" "?f \<in> set (t_nodes sample_failing_cluster)" "failed_node ?f"
    by code_simp+
  have "map_of (fo_mappings (fst (evaluate_failover default_settings sample_failing_cluster empty_db))) (n_node_id ?f) = Some (Some ''b'')"
    by code_simp
  moreover have "\<exists>target :: node option. map_of (fo_mappings (fst (evaluate_failover default_settings sample_failing_cluster empty_db))) (n_node_id ?f) = Some (map_option n_node_id target)"
    using failover_targets_best[OF surjective_pairing h refl, of default_settings empty_db] by (elim exE conjE) (rule exI)
  ultimately show ?thesis by (elim exE) (rule exI, simp)
qed

text \<open>A failed node can be its own fallback: a node that still reports itself degraded but has a
  health below one half counts both as failed and as a candidate, so that it is mapped to itself
  whenever it is the only candidate of its region.\<close>

theorem failover_self_mapping:
  assumes "distinct (map n_node_id (t_nodes topo))" "f \<in> set (t_nodes topo)"
    and "failed_node f" "fallback_candidate f"
    and "\<forall>x\<in>set (t_nodes topo). fallback_candidate x \<and> topology_regions d topo (n_node_id x) = topology_regions d topo (n_node_id f) \<longrightarrow> x = f"
  shows "map_of (fo_mappings (fst (evaluate_failover S topo d))) (n_node_id f) = Some (Some (n_node_id f))"
proof -
  let ?cands = "filter fallback_candidate (t_nodes topo)" and ?fs = "filter failed_node (t_nodes topo)"
  let ?r = "topology_regions d topo"
  have "fo_mappings (fst (evaluate_failover S topo d)) = fst (fold (failover_step S ?r ?cands) ?fs ([], d))"
    by (simp add: evaluate_failover_def Let_def split: prod.splits)
  then have m: "map_of (fo_mappings (fst (evaluate_failover S topo d))) (n_node_id f) = Some (map_option n_node_id (choose_fallback S ?r ?cands f))"
    using failover_fold[of ?fs f] assms(1-3) by (simp add: distinct_map_filter)
  obtain c where c: "choose_fallback S ?r ?cands f = Some c"
    using assms(2,4) by (cases "choose_fallback S ?r ?cands f") (auto simp: choose_fallback_def filter_empty_conv)
  have "f \<in> set ?cands" using assms(2,4) by simp
  with max_preferring[OF c[unfolded choose_fallback_def]]
  have "c \<in> set ?cands" "?r (n_node_id c) = ?r (n_node_id f)" by blast+
  then have "c = f" using assms(5) by simp
  with m c show ?thesis by simp
qed

theorem failover_self_mapping_witness:
  "let f = (sample_node ''a'' 95 (2/5))\<lparr>n_status := ''degraded''\<rparr>; topo = sample_cluster\<lparr>t_nodes := [f]\<rparr> in
   map_of (fo_mappings (fst (evaluate_failover default_settings topo empty_db))) (n_node_id f) = Some (Some (n_node_id f))"
  unfolding Let_def by (rule failover_self_mapping) code_simp+

lemma placement_pool:
  assumes "simulate_placement S now d topo rq = po"
  obtains pool rank where
    "set pool \<subseteq> set (eligible_candidates (t_nodes topo) (plr_required_capabilities rq))"
    "pool = [] \<longleftrightarrow> eligible_candidates (t_nodes topo) (plr_required_capabilities rq) = []"
    "\<forall>n. c_node_id (rank n) = n_node_id n \<and> c_free_slots (rank n) = max (n_max_peers n - n_peer_count n) 0"
    "po_candidates po = take (nat (plr_top_k rq)) (sort_key_desc (\<lambda>c. (c_score c, c_free_slots c, c_node_id c)) (map rank pool))"
    "po_selected po = (case po_candidates po of [] \<Rightarrow> None | c # _ \<Rightarrow> Some (c_node_id c))"
proof -
  let ?el = "eligible_candidates (t_nodes topo) (plr_required_capabilities rq)"
  let ?r = "topology_regions d topo" and ?in = "\<lambda>n. topology_regions d topo (n_node_id n) = Some (plr_preferred_region rq)"
  let ?probes = "if plr_use_latency_probes rq \<and> plr_source_region rq \<noteq> []
      then latest_probe_latency S now d (plr_source_region rq) (map n_node_id (t_nodes topo)) else (\<lambda>_. None)"
  let ?pool = "if plr_preferred_region rq \<noteq> [] \<and> filter ?in ?el \<noteq> [] then filter ?in ?el else ?el"
  show ?thesis
  proof (rule that[of ?pool "rank_candidate S ?r ?probes (plr_source_region rq)"])
    show "\<forall>n. c_node_id (rank_candidate S ?r ?probes (plr_source_region rq) n) = n_node_id n
      \<and> c_free_slots (rank_candidate S ?r ?probes (plr_source_region rq) n) = max (n_max_peers n - n_peer_count n) 0"
      by (simp add: rank_candidate_def Let_def split: option.split prod.split)
  qed (use assms in \<open>auto simp: simulate_placement_def Let_def split: if_splits\<close>)
qed


definition sample_placement :: placement_request where
  "sample_placement = \<lparr>plr_preferred_region = [], plr_source_region = [], plr_use_latency_probes = True,
     plr_required_capabilities = [], plr_top_k = 2\<rparr>"


end
