(* ===== verification/Migration.thy ===== *)
theory Migration
  imports Rebalance
begin

section \<open>Executing a plan: migrations and the automation cycle\<close>

text \<open>
  \<^verbatim>\<open>services/migrate_service.py\<close> and the executing half of \<^verbatim>\<open>services/control_plane_service.py\<close>:
  moving one peer between nodes with compensation, executing a rebalance plan with a budget and
  rollback, pausing and resuming servers by health, and the automation cycle that composes them
  with the planners.

  The nodes are reached through the runtime adapter \<open>A\<close> on a world \<open>w\<close>. The locale
  \<open>peer_runtime\<close> states what the adapter interface documents of adding and removing a peer, the
  lemmas about migration are proved in it, and it is interpreted on the agent adapter.
\<close>

subsection \<open>Migrating one peer\<close>

definition migrate_peer :: "'w adapter \<Rightarrow> device \<Rightarrow> string \<Rightarrow> 'w \<times> db \<Rightarrow> unit result \<times> 'w \<times> db" where
  "migrate_peer A dev target_node_id = (\<lambda>(w, d).
     let old = d_server_id dev;
         allowed = strip (case d_allowed_ips dev of None \<Rightarrow> [] | Some a \<Rightarrow> a);
         cfg = PeerConfigLike (d_public_key dev) (Some allowed) None
     in if d_revoked_at dev \<noteq> None then (Inl (ValueError ''Peer is revoked''), w, d)
        else if old = target_node_id then (Inr (), w, d)
        else if allowed = [] \<or> contains ''0.0.0.0/0'' allowed
        then (Inl (WireGuardCommandError ''Device has no valid allowed_ips; re-issue config first''), w, d)
        else
          let (_, w1) = ad_remove_peer A old (d_public_key dev) w in
          case ad_add_peer A target_node_id cfg w1 of
            (Inr _, w2) \<Rightarrow> (Inr (), w2, devices_update (upd_row d_id (d_id dev) (\<lambda>r. r\<lparr>d_server_id := target_node_id\<rparr>)) d)
          | (Inl _, w2) \<Rightarrow>
              (case ad_add_peer A old cfg w2 of
                 (Inr _, w3) \<Rightarrow> (Inl (WireGuardCommandError ''Add peer on target failed; rollback restored on source''), w3, d)
               | (Inl _, w3) \<Rightarrow> (Inl (WireGuardCommandError ''Add peer on target failed; rollback_failed''), w3, d)))"

definition resolve_target_node :: "settings \<Rightarrow> db \<Rightarrow> topology \<Rightarrow> string option \<Rightarrow> string result" where
  "resolve_target_node S d topo target =
     (case target of
        Some (c # cs) \<Rightarrow>
          if first_row (\<lambda>s. sv_id s = c # cs \<and> sv_is_active s) (servers d) = None
          then Inl (ValueError ''Target node not found or inactive'') else Inr (c # cs)
      | _ \<Rightarrow> rbind (select_node S [] topo) (\<lambda>n. Inr (n_node_id n)))"

subsection \<open>Executing moves\<close>

text \<open>The order in which the peers of a node are moved: quiet ones first, then by traffic and age.\<close>

definition qos_migration_key :: "settings \<Rightarrow> peer_row list \<Rightarrow> int \<Rightarrow> device \<Rightarrow> int \<times> int \<times> int \<times> rat" where
  "qos_migration_key S peers now_ts dev =
     (let stats = find_row p_public_key (d_public_key dev) (rev peers);
          last = (case stats of None \<Rightarrow> 0 | Some p \<Rightarrow> p_last_handshake p);
          traffic = (case stats of None \<Rightarrow> 0 | Some p \<Rightarrow> p_transfer_rx p + p_transfer_tx p);
          idle = control_plane_rebalance_qos_idle_handshake_seconds S;
          age = (if last > 0 then max (now_ts - last) 0 else idle * 100);
          hot = (age \<le> idle \<and> traffic \<ge> control_plane_rebalance_qos_hot_traffic_bytes S)
      in (if hot then 1 else 0, traffic, - age, int_div (d_issued_at dev) 1000000))"

record exec_state =
  x_attempted :: int
  x_succeeded :: int
  x_failed :: int
  x_rolled_back :: int
  x_rollback_failed :: int
  x_migrated :: "string list"
  x_status :: string
  x_budget :: int

definition current_device :: "db \<Rightarrow> device \<Rightarrow> device" where
  "current_device d dev = (case find_row d_id (d_id dev) (devices d) of None \<Rightarrow> dev | Some r \<Rightarrow> r)"

definition rollback_one :: "'w adapter \<Rightarrow> string \<Rightarrow> string \<Rightarrow> exec_state \<times> 'w \<times> db \<Rightarrow> exec_state \<times> 'w \<times> db" where
  "rollback_one A src i = (\<lambda>(st, w, d).
     case find_row d_id i (devices d) of
       None \<Rightarrow> (st, w, d)
     | Some dev \<Rightarrow>
         (case migrate_peer A dev src (w, d) of
            (Inr _, w', d') \<Rightarrow> (st\<lparr>x_rolled_back := x_rolled_back st + 1,
               x_succeeded := (if x_succeeded st > 0 then x_succeeded st - 1 else x_succeeded st)\<rparr>, w', d')
          | (Inl _, w', d') \<Rightarrow> (st\<lparr>x_rollback_failed := x_rollback_failed st + 1\<rparr>, w', d')))"

definition handle_failure :: "'w adapter \<Rightarrow> bool \<Rightarrow> bool \<Rightarrow> string \<Rightarrow> exec_state \<times> 'w \<times> db \<Rightarrow> exec_state \<times> 'w \<times> db" where
  "handle_failure A stop rb src = (\<lambda>(st, w, d).
     let st1 = st\<lparr>x_failed := x_failed st + 1, x_status := ''failed''\<rparr>;
         (st2, w2, d2) =
           (if rb \<and> x_migrated st1 \<noteq> []
            then let (s, w', d') = fold (rollback_one A src) (rev (x_migrated st1)) (st1, w, d)
                 in (s\<lparr>x_migrated := [],
                       x_status := (if x_rollback_failed s = 0 then ''rolled_back'' else ''rollback_failed'')\<rparr>, w', d')
            else (st1, w, d))
     in if stop then (st2\<lparr>x_status := ''stopped_on_error''\<rparr>, w2, d2) else (st2, w2, d2))"

fun migrate_devices :: "'w adapter \<Rightarrow> bool \<Rightarrow> bool \<Rightarrow> string \<Rightarrow> string \<Rightarrow> device list
    \<Rightarrow> exec_state \<times> 'w \<times> db \<Rightarrow> exec_state \<times> 'w \<times> db" where
  "migrate_devices A stop rb src tgt [] x = x"
| "migrate_devices A stop rb src tgt (dev # devs) (st, w, d) =
     (let st1 = st\<lparr>x_attempted := x_attempted st + 1\<rparr> in
      case migrate_peer A (current_device d dev) tgt (w, d) of
        (Inr _, w', d') \<Rightarrow>
          migrate_devices A stop rb src tgt devs
            (st1\<lparr>x_succeeded := x_succeeded st1 + 1, x_migrated := x_migrated st1 @ [d_id dev], x_budget := x_budget st1 - 1\<rparr>, w', d')
      | (Inl _, w', d') \<Rightarrow>
          let y = handle_failure A stop rb src (st1, w', d')
          in if stop then y else migrate_devices A stop rb src tgt devs y)"

record execution =
  e_source :: string
  e_target :: string
  e_requested :: int
  e_attempted :: int
  e_succeeded :: int
  e_failed :: int
  e_rolled_back :: int
  e_rollback_failed :: int
  e_skipped_enterprise :: int
  e_status :: string

definition source_rows :: "db \<Rightarrow> string \<Rightarrow> (device \<times> string) list" where
  "source_rows d src =
     map (\<lambda>dev. (dev, case device_subscription d dev of None \<Rightarrow> [] | Some (_, plan) \<Rightarrow> pl_name plan))
       (sort_key d_issued_at
          (filter (\<lambda>dev. d_server_id dev = src \<and> d_revoked_at dev = None
                     \<and> (case device_subscription d dev of None \<Rightarrow> False | Some (sub, _) \<Rightarrow> s_status sub = ''active''))
             (devices d)))"

definition movable_devices :: "settings \<Rightarrow> 'w adapter \<Rightarrow> int \<Rightarrow> string \<Rightarrow> 'w \<Rightarrow> db \<Rightarrow> device list" where
  "movable_devices S A now_ts src w d =
     (let keywords = enterprise_plan_keywords S;
          peers = (case ad_list_peers A src w of Inl _ \<Rightarrow> [] | Inr ps \<Rightarrow> ps)
      in sort_key (qos_migration_key S peers now_ts)
           (map fst (filter (\<lambda>(_, name). \<not> is_enterprise_plan_name name keywords) (source_rows d src))))"

definition final_status :: "exec_state \<Rightarrow> int \<Rightarrow> string" where
  "final_status st requested =
     (if x_attempted st = 0 then ''no_candidates''
      else if x_failed st = 0 \<and> x_attempted st < requested
      then (if x_budget st \<le> 0 then ''partial_budget'' else ''partial'')
      else x_status st)"

text \<open>One move of the plan: the result row and the new budget, world and database.\<close>

definition execute_move :: "settings \<Rightarrow> 'w adapter \<Rightarrow> int \<Rightarrow> bool \<Rightarrow> bool \<Rightarrow> int \<Rightarrow> move \<Rightarrow> int \<times> 'w \<times> db
    \<Rightarrow> execution \<times> int \<times> 'w \<times> db" where
  "execute_move S A now_ts stop rb limit mv = (\<lambda>(budget, w, d).
     let requested = max (m_peers mv) 0;
         devs = take (nat limit) (movable_devices S A now_ts (m_source mv) w d);
         skipped = int (length (filter (\<lambda>(_, name). is_enterprise_plan_name name (enterprise_plan_keywords S)) (source_rows d (m_source mv))));
         (st, w', d') = migrate_devices A stop rb (m_source mv) (m_target mv) devs
           (\<lparr>x_attempted = 0, x_succeeded = 0, x_failed = 0, x_rolled_back = 0, x_rollback_failed = 0,
             x_migrated = [], x_status = ''completed'', x_budget = budget\<rparr>, w, d)
     in (\<lparr>e_source = m_source mv, e_target = m_target mv, e_requested = requested,
          e_attempted = x_attempted st, e_succeeded = x_succeeded st, e_failed = x_failed st,
          e_rolled_back = x_rolled_back st, e_rollback_failed = x_rollback_failed st,
          e_skipped_enterprise = skipped, e_status = final_status st requested\<rparr>,
         x_budget st, w', d'))"

definition move_limit :: "move \<Rightarrow> int \<Rightarrow> int \<Rightarrow> int" where
  "move_limit mv batch budget = min (min (max (m_peers mv) 0) batch) budget"

text \<open>
  The loop over the moves: the results, the reason to stop, whether a move failed, and the state
  left. A move with nothing to do is skipped without a result.
\<close>

fun execute_moves :: "settings \<Rightarrow> 'w adapter \<Rightarrow> int \<Rightarrow> int \<Rightarrow> bool \<Rightarrow> bool \<Rightarrow> move list \<Rightarrow> int \<times> 'w \<times> db
    \<Rightarrow> execution list \<times> string option \<times> int \<times> 'w \<times> db" where
  "execute_moves S A now_ts batch stop rb [] (budget, w, d) =
     ([], if budget \<le> 0 then Some ''execution_budget_reached'' else None, budget, w, d)"
| "execute_moves S A now_ts batch stop rb (mv # mvs) (budget, w, d) =
     (if budget \<le> 0 then ([], Some ''execution_budget_reached'', budget, w, d)
      else let limit = move_limit mv batch budget in
        if limit \<le> 0 then execute_moves S A now_ts batch stop rb mvs (budget, w, d)
        else
          let (r, budget', w', d') = execute_move S A now_ts stop rb limit mv (budget, w, d)
          in if stop \<and> e_failed r > 0 then ([r], Some ''stopped_on_error'', budget', w', d')
             else let (rs, reason, y) = execute_moves S A now_ts batch stop rb mvs (budget', w', d')
                  in (r # rs, reason, y))"

definition execute_rebalance_plan :: "settings \<Rightarrow> 'w adapter \<Rightarrow> datetime \<Rightarrow> move list \<Rightarrow> int \<Rightarrow> int \<Rightarrow> bool \<Rightarrow> bool \<Rightarrow> 'w \<times> db
    \<Rightarrow> (execution list \<times> string option) \<times> 'w \<times> db" where
  "execute_rebalance_plan S A now moves batch max_exec stop rb = (\<lambda>(w, d).
     let (rs, reason, _, w', d') = execute_moves S A (int_of_float (int_div now 1000000)) batch stop rb moves (max 0 max_exec, w, d)
     in ((rs, reason), w', d'))"

subsection \<open>Pausing and resuming servers\<close>

definition provisioning_step :: "rat \<Rightarrow> node \<Rightarrow> (int \<times> int) \<times> db \<Rightarrow> (int \<times> int) \<times> db" where
  "provisioning_step threshold n = (\<lambda>((paused, resumed), d).
     case find_row sv_id (n_node_id n) (servers d) of
       None \<Rightarrow> ((paused, resumed), d)
     | Some s \<Rightarrow>
         let unhealthy = (n_status n = ''unhealthy'' \<or> n_health_score n < threshold) in
         if unhealthy \<and> sv_is_active s
         then ((paused + 1, resumed), servers_update (upd_row sv_id (n_node_id n) (\<lambda>r. r\<lparr>sv_is_active := False\<rparr>)) d)
         else if \<not> unhealthy \<and> usable_status (n_status n) \<and> \<not> sv_is_active s
         then ((paused, resumed + 1), servers_update (upd_row sv_id (n_node_id n) (\<lambda>r. r\<lparr>sv_is_active := True\<rparr>)) d)
         else ((paused, resumed), d))"

definition sync_server_provisioning_state :: "topology \<Rightarrow> rat \<Rightarrow> db \<Rightarrow> (int \<times> int) \<times> db" where
  "sync_server_provisioning_state topo threshold d = fold (provisioning_step threshold) (t_nodes topo) ((0, 0), d)"

subsection \<open>The automation cycle\<close>

record automation_request =
  ar_high_watermark :: rat
  ar_target_watermark :: rat
  ar_max_moves_per_node :: int
  ar_unhealthy_threshold :: rat
  ar_execute :: bool
  ar_batch_size :: int
  ar_max_executions :: int
  ar_stop_on_error :: bool
  ar_rollback_on_error :: bool
  ar_sync_server_state :: bool

record automation_run =
  au_load_factor :: rat
  au_health_score :: rat
  au_failed_nodes :: int
  au_rebalance_moves :: int
  au_peers_to_move :: int
  au_execution_enabled :: bool
  au_executed :: int
  au_failed :: int
  au_rolled_back :: int
  au_rollback_failures :: int
  au_stop_reason :: "string option"
  au_executions :: "execution list"
  au_paused :: int
  au_resumed :: int

definition execution_json :: "execution \<Rightarrow> json" where
  "execution_json e = JObj [(''source_node_id'', JStr (e_source e)), (''target_node_id'', JStr (e_target e)),
     (''requested'', JInt (e_requested e)), (''attempted'', JInt (e_attempted e)), (''succeeded'', JInt (e_succeeded e)),
     (''failed'', JInt (e_failed e)), (''rolled_back'', JInt (e_rolled_back e)),
     (''rollback_failed'', JInt (e_rollback_failed e)), (''skipped_enterprise'', JInt (e_skipped_enterprise e)),
     (''status'', JStr (e_status e))]"

text \<open>The payload of the cycle event; the text of its time stamp, generated_at, is left out.\<close>

definition automation_json :: "automation_run \<Rightarrow> json" where
  "automation_json c = JObj [(''load_factor'', JFloat (au_load_factor c)), (''health_score'', JFloat (au_health_score c)),
     (''failed_nodes'', JInt (au_failed_nodes c)), (''rebalance_moves'', JInt (au_rebalance_moves c)),
     (''rebalance_peers_to_move'', JInt (au_peers_to_move c)), (''rebalance_execution_enabled'', JBool (au_execution_enabled c)),
     (''executed_migrations'', JInt (au_executed c)), (''failed_migrations'', JInt (au_failed c)),
     (''rollback_migrations'', JInt (au_rolled_back c)), (''rollback_failures'', JInt (au_rollback_failures c)),
     (''stop_reason'', json_opt (au_stop_reason c)), (''executions'', JList (map execution_json (au_executions c))),
     (''paused_nodes'', JInt (au_paused c)), (''resumed_nodes'', JInt (au_resumed c)), (''event_id'', JNull)]"

definition run_automation_cycle :: "settings \<Rightarrow> 'w adapter option \<Rightarrow> datetime \<Rightarrow> topology \<Rightarrow> automation_request \<Rightarrow> 'w \<times> db
    \<Rightarrow> (automation_run \<times> 'w \<times> db) result" where
  "run_automation_cycle S adapter now topo rq = (\<lambda>(w, d).
     rbind (make_rebalance_request (ar_high_watermark rq) (ar_target_watermark rq) (ar_max_moves_per_node rq)) (\<lambda>prq.
     rbind (plan_rebalance S topo prq d) (\<lambda>(plan, d1).
       let (fo, d2) = evaluate_failover S topo d1 in
       rbind (if ar_execute rq \<and> rp_moves plan \<noteq> []
              then (case adapter of
                      None \<Rightarrow> Inl (ValueError ''runtime_adapter is required when execute_rebalance=true'')
                    | Some A \<Rightarrow> Inr (execute_rebalance_plan S A now (rp_moves plan) (ar_batch_size rq) (ar_max_executions rq)
                                  (ar_stop_on_error rq) (ar_rollback_on_error rq) (w, d2)))
              else Inr (([], None), w, d2)) (\<lambda>((rs, reason), w3, d3).
         let ((paused, resumed), d4) =
               (if ar_sync_server_state rq then sync_server_provisioning_state topo (ar_unhealthy_threshold rq) d3 else ((0, 0), d3));
             cycle = \<lparr>au_load_factor = t_load_factor topo, au_health_score = t_health_score topo,
                au_failed_nodes = int (length (fo_failed fo)), au_rebalance_moves = int (length (rp_moves plan)),
                au_peers_to_move = rp_total plan, au_execution_enabled = ar_execute rq,
                au_executed = sum_list (map e_succeeded rs), au_failed = sum_list (map e_failed rs),
                au_rolled_back = sum_list (map e_rolled_back rs), au_rollback_failures = sum_list (map e_rollback_failed rs),
                au_stop_reason = reason, au_executions = rs, au_paused = paused, au_resumed = resumed\<rparr>
         in Inr (cycle, w3, log_event ''automation.cycle.completed''
                   (if au_failed_nodes cycle > 0 then ''warning'' else ''info'') None (automation_json cycle) d4)))))"

subsection \<open>The contract of a runtime adapter\<close>

text \<open>
  \<open>on w n k\<close> says that the peer with key \<open>k\<close> is configured on node \<open>n\<close>; keys are compared without
  surrounding white space. An addition of a client address that returns leaves the peer on the node, and no operation on one
  peer touches another, whether it returns or raises. Nothing is promised about the peer itself
  when an operation raises, nor about other nodes, since two node names may lead to one container.
\<close>

locale peer_runtime =
  fixes A :: "'w adapter" and on :: "'w \<Rightarrow> string \<Rightarrow> string \<Rightarrow> bool" and client_address :: "string \<Rightarrow> bool"
  assumes add_ok: "ad_add_peer A n cfg w = (Inr (), w') \<Longrightarrow> pcf_allowed_ips cfg = Some ips \<Longrightarrow> client_address ips \<Longrightarrow>
      on w' n (pcf_public_key cfg)"
    and add_other: "ad_add_peer A n cfg w = (r, w') \<Longrightarrow> strip k \<noteq> strip (pcf_public_key cfg) \<Longrightarrow> on w' m k = on w m k"
    and remove_other: "ad_remove_peer A n key w = (r', w') \<Longrightarrow> strip k \<noteq> strip key \<Longrightarrow> on w' m k = on w m k"
begin

text \<open>A migration that returns put the peer on the target, and touched no other peer.\<close>

lemma migrate_ok:
  assumes "migrate_peer A dev tgt (w, d) = (Inr (), w', d')" "d_server_id dev \<noteq> tgt"
  shows "(client_address (strip (case d_allowed_ips dev of None \<Rightarrow> [] | Some a \<Rightarrow> a)) \<longrightarrow> on w' tgt (d_public_key dev))
     \<and> (strip k \<noteq> strip (d_public_key dev) \<longrightarrow> on w' m k = on w m k)
     \<and> d' = devices_update (upd_row d_id (d_id dev) (\<lambda>r. r\<lparr>d_server_id := tgt\<rparr>)) d"
proof -
  let ?a = "strip (case d_allowed_ips dev of None \<Rightarrow> [] | Some a \<Rightarrow> a)"
  obtain r w1 where r: "ad_remove_peer A (d_server_id dev) (d_public_key dev) w = (r, w1)" by fastforce
  from assms r have add: "ad_add_peer A tgt (PeerConfigLike (d_public_key dev) (Some ?a) None) w1 = (Inr (), w')"
    and d': "d' = devices_update (upd_row d_id (d_id dev) (\<lambda>r. r\<lparr>d_server_id := tgt\<rparr>)) d"
    by (auto simp: migrate_peer_def Let_def split: if_splits prod.splits sum.splits)
  show ?thesis using add_ok[OF add] add_other[OF add] remove_other[OF r] d' by (simp add: PeerConfigLike_def)
qed

text \<open>
  A migration that raises leaves every other peer and the table as they were, and when it
  reports that the source was restored, the peer is on its old node.
\<close>

lemma migrate_fails:
  assumes "migrate_peer A dev tgt (w, d) = (Inl e, w', d')"
  shows "d' = d \<and> (strip k \<noteq> strip (d_public_key dev) \<longrightarrow> on w' m k = on w m k)
     \<and> (e = WireGuardCommandError ''Add peer on target failed; rollback restored on source''
          \<and> client_address (strip (case d_allowed_ips dev of None \<Rightarrow> [] | Some a \<Rightarrow> a)) \<longrightarrow> on w' (d_server_id dev) (d_public_key dev))"
proof -
  let ?a = "strip (case d_allowed_ips dev of None \<Rightarrow> [] | Some a \<Rightarrow> a)" and ?old = "d_server_id dev"
  let ?cfg = "PeerConfigLike (d_public_key dev) (Some ?a) None"
  obtain r w1 where r: "ad_remove_peer A ?old (d_public_key dev) w = (r, w1)" by fastforce
  consider "w' = w" "d' = d" "e \<noteq> WireGuardCommandError ''Add peer on target failed; rollback restored on source''"
    | e2 w2 r3 where "ad_add_peer A tgt ?cfg w1 = (Inl e2, w2)" "ad_add_peer A ?old ?cfg w2 = (r3, w')" "d' = d"
       "e = WireGuardCommandError ''Add peer on target failed; rollback restored on source'' \<longrightarrow> r3 = Inr ()"
    using assms r by (auto simp: migrate_peer_def Let_def split: if_splits prod.splits sum.splits)
  then show ?thesis
  proof cases
    case 2
    have "r3 = Inr () \<Longrightarrow> client_address ?a \<Longrightarrow> on w' ?old (d_public_key dev)"
      using add_ok[of ?old ?cfg w2 w' ?a] 2(2) by (simp add: PeerConfigLike_def)
    moreover have "strip k \<noteq> strip (d_public_key dev) \<Longrightarrow> on w' m k = on w m k"
      using add_other[OF 2(1)] add_other[OF 2(2)] remove_other[OF r] by (simp add: PeerConfigLike_def)
    ultimately show ?thesis using 2(3,4) by blast
  qed simp
qed

end

interpretation agent_rt: peer_runtime agent_adapter on client_address for on :: "agent_world \<Rightarrow> string \<Rightarrow> string \<Rightarrow> bool" and client_address
  by unfold_locales (simp_all add: agent_adapter_def)

subsection \<open>What an execution may change\<close>

text \<open>A device is protected when it is revoked, has no active subscription, or is on an enterprise plan.\<close>

definition protected_device :: "settings \<Rightarrow> db \<Rightarrow> device \<Rightarrow> bool" where
  "protected_device S d dev \<longleftrightarrow> d_revoked_at dev \<noteq> None \<or>
     (case device_subscription d dev of
        None \<Rightarrow> True
      | Some (sub, plan) \<Rightarrow> s_status sub \<noteq> ''active'' \<or> is_enterprise_plan_name (pl_name plan) (enterprise_plan_keywords S))"

definition moved_device :: "settings \<Rightarrow> db \<Rightarrow> device \<Rightarrow> device \<Rightarrow> bool" where
  "moved_device S d a b \<longleftrightarrow> b = a \<or> (\<not> protected_device S d a \<and> b = a\<lparr>d_server_id := d_server_id b\<rparr>)"

definition moved_only :: "settings \<Rightarrow> db \<Rightarrow> db \<Rightarrow> bool" where
  "moved_only S d d' \<longleftrightarrow> devices_update (\<lambda>_. devices d) d' = d
     \<and> list_all2 (moved_device S d) (devices d) (devices d')"

definition free_ids :: "settings \<Rightarrow> db \<Rightarrow> string set" where
  "free_ids S d = {d_id dev | dev. dev \<in> set (devices d) \<and> \<not> protected_device S d dev}"

lemma protected_server [simp]: "protected_device S d (dev\<lparr>d_server_id := t\<rparr>) = protected_device S d dev"
  by (simp add: protected_device_def device_subscription_def)

lemma moved_device_keeps:
  assumes "moved_device S d a b"
  shows "d_id b = d_id a" "protected_device S d b = protected_device S d a"
proof -
  have "b = a \<or> (\<exists>t. b = a\<lparr>d_server_id := t\<rparr>)" using assms by (auto simp: moved_device_def)
  then show "d_id b = d_id a" "protected_device S d b = protected_device S d a" by auto
qed

lemma moved_device_refl [simp]: "moved_device S d a a"
  by (simp add: moved_device_def)

lemma moved_device_trans: "moved_device S d a b \<Longrightarrow> moved_device S d b c \<Longrightarrow> moved_device S d a c"
  by (cases a; cases b; cases c) (auto simp: moved_device_def protected_device_def device_subscription_def)

lemma moved_only_refl [simp]: "moved_only S d d"
  by (simp add: moved_only_def list_all2_same)

lemma moved_only_protected:
  assumes "moved_only S d d'"
  shows "protected_device S d' dev = protected_device S d dev"
proof -
  have "devices_update (\<lambda>_. devices d) d' = d" using assms by (simp only: moved_only_def)
  from arg_cong[OF this, of subscriptions] arg_cong[OF this, of plans]
  have "subscriptions d = subscriptions d'" "plans d = plans d'" by simp_all
  then show ?thesis by (simp add: protected_device_def device_subscription_def cong: option.case_cong)
qed

lemma moved_only_trans:
  assumes "moved_only S d d1" "moved_only S d1 d2"
  shows "moved_only S d d2"
proof -
  have "moved_device S d1 = moved_device S d"
    using moved_only_protected[OF assms(1)] by (intro ext) (simp add: moved_device_def)
  then have "list_all2 (moved_device S d) (devices d) (devices d1)" "list_all2 (moved_device S d) (devices d1) (devices d2)"
    using assms by (simp_all add: moved_only_def)
  then have "list_all2 (moved_device S d) (devices d) (devices d2)"
    by (rule list_all2_trans[rotated]) (rule moved_device_trans)
  moreover have "devices_update (\<lambda>_. devices d) d2 = d"
  proof -
    have "devices_update (\<lambda>_. devices d) d2 = devices_update (\<lambda>_. devices d) (devices_update (\<lambda>_. devices d1) d2)" by simp
    also have "\<dots> = devices_update (\<lambda>_. devices d) d1" using assms(2) by (simp only: moved_only_def)
    finally show ?thesis using assms(1) by (simp only: moved_only_def)
  qed
  ultimately show ?thesis by (simp add: moved_only_def)
qed

lemma list_all2_ids: "list_all2 P xs ys \<Longrightarrow> (\<And>a b. P a b \<Longrightarrow> f b = f a) \<Longrightarrow> map f ys = map f xs"
  by (induction rule: list_all2_induct) auto

lemma moved_only_map:
  assumes "moved_only S d d'" "\<And>a b. moved_device S d a b \<Longrightarrow> f b = f a"
  shows "map f (devices d') = map f (devices d)"
  by (rule list_all2_ids[of "moved_device S d"]) (use assms in \<open>simp_all add: moved_only_def\<close>)

lemma moved_only_unique: "moved_only S d d' \<Longrightarrow> unique_on d_id (devices d') = unique_on d_id (devices d)"
  by (simp add: unique_on_def moved_only_map[of S d d' d_id] moved_device_keeps)

lemma moved_only_free:
  assumes "moved_only S d d'"
  shows "free_ids S d' = free_ids S d"
proof -
  let ?f = "\<lambda>x. (d_id x, protected_device S d x)"
  have "map ?f (devices d') = map ?f (devices d)"
    by (rule moved_only_map[OF assms]) (simp add: moved_device_keeps)
  then have "?f ` set (devices d') = ?f ` set (devices d)" by (metis set_map)
  moreover have "free_ids S x = {i. (i, False) \<in> (\<lambda>y. (d_id y, protected_device S x y)) ` set (devices x)}" for x
    by (auto simp: free_ids_def)
  ultimately show ?thesis by (simp add: moved_only_protected[OF assms])
qed

lemma migrate_moved:
  assumes "migrate_peer A dev tgt (w, d) = (r, w', d')" "unique_on d_id (devices d)"
    "dev \<in> set (devices d)" "\<not> protected_device S d dev"
  shows "moved_only S d d'"
proof -
  have "d' = d \<or> d' = devices_update (upd_row d_id (d_id dev) (\<lambda>r. r\<lparr>d_server_id := tgt\<rparr>)) d"
    using assms(1) by (auto simp: migrate_peer_def Let_def split: if_splits prod.splits sum.splits)
  moreover have "moved_only S d (devices_update (upd_row d_id (d_id dev) (\<lambda>r. r\<lparr>d_server_id := tgt\<rparr>)) d)"
  proof -
    have "\<not> protected_device S d x" if "x \<in> set (devices d)" "d_id x = d_id dev" for x
      using unique_on_key[OF assms(2) that(1) assms(3)] that(2) assms(4) by simp
    then show ?thesis
      by (auto simp: moved_only_def upd_row_def list_all2_map2 list_all2_same moved_device_def)
  qed
  ultimately show ?thesis by auto
qed

lemma free_row:
  assumes "unique_on d_id (devices d)" "i \<in> free_ids S d"
  obtains dev where "find_row d_id i (devices d) = Some dev" "dev \<in> set (devices d)" "\<not> protected_device S d dev"
proof -
  from assms(2) obtain dev where "dev \<in> set (devices d)" "\<not> protected_device S d dev" "d_id dev = i"
    by (auto simp: free_ids_def)
  with find_row_unique[OF assms(1)] that show ?thesis by blast
qed

lemma rollback_one_moved:
  assumes "unique_on d_id (devices d)" "i \<in> free_ids S d" "rollback_one A src i (st, w, d) = (st', w', d')"
  shows "moved_only S d d'"
proof -
  from free_row[OF assms(1,2)] obtain dev where dev: "find_row d_id i (devices d) = Some dev"
    "dev \<in> set (devices d)" "\<not> protected_device S d dev" .
  obtain r w1 d1 where m: "migrate_peer A dev src (w, d) = (r, w1, d1)" by (rule prod_cases3)
  have "d' = d1" using assms(3) dev(1) m by (cases r) (auto simp: rollback_one_def)
  with migrate_moved[OF m assms(1) dev(2,3)] show ?thesis by simp
qed

lemma rollback_all_moved:
  assumes "unique_on d_id (devices d)" "set is \<subseteq> free_ids S d" "fold (rollback_one A src) is (st, w, d) = (st', w', d')"
  shows "moved_only S d d'"
  using assms
proof (induction "is" arbitrary: st w d)
  case (Cons i ids)
  obtain st1 w1 d1 where r: "rollback_one A src i (st, w, d) = (st1, w1, d1)" by (rule prod_cases3)
  have m: "moved_only S d d1" using Cons.prems r by (intro rollback_one_moved[OF _ _ r]) auto
  have "moved_only S d1 d'"
    using Cons.prems r moved_only_unique[OF m] moved_only_free[OF m] by (intro Cons.IH[of d1 st1 w1]) auto
  with m show ?case by (rule moved_only_trans)
qed simp

text \<open>The counters of a run.\<close>

definition counters_ok :: "exec_state \<Rightarrow> bool" where
  "counters_ok st \<longleftrightarrow> x_attempted st = x_succeeded st + x_failed st + x_rolled_back st
     \<and> 0 \<le> x_succeeded st \<and> 0 \<le> x_failed st \<and> 0 \<le> x_rolled_back st \<and> 0 \<le> x_rollback_failed st
     \<and> int (length (x_migrated st)) \<le> x_succeeded st"

definition spent :: "exec_state \<Rightarrow> int" where
  "spent st = x_budget st + x_succeeded st + x_rolled_back st"

lemma rollback_one_counters:
  assumes "rollback_one A src i (st, w, d) = (st', w', d')" "0 < x_succeeded st"
  shows "x_attempted st' = x_attempted st" "x_failed st' = x_failed st" "x_budget st' = x_budget st"
    "x_succeeded st' + x_rolled_back st' = x_succeeded st + x_rolled_back st"
    "x_succeeded st - 1 \<le> x_succeeded st'" "x_rolled_back st \<le> x_rolled_back st'"
    "x_rollback_failed st \<le> x_rollback_failed st'" "x_migrated st' = x_migrated st"
  using assms by (auto simp: rollback_one_def split: option.splits prod.splits sum.splits)

lemma rollback_all_counters:
  assumes "fold (rollback_one A src) is (st, w, d) = (st', w', d')" "int (length is) \<le> x_succeeded st"
  shows "x_attempted st' = x_attempted st \<and> x_failed st' = x_failed st \<and> x_budget st' = x_budget st
    \<and> x_succeeded st' + x_rolled_back st' = x_succeeded st + x_rolled_back st
    \<and> x_succeeded st - int (length is) \<le> x_succeeded st' \<and> x_rolled_back st \<le> x_rolled_back st'
    \<and> x_rollback_failed st \<le> x_rollback_failed st' \<and> x_migrated st' = x_migrated st"
  using assms
proof (induction "is" arbitrary: st w d)
  case (Cons i ids)
  obtain st1 w1 d1 where r: "rollback_one A src i (st, w, d) = (st1, w1, d1)" by (rule prod_cases3)
  have pos: "0 < x_succeeded st" using Cons.prems(2) by simp
  note one = rollback_one_counters[OF r pos]
  have "x_attempted st' = x_attempted st1 \<and> x_failed st' = x_failed st1 \<and> x_budget st' = x_budget st1
    \<and> x_succeeded st' + x_rolled_back st' = x_succeeded st1 + x_rolled_back st1
    \<and> x_succeeded st1 - int (length ids) \<le> x_succeeded st' \<and> x_rolled_back st1 \<le> x_rolled_back st'
    \<and> x_rollback_failed st1 \<le> x_rollback_failed st' \<and> x_migrated st' = x_migrated st1"
    using Cons.prems one r by (intro Cons.IH[of st1 w1 d1]) auto
  with one show ?case by simp
qed simp

lemma handle_failure_counters:
  assumes "handle_failure A stop rb src (st, w, d) = (st', w', d')" "counters_ok (st\<lparr>x_attempted := x_attempted st - 1\<rparr>)"
  shows "counters_ok st' \<and> spent st' = spent st \<and> x_attempted st' = x_attempted st \<and> 0 < x_failed st'"
proof (cases "rb \<and> x_migrated st \<noteq> []")
  case True
  let ?st1 = "st\<lparr>x_failed := x_failed st + 1, x_status := ''failed''\<rparr>"
  obtain s v e where f: "fold (rollback_one A src) (rev (x_migrated st)) (?st1, w, d) = (s, v, e)" by (rule prod_cases3)
  have "int (length (rev (x_migrated st))) \<le> x_succeeded ?st1" using assms(2) by (simp add: counters_ok_def)
  note c = rollback_all_counters[OF f this]
  have "st' = s\<lparr>x_migrated := [], x_status := x_status st'\<rparr>"
    using assms(1) True f by (auto simp: handle_failure_def Let_def split: if_splits)
  then obtain t where "st' = s\<lparr>x_migrated := [], x_status := t\<rparr>" ..
  with c assms(2) show ?thesis by (auto simp: counters_ok_def spent_def)
next
  case False
  then have "st' = st\<lparr>x_failed := x_failed st + 1, x_status := x_status st'\<rparr>"
    using assms(1) by (auto simp: handle_failure_def Let_def split: if_splits)
  then obtain t where "st' = st\<lparr>x_failed := x_failed st + 1, x_status := t\<rparr>" ..
  with assms(2) show ?thesis by (auto simp: counters_ok_def spent_def)
qed

lemma handle_failure_moved:
  assumes "handle_failure A stop rb src (st, w, d) = (st', w', d')"
    and "unique_on d_id (devices d)" "set (x_migrated st) \<subseteq> free_ids S d"
  shows "moved_only S d d' \<and> set (x_migrated st') \<subseteq> set (x_migrated st)"
proof (cases "rb \<and> x_migrated st \<noteq> []")
  case True
  let ?st1 = "st\<lparr>x_failed := x_failed st + 1, x_status := ''failed''\<rparr>"
  obtain s v e where f: "fold (rollback_one A src) (rev (x_migrated st)) (?st1, w, d) = (s, v, e)" by (rule prod_cases3)
  have "moved_only S d e" by (rule rollback_all_moved[OF assms(2) _ f]) (use assms(3) in simp)
  with assms(1) True f show ?thesis by (auto simp: handle_failure_def Let_def split: if_splits)
next
  case False
  with assms(1) show ?thesis by (auto simp: handle_failure_def Let_def split: if_splits)
qed

lemma migrate_devices_spec:
  assumes "migrate_devices A stop rb src tgt devs (st, w, d) = (st', w', d')"
    and "counters_ok st" "unique_on d_id (devices d)" "set (map d_id devs) \<subseteq> free_ids S d" "set (x_migrated st) \<subseteq> free_ids S d"
  shows "counters_ok st' \<and> spent st' = spent st \<and> x_attempted st' \<le> x_attempted st + int (length devs) \<and> moved_only S d d'"
  using assms
proof (induction devs arbitrary: st w d)
  case (Cons dev devs)
  let ?st1 = "st\<lparr>x_attempted := x_attempted st + 1\<rparr>"
  obtain r w1 d1 where m: "migrate_peer A (current_device d dev) tgt (w, d) = (r, w1, d1)" by (rule prod_cases3)
  have i: "d_id dev \<in> free_ids S d" using Cons.prems(4) by simp
  obtain cur where "find_row d_id (d_id dev) (devices d) = Some cur" "cur \<in> set (devices d)" "\<not> protected_device S d cur"
    by (rule free_row[OF Cons.prems(3) i])
  then have cur: "current_device d dev = cur" "cur \<in> set (devices d)" "\<not> protected_device S d cur"
    by (simp_all add: current_device_def)
  have mv: "moved_only S d d1" using migrate_moved[OF m Cons.prems(3)] cur by simp
  note keep = moved_only_unique[OF mv] moved_only_free[OF mv]
  show ?case
  proof (cases r)
    case (Inr u)
    let ?st2 = "?st1\<lparr>x_succeeded := x_succeeded st + 1, x_migrated := x_migrated st @ [d_id dev], x_budget := x_budget st - 1\<rparr>"
    have "migrate_devices A stop rb src tgt devs (?st2, w1, d1) = (st', w', d')"
      using Cons.prems(1) m Inr by (simp add: Let_def)
    moreover have "counters_ok ?st2" using Cons.prems(2) by (simp add: counters_ok_def)
    ultimately have "counters_ok st' \<and> spent st' = spent ?st2 \<and> x_attempted st' \<le> x_attempted ?st2 + int (length devs) \<and> moved_only S d1 d'"
      using Cons.prems(3-5) i keep by (intro Cons.IH) auto
    then show ?thesis using moved_only_trans[OF mv] by (simp add: spent_def)
  next
    case (Inl e)
    obtain st2 w2 d2 where h: "handle_failure A stop rb src (?st1, w1, d1) = (st2, w2, d2)" by (rule prod_cases3)
    have c: "counters_ok st2 \<and> spent st2 = spent ?st1 \<and> x_attempted st2 = x_attempted ?st1"
      using handle_failure_counters[OF h] Cons.prems(2) by simp
    have mv2: "moved_only S d1 d2" "set (x_migrated st2) \<subseteq> set (x_migrated st)"
      using handle_failure_moved[OF h] Cons.prems(3,5) keep by auto
    have keep2: "unique_on d_id (devices d2)" "free_ids S d2 = free_ids S d"
      using moved_only_unique[OF mv2(1)] moved_only_free[OF mv2(1)] keep Cons.prems(3) by simp_all
    have mv12: "moved_only S d d2" by (rule moved_only_trans[OF mv mv2(1)])
    show ?thesis
    proof (cases stop)
      case True
      then have "(st', w', d') = (st2, w2, d2)" using Cons.prems(1) m Inl h by (simp add: Let_def)
      then show ?thesis using c mv12 by (simp add: spent_def)
    next
      case False
      then have "migrate_devices A stop rb src tgt devs (st2, w2, d2) = (st', w', d')"
        using Cons.prems(1) m Inl h by (simp add: Let_def)
      then have "counters_ok st' \<and> spent st' = spent st2 \<and> x_attempted st' \<le> x_attempted st2 + int (length devs) \<and> moved_only S d2 d'"
        using Cons.prems(4,5) c keep2 mv2(2) by (intro Cons.IH) auto
      then show ?thesis using c moved_only_trans[OF mv12] by (simp add: spent_def)
    qed
  qed
qed simp

lemma movable_free:
  "set (map d_id (movable_devices S A ts src w d)) \<subseteq> free_ids S d"
proof -
  have "dev \<in> set (devices d) \<and> \<not> protected_device S d dev" if "dev \<in> set (movable_devices S A ts src w d)" for dev
    using that by (auto simp: movable_devices_def Let_def source_rows_def protected_device_def split: option.splits)
  then show ?thesis by (auto simp: free_ids_def)
qed

definition execution_ok :: "execution \<Rightarrow> bool" where
  "execution_ok e \<longleftrightarrow> e_attempted e = e_succeeded e + e_failed e + e_rolled_back e
     \<and> 0 \<le> e_succeeded e \<and> 0 \<le> e_failed e \<and> 0 \<le> e_rolled_back e \<and> e_attempted e \<le> e_requested e"

lemma execute_move_spec:
  assumes "execute_move S A ts stop rb limit mv (budget, w, d) = (e, budget', w', d')"
    and "unique_on d_id (devices d)" "0 \<le> limit" "limit \<le> max (m_peers mv) 0" "limit \<le> budget"
  shows "execution_ok e \<and> e_attempted e \<le> limit \<and> budget' + e_succeeded e + e_rolled_back e = budget \<and> 0 \<le> budget' \<and> moved_only S d d'"
proof -
  let ?devs = "take (nat limit) (movable_devices S A ts (m_source mv) w d)"
  let ?st0 = "\<lparr>x_attempted = 0, x_succeeded = 0, x_failed = 0, x_rolled_back = 0, x_rollback_failed = 0,
      x_migrated = [], x_status = ''completed'', x_budget = budget\<rparr>"
  obtain st w1 d1 where m: "migrate_devices A stop rb (m_source mv) (m_target mv) ?devs (?st0, w, d) = (st, w1, d1)" by (rule prod_cases3)
  have sub: "set (map d_id ?devs) \<subseteq> free_ids S d"
    using movable_free[of S A ts "m_source mv" w d] by (auto dest: in_set_takeD)
  have spec: "counters_ok st \<and> spent st = spent ?st0 \<and> x_attempted st \<le> x_attempted ?st0 + int (length ?devs) \<and> moved_only S d d1"
    by (rule migrate_devices_spec[OF m _ assms(2) sub]) (simp_all add: counters_ok_def)
  have e: "e_attempted e = x_attempted st" "e_succeeded e = x_succeeded st" "e_failed e = x_failed st"
    "e_rolled_back e = x_rolled_back st" "e_requested e = max (m_peers mv) 0" "budget' = x_budget st" "d' = d1"
    using assms(1) m by (auto simp: execute_move_def Let_def)
  have len: "int (length ?devs) \<le> limit" using assms(3) by simp
  from spec len assms(3-5) show ?thesis
    by (auto simp: execution_ok_def e counters_ok_def spent_def)
qed

lemma execute_moves_spec:
  assumes "execute_moves S A ts batch stop rb mvs (budget, w, d) = (rs, reason, budget', w', d')"
    and "unique_on d_id (devices d)" "0 \<le> budget"
  shows "(\<forall>e\<in>set rs. execution_ok e \<and> e_attempted e \<le> batch)
     \<and> budget' + sum_list (map e_succeeded rs) + sum_list (map e_rolled_back rs) = budget \<and> 0 \<le> budget' \<and> moved_only S d d'"
  using assms
proof (induction mvs arbitrary: budget w d rs reason)
  case (Cons mv mvs)
  let ?limit = "move_limit mv batch budget"
  consider (none) "budget \<le> 0" | (skip) "0 < budget" "?limit \<le> 0" | (run) "0 < budget" "0 < ?limit" by linarith
  then show ?case
  proof cases
    case none
    with Cons.prems show ?thesis by simp
  next
    case skip
    then have "execute_moves S A ts batch stop rb mvs (budget, w, d) = (rs, reason, budget', w', d')"
      using Cons.prems(1) skip(1) by (simp add: Let_def)
    then show ?thesis using Cons.prems by (intro Cons.IH) auto
  next
    case run
    obtain e b1 w1 d1 where m: "execute_move S A ts stop rb ?limit mv (budget, w, d) = (e, b1, w1, d1)" by (rule prod_cases4)
    have E: "execution_ok e \<and> e_attempted e \<le> ?limit \<and> b1 + e_succeeded e + e_rolled_back e = budget \<and> 0 \<le> b1 \<and> moved_only S d d1"
      using run by (intro execute_move_spec[OF m Cons.prems(2)]) (auto simp: move_limit_def)
    have small: "e_attempted e \<le> batch" using E by (auto simp: move_limit_def)
    show ?thesis
    proof (cases "stop \<and> e_failed e > 0")
      case True
      then have "(rs, reason, budget', w', d') = ([e], Some ''stopped_on_error'', b1, w1, d1)"
        using Cons.prems(1) run m by (simp add: Let_def)
      with E small show ?thesis by simp
    next
      case False
      obtain rs1 reason1 y where rec: "execute_moves S A ts batch stop rb mvs (b1, w1, d1) = (rs1, reason1, y)" by (rule prod_cases3)
      have eq: "rs = e # rs1" "y = (budget', w', d')"
        using Cons.prems(1) run m False rec by (auto simp: Let_def)
      have "unique_on d_id (devices d1)" using E moved_only_unique Cons.prems(2) by blast
      then have "(\<forall>e\<in>set rs1. execution_ok e \<and> e_attempted e \<le> batch)
         \<and> budget' + sum_list (map e_succeeded rs1) + sum_list (map e_rolled_back rs1) = b1 \<and> 0 \<le> budget' \<and> moved_only S d1 d'"
        using E rec eq(2) by (intro Cons.IH) auto
      with E small eq(1) moved_only_trans show ?thesis by fastforce
    qed
  qed
qed simp

subsection \<open>With the agent adapter nothing moves\<close>

lemma agent_migrate:
  "d_server_id dev \<noteq> tgt \<Longrightarrow> \<exists>e. migrate_peer agent_adapter dev tgt (w, d) = (Inl e, w, d)"
  by (simp add: migrate_peer_def agent_adapter_def Let_def)

lemma agent_migrate_devices:
  assumes "src \<noteq> tgt" "\<forall>dev\<in>set devs. d_server_id (current_device d dev) = src" "x_migrated st = []"
  shows "\<exists>st'. migrate_devices agent_adapter stop rb src tgt devs (st, w, d) = (st', w, d)
     \<and> x_succeeded st' = x_succeeded st \<and> x_rolled_back st' = x_rolled_back st \<and> x_budget st' = x_budget st"
  using assms
proof (induction devs arbitrary: st)
  case (Cons dev devs)
  let ?st1 = "st\<lparr>x_attempted := x_attempted st + 1\<rparr>"
  obtain e where m: "migrate_peer agent_adapter (current_device d dev) tgt (w, d) = (Inl e, w, d)"
    using agent_migrate[of "current_device d dev" tgt w d] Cons.prems by auto
  obtain st2 where h: "handle_failure agent_adapter stop rb src (?st1, w, d) = (st2, w, d)" "x_migrated st2 = []"
    "x_succeeded st2 = x_succeeded st" "x_rolled_back st2 = x_rolled_back st" "x_budget st2 = x_budget st"
    using Cons.prems(3) by (cases stop) (auto simp: handle_failure_def Let_def)
  show ?case
  proof (cases stop)
    case True
    with m h show ?thesis by (simp add: Let_def)
  next
    case False
    have "\<forall>dev\<in>set devs. d_server_id (current_device d dev) = src" using Cons.prems(2) by simp
    from Cons.IH[OF Cons.prems(1) this h(2)] m h False show ?thesis by (simp add: Let_def)
  qed
qed simp

lemma movable_on_source:
  assumes "unique_on d_id (devices d)" "dev \<in> set (movable_devices S A ts src w d)"
  shows "d_server_id (current_device d dev) = src"
proof -
  have dev: "dev \<in> set (devices d)" "d_server_id dev = src"
    using assms(2) by (auto simp: movable_devices_def Let_def source_rows_def)
  show ?thesis using find_row_unique[OF assms(1) dev(1)] dev(2) by (simp add: current_device_def)
qed

lemma agent_execute_move:
  assumes "unique_on d_id (devices d)" "m_source mv \<noteq> m_target mv"
  shows "\<exists>e. execute_move S agent_adapter ts stop rb limit mv (budget, w, d) = (e, budget, w, d) \<and> e_succeeded e = 0 \<and> e_rolled_back e = 0"
proof -
  let ?devs = "take (nat limit) (movable_devices S agent_adapter ts (m_source mv) w d)"
  have "\<forall>dev\<in>set ?devs. d_server_id (current_device d dev) = m_source mv"
    by (intro ballI movable_on_source[OF assms(1)]) (rule in_set_takeD)
  from agent_migrate_devices[OF assms(2) this, of "\<lparr>x_attempted = 0, x_succeeded = 0, x_failed = 0, x_rolled_back = 0,
      x_rollback_failed = 0, x_migrated = [], x_status = ''completed'', x_budget = budget\<rparr>" stop rb w]
  show ?thesis by (auto simp: execute_move_def Let_def)
qed

lemma agent_execute_moves:
  assumes "unique_on d_id (devices d)" "\<forall>m\<in>set mvs. m_source m \<noteq> m_target m"
  shows "\<exists>rs reason. execute_moves S agent_adapter ts batch stop rb mvs (budget, w, d) = (rs, reason, budget, w, d)
     \<and> (\<forall>e\<in>set rs. e_succeeded e = 0 \<and> e_rolled_back e = 0)"
  using assms(2)
proof (induction mvs)
  case (Cons mv mvs)
  let ?lim = "move_limit mv batch budget"
  from Cons obtain rs reason where rec: "execute_moves S agent_adapter ts batch stop rb mvs (budget, w, d) = (rs, reason, budget, w, d)"
    "\<forall>e\<in>set rs. e_succeeded e = 0 \<and> e_rolled_back e = 0" by auto
  obtain e where e: "execute_move S agent_adapter ts stop rb ?lim mv (budget, w, d) = (e, budget, w, d)" "e_succeeded e = 0" "e_rolled_back e = 0"
    using agent_execute_move[OF assms(1)] Cons.prems by force
  then show ?case using rec by (simp add: Let_def)
qed simp

subsection \<open>Pausing and resuming\<close>

definition unhealthy_for :: "rat \<Rightarrow> node \<Rightarrow> bool" where
  "unhealthy_for threshold n \<longleftrightarrow> n_status n = ''unhealthy'' \<or> n_health_score n < threshold"

text \<open>The flag a node's report asks for; \<^term>\<open>None\<close> when the report says nothing.\<close>

definition wanted_flag :: "rat \<Rightarrow> node \<Rightarrow> bool option" where
  "wanted_flag threshold n = (if unhealthy_for threshold n then Some False
     else if usable_status (n_status n) then Some True else None)"

lemma provisioning_step_server:
  assumes "provisioning_step th n (pr, d) = (pr', d')"
  shows "find_row sv_id i (servers d') =
     (if i = n_node_id n then map_option (\<lambda>s. case wanted_flag th n of None \<Rightarrow> s | Some b \<Rightarrow> s\<lparr>sv_is_active := b\<rparr>) (find_row sv_id i (servers d))
      else find_row sv_id i (servers d))"
    and "servers_update (\<lambda>_. servers d) d' = d"
    and "find_row sv_id (n_node_id n) (servers d) = None \<or> wanted_flag th n \<in> {None, map_option sv_is_active (find_row sv_id (n_node_id n) (servers d))} \<Longrightarrow> pr' = pr \<and> d' = d"
proof -
  obtain p r where pr: "pr = (p, r)" by fastforce
  show "servers_update (\<lambda>_. servers d) d' = d"
    using assms pr by (auto simp: provisioning_step_def Let_def split: option.splits if_splits)
  have upd: "find_row sv_id i (servers (servers_update (upd_row sv_id k (\<lambda>r. r\<lparr>sv_is_active := b\<rparr>)) d)) =
      (if i = k then map_option (\<lambda>r. r\<lparr>sv_is_active := b\<rparr>) (find_row sv_id i (servers d)) else find_row sv_id i (servers d))" for k b
    by (simp add: find_row_upd_same find_row_upd_other)
  show "find_row sv_id i (servers d') =
     (if i = n_node_id n then map_option (\<lambda>s. case wanted_flag th n of None \<Rightarrow> s | Some b \<Rightarrow> s\<lparr>sv_is_active := b\<rparr>) (find_row sv_id i (servers d))
      else find_row sv_id i (servers d))"
  proof (cases "find_row sv_id (n_node_id n) (servers d)")
    case None
    then show ?thesis using assms pr by (auto simp: provisioning_step_def)
  next
    case (Some s)
    have same: "sv_is_active s = b \<Longrightarrow> s\<lparr>sv_is_active := b\<rparr> = s" for b by (cases s) simp
    show ?thesis using assms pr Some same upd[of "n_node_id n"]
      by (auto simp: provisioning_step_def Let_def wanted_flag_def unhealthy_for_def split: if_splits)
  qed
  assume "find_row sv_id (n_node_id n) (servers d) = None \<or> wanted_flag th n \<in> {None, map_option sv_is_active (find_row sv_id (n_node_id n) (servers d))}"
  then show "pr' = pr \<and> d' = d" using assms pr
    by (auto simp: provisioning_step_def Let_def wanted_flag_def unhealthy_for_def split: option.splits if_splits)
qed

lemma provisioning_fold:
  assumes "fold (provisioning_step th) ns (pr, d) = (pr', d')" "distinct (map n_node_id ns)"
  shows "find_row sv_id i (servers d') = (case find_row n_node_id i ns of
       None \<Rightarrow> find_row sv_id i (servers d)
     | Some n \<Rightarrow> map_option (\<lambda>s. case wanted_flag th n of None \<Rightarrow> s | Some b \<Rightarrow> s\<lparr>sv_is_active := b\<rparr>) (find_row sv_id i (servers d)))"
  using assms
proof (induction ns arbitrary: pr d)
  case (Cons n ns)
  obtain pr1 d1 where st: "provisioning_step th n (pr, d) = (pr1, d1)" by fastforce
  note one = provisioning_step_server(1)[OF st, of i]
  have "find_row n_node_id (n_node_id n) ns = None" using Cons.prems(2) by (simp add: find_row_None)
  with Cons.IH[of pr1 d1] Cons.prems st one show ?case by (auto split: option.splits if_splits)
qed simp

lemma provisioning_quiet:
  assumes "\<forall>n\<in>set ns. find_row sv_id (n_node_id n) (servers d) = None
      \<or> wanted_flag th n \<in> {None, map_option sv_is_active (find_row sv_id (n_node_id n) (servers d))}"
  shows "fold (provisioning_step th) ns (pr, d) = (pr, d)"
  using assms
proof (induction ns)
  case (Cons n ns)
  obtain pr1 d1 where st: "provisioning_step th n (pr, d) = (pr1, d1)" by fastforce
  have "pr1 = pr \<and> d1 = d" by (rule provisioning_step_server(3)[OF st]) (use Cons.prems in simp)
  with Cons st show ?case by simp
qed simp

lemma provisioning_no_resume:
  assumes "fold (provisioning_step th) ns (pr, d) = (pr', d')" "distinct (map n_node_id ns)"
    and "\<forall>n\<in>set ns. \<forall>s. find_row sv_id (n_node_id n) (servers d) = Some s \<longrightarrow> sv_is_active s"
  shows "snd pr' = snd pr"
  using assms
proof (induction ns arbitrary: pr d)
  case (Cons n ns)
  obtain pr1 d1 where st: "provisioning_step th n (pr, d) = (pr1, d1)" by fastforce
  have "snd pr1 = snd pr" using st Cons.prems(3)
    by (cases pr) (auto simp: provisioning_step_def Let_def split: option.splits if_splits)
  moreover have "find_row sv_id (n_node_id m) (servers d1) = find_row sv_id (n_node_id m) (servers d)" if "m \<in> set ns" for m
  proof -
    have "n_node_id n \<noteq> n_node_id m" using Cons.prems(2) that by (auto simp: image_iff)
    then show ?thesis using provisioning_step_server(1)[OF st] by simp
  qed
  then have "snd pr' = snd pr1" using Cons.prems st by (intro Cons.IH[of pr1 d1]) auto
  ultimately show ?case by simp
qed simp

lemma agent_discover_ids:
  assumes "agent_discover_nodes w = Inr nodes"
  shows "map n_node_id nodes = map sv_id (filter sv_is_active (aw_servers w))"
  using assms unfolding agent_discover_nodes_def map_result_Inr
  by (induction rule: list_all2_induct) (auto split: option.splits dest: heartbeat_node_row)

subsection \<open>Properties\<close>

text \<open>A world of peers in a table, for evaluation: the node \<^verbatim>\<open>bad\<close> refuses additions.\<close>

definition table_adapter :: "(string \<times> string) list adapter" where
  "table_adapter = \<lparr>ad_discover = (\<lambda>_. Inr []),
     ad_add_peer = (\<lambda>n cfg w. if n = ''bad'' then (Inl (WireGuardCommandError ''wg set failed''), w) else (Inr (), (n, pcf_public_key cfg) # w)),
     ad_remove_peer = (\<lambda>n k w. (Inr (), filter (\<lambda>p. p \<noteq> (n, k)) w)),
     ad_list_peers = (\<lambda>_ _. Inr [])\<rparr>"

interpretation table_rt: peer_runtime table_adapter "\<lambda>w n k. (n, k) \<in> set w" "\<lambda>_. True"
  by unfold_locales (auto simp: table_adapter_def split: if_splits)

definition sample_device :: device where
  "sample_device = \<lparr>d_id = ''D1'', d_user_id = 1, d_subscription_id = ''S1'', d_server_id = ''a'', d_device_name = None,
     d_public_key = ''K1'', d_allowed_ips = Some ''10.8.1.2/32'', d_preshared_key = None, d_issued_at = 0,
     d_revoked_at = None, d_suspended_at = None, d_expires_at = None, d_apply_status = None, d_last_applied_at = None, d_last_error = None\<rparr>"

definition sample_fleet :: db where
  "sample_fleet = empty_db\<lparr>plans := [\<lparr>pl_id = ''P1'', pl_name = ''month'', pl_duration_days = 30, pl_price_amount = 5\<rparr>],
     subscriptions := [\<lparr>s_id = ''S1'', s_user_id = 1, s_plan_id = ''P1'', s_valid_from = 0,
       s_valid_until = days 5, s_device_limit = 2, s_status = ''active'', s_is_trial = False,
       s_trial_ends_at = None, s_paused_at = None, s_pause_reason = None,
       s_reminder_3d_sent_at = None, s_reminder_1d_sent_at = None\<rparr>],
     devices := [sample_device, sample_device\<lparr>d_id := ''D2'', d_public_key := ''K2'', d_revoked_at := Some 1\<rparr>],
     servers := [sample_server ''a'', (sample_server ''b'')\<lparr>sv_is_active := False\<rparr>]\<rparr>"

text \<open>C20. Moving a peer is consistent with the nodes, for any adapter that keeps its contract: when
  it returns, the table says the peer is on the target, and a peer with a client address is there;
  when it raises, the table is unchanged, and if it reports that the source was restored, such a
  peer is on its old node; no other peer is touched on any node.\<close>

theorem migration_consistent:
  assumes "peer_runtime A on client_address" "migrate_peer A dev tgt (w, d) = (r, w', d')" "d_server_id dev \<noteq> tgt"
    and "client_address (strip (case d_allowed_ips dev of None \<Rightarrow> [] | Some a \<Rightarrow> a))"
  shows "(case r of
        Inr _ \<Rightarrow> on w' tgt (d_public_key dev)
          \<and> d' = devices_update (upd_row d_id (d_id dev) (\<lambda>x. x\<lparr>d_server_id := tgt\<rparr>)) d
      | Inl e \<Rightarrow> d' = d
          \<and> (e = WireGuardCommandError ''Add peer on target failed; rollback restored on source''
               \<longrightarrow> on w' (d_server_id dev) (d_public_key dev)))
     \<and> (\<forall>m k. strip k \<noteq> strip (d_public_key dev) \<longrightarrow> on w' m k = on w m k)"
proof (cases r)
  case (Inr u)
  with peer_runtime.migrate_ok[OF assms(1) _ assms(3)] assms(2,4) show ?thesis by auto
next
  case (Inl e)
  with peer_runtime.migrate_fails[OF assms(1)] assms(2,4) show ?thesis by auto
qed

theorem migration_consistent_witness:
  "(\<exists>w' d'. migrate_peer table_adapter sample_device ''b'' ([(''a'', ''K1''), (''a'', ''K9'')], sample_fleet) = (Inr (), w', d')
      \<and> (''b'', ''K1'') \<in> set w' \<and> ((''a'', ''K9'') \<in> set w') = ((''a'', ''K9'') \<in> set [(''a'', ''K1''), (''a'', ''K9'')]))
   \<and> (\<exists>w'. migrate_peer table_adapter sample_device ''bad'' ([(''a'', ''K1'')], sample_fleet)
        = (Inl (WireGuardCommandError ''Add peer on target failed; rollback restored on source''), w', sample_fleet) \<and> (''a'', ''K1'') \<in> set w')"
proof -
  have run: "migrate_peer table_adapter sample_device ''b'' ([(''a'', ''K1''), (''a'', ''K9'')], sample_fleet)
      = (Inr (), [(''b'', ''K1''), (''a'', ''K9'')], devices_update (upd_row d_id ''D1'' (\<lambda>x. x\<lparr>d_server_id := ''b''\<rparr>)) sample_fleet)"
    "migrate_peer table_adapter sample_device ''bad'' ([(''a'', ''K1'')], sample_fleet)
      = (Inl (WireGuardCommandError ''Add peer on target failed; rollback restored on source''), [(''a'', ''K1'')], sample_fleet)"
    by code_simp+
  have s: "d_server_id sample_device \<noteq> ''b''" "d_server_id sample_device \<noteq> ''bad''" "d_public_key sample_device = ''K1''" "d_server_id sample_device = ''a''"
    by (simp_all add: sample_device_def)
  have "strip ''K9'' \<noteq> strip ''K1''" by code_simp
  with migration_consistent[OF table_rt.peer_runtime_axioms run(1) s(1) TrueI] migration_consistent[OF table_rt.peer_runtime_axioms run(2) s(2) TrueI] run s(3,4)
  show ?thesis by simp
qed


definition sample_moves :: "move list" where
  "sample_moves = [\<lparr>m_source = ''a'', m_target = ''b'', m_peers = 3\<rparr>]"

lemma sample_execution:
  "case execute_rebalance_plan default_settings table_adapter 0 sample_moves 25 100 True True ([(''a'', ''K1'')], sample_fleet) of
     ((rs, reason), w', d') \<Rightarrow> map e_succeeded rs = [1] \<and> map e_status rs = [''partial''] \<and> map d_server_id (devices d') = [''b'', ''a'']"
  by code_simp




text \<open>C23. With the agent adapter of production the execution of any plan is inert: no migration
  succeeds and neither the nodes nor the database change.\<close>

theorem agent_execution_inert:
  assumes "unique_on d_id (devices d)" "\<forall>m\<in>set moves. m_source m \<noteq> m_target m"
  shows "\<exists>rs reason. execute_rebalance_plan S agent_adapter now moves batch max_exec stop rb (w, d) = ((rs, reason), w, d)
     \<and> (\<forall>e\<in>set rs. e_succeeded e = 0)"
  using agent_execute_moves[OF assms, of S "int_of_float (int_div now 1000000)" batch stop rb "max 0 max_exec" w]
  by (auto simp: execute_rebalance_plan_def)

theorem agent_execution_inert_witness:
  "\<exists>rs reason. execute_rebalance_plan default_settings agent_adapter 0 sample_moves 25 100 False True (sample_world, sample_fleet)
     = ((rs, reason), sample_world, sample_fleet) \<and> (\<forall>e\<in>set rs. e_succeeded e = 0)"
  by (rule agent_execution_inert) code_simp+

text \<open>C24. Pausing and resuming follow the reports: after a run every server of the topology has the
  flag its node's report asks for, every other server keeps its row, no other table changes, and
  running again changes nothing.\<close>

theorem provisioning_follows_reports:
  assumes "sync_server_provisioning_state topo th d = ((paused, resumed), d')" "distinct (map n_node_id (t_nodes topo))"
  shows "(\<forall>i. find_row sv_id i (servers d') = (case find_row n_node_id i (t_nodes topo) of
        None \<Rightarrow> find_row sv_id i (servers d)
      | Some n \<Rightarrow> map_option (\<lambda>s. case wanted_flag th n of None \<Rightarrow> s | Some b \<Rightarrow> s\<lparr>sv_is_active := b\<rparr>) (find_row sv_id i (servers d))))
     \<and> sync_server_provisioning_state topo th d' = ((0, 0), d')"
proof -
  have f: "fold (provisioning_step th) (t_nodes topo) ((0, 0), d) = ((paused, resumed), d')"
    using assms(1) by (simp add: sync_server_provisioning_state_def)
  note spec = provisioning_fold[OF f assms(2)]
  have "find_row sv_id (n_node_id n) (servers d') = None \<or>
      wanted_flag th n \<in> {None, map_option sv_is_active (find_row sv_id (n_node_id n) (servers d'))}" if "n \<in> set (t_nodes topo)" for n
    using spec[of "n_node_id n"] find_row_unique[of n_node_id "t_nodes topo" n] assms(2) that
    by (auto simp: unique_on_def split: option.splits)
  then have "fold (provisioning_step th) (t_nodes topo) ((0, 0), d') = ((0, 0), d')" by (intro provisioning_quiet) blast
  then show ?thesis using spec by (simp add: sync_server_provisioning_state_def)
qed

theorem provisioning_follows_reports_witness:
  "case sync_server_provisioning_state sample_cluster (1/2) sample_fleet of ((paused, resumed), d') \<Rightarrow>
     (paused, resumed) = (0, 1) \<and> sync_server_provisioning_state sample_cluster (1/2) d' = ((0, 0), d')"
proof -
  have "case sync_server_provisioning_state sample_cluster (1/2) sample_fleet of ((paused, resumed), d') \<Rightarrow> (paused, resumed) = (0, 1)"
    "distinct (map n_node_id (t_nodes sample_cluster))" by code_simp+
  then show ?thesis using provisioning_follows_reports[of sample_cluster "1/2" sample_fleet] by (auto split: prod.splits)
qed



lemma failover_frame:
  "evaluate_failover S topo d = (fo, d') \<Longrightarrow> control_plane_events_update (\<lambda>_. control_plane_events d) d' = d"
proof -
  have fr: "control_plane_events_update (\<lambda>_. es) (snd (fold (failover_step S r c) fs (m, d))) = control_plane_events_update (\<lambda>_. es) d" for es r c fs m d
    by (induction fs arbitrary: m d) (auto simp: failover_step_def log_event_def split: option.splits)
  show "evaluate_failover S topo d = (fo, d') \<Longrightarrow> control_plane_events_update (\<lambda>_. control_plane_events d) d' = d"
    unfolding evaluate_failover_def Let_def
    by (subst (asm) surjective_pairing) (auto simp: fr split: prod.splits dest!: arg_cong[where f = snd])
qed

lemma provisioning_frame:
  "servers_update (\<lambda>_. s) (snd (fold (provisioning_step th) ns (pr, d))) = servers_update (\<lambda>_. s) d"
proof (induction ns arbitrary: pr d)
  case (Cons n ns)
  obtain pr1 d1 where st: "provisioning_step th n (pr, d) = (pr1, d1)" by fastforce
  have "servers_update (\<lambda>_. s) d1 = servers_update (\<lambda>_. s) (servers_update (\<lambda>_. servers d) d1)" by simp
  then show ?case using Cons[of pr1 d1] st provisioning_step_server(2)[OF st] by simp
qed simp


lemma protected_events [simp]:
  "protected_device S (control_plane_events_update f d) = protected_device S d"
  by (rule ext) (simp add: protected_device_def device_subscription_def cong: option.case_cong)

lemma moved_device_events [simp]:
  "moved_device S (control_plane_events_update f d) = moved_device S d"
  by (intro ext) (simp add: moved_device_def)

text \<open>The tables of a database, apart from the three a cycle may write.\<close>

definition cycle_frame :: "db \<Rightarrow> db" where
  "cycle_frame d = d\<lparr>servers := [], devices := [], control_plane_events := []\<rparr>"

lemma cycle_frame_events [simp]: "cycle_frame (control_plane_events_update f d) = cycle_frame d"
  by (simp add: cycle_frame_def)

lemma plan_rebalance_events:
  "plan_rebalance S topo rq d = Inr (p, d') \<Longrightarrow> \<exists>f. d' = control_plane_events_update f d"
  by (auto simp: plan_rebalance_def log_event_def Let_def split: if_splits prod.splits)

lemma failover_events:
  assumes "evaluate_failover S topo d = (fo, d')"
  shows "d' = control_plane_events_update (\<lambda>_. control_plane_events d') d"
proof -
  have "control_plane_events_update (\<lambda>_. control_plane_events d') d
      = control_plane_events_update (\<lambda>_. control_plane_events d') (control_plane_events_update (\<lambda>_. control_plane_events d) d')"
    by (simp only: failover_frame[OF assms])
  then show ?thesis by simp
qed

lemma provisioning_cycle_frame:
  assumes "sync_server_provisioning_state topo th d = (pr, d')"
  shows "cycle_frame d' = cycle_frame d" "devices d' = devices d"
proof -
  have e: "servers_update (\<lambda>_. []) d' = servers_update (\<lambda>_. []) d"
    using provisioning_frame[of "[]" th "t_nodes topo" "(0, 0)" d] assms by (simp add: sync_server_provisioning_state_def)
  then show "cycle_frame d' = cycle_frame d" by (simp add: cycle_frame_def)
  show "devices d' = devices d" using arg_cong[OF e, of devices] by simp
qed

lemma execution_cycle_frame:
  assumes "execute_rebalance_plan S A now moves batch max_exec stop rb (w, d) = ((rs, reason), w', d')"
    and "unique_on d_id (devices d)"
  shows "cycle_frame d' = cycle_frame d" "list_all2 (moved_device S d) (devices d) (devices d')"
    "sum_list (map e_succeeded rs) + sum_list (map e_rolled_back rs) \<le> max 0 max_exec"
proof -
  obtain b where "execute_moves S A (int_of_float (int_div now 1000000)) batch stop rb moves (max 0 max_exec, w, d) = (rs, reason, b, w', d')"
    using assms(1) by (auto simp: execute_rebalance_plan_def Let_def split: prod.splits)
  from execute_moves_spec[OF this assms(2)] have m: "moved_only S d d'"
    and b: "sum_list (map e_succeeded rs) + sum_list (map e_rolled_back rs) \<le> max 0 max_exec" by auto
  from m have "cycle_frame (devices_update (\<lambda>_. devices d) d') = cycle_frame d" by (simp add: moved_only_def)
  moreover have "cycle_frame (devices_update g d') = cycle_frame d'" for g
    unfolding cycle_frame_def by (cases d') simp
  ultimately show "cycle_frame d' = cycle_frame d" by simp
  show "list_all2 (moved_device S d) (devices d) (devices d')" using m by (simp add: moved_only_def)
  show "sum_list (map e_succeeded rs) + sum_list (map e_rolled_back rs) \<le> max 0 max_exec" by (rule b)
qed


definition sample_cycle :: automation_request where
  "sample_cycle = \<lparr>ar_high_watermark = rq_high_watermark sample_request, ar_target_watermark = rq_target_watermark sample_request,
     ar_max_moves_per_node = 50, ar_unhealthy_threshold = 1/2, ar_execute = True, ar_batch_size = 25, ar_max_executions = 100,
     ar_stop_on_error = True, ar_rollback_on_error = True, ar_sync_server_state = True\<rparr>"


end
