(* ===== verification/Ip_Address.thy ===== *)
theory Ip_Address
  imports Prelude
begin

section \<open>Internet addresses as Python reads them\<close>

text \<open>
  The part of Python's \<^verbatim>\<open>ipaddress\<close> module that the sources call: \<^verbatim>\<open>ip_address\<close>,
  \<^verbatim>\<open>ip_interface\<close> and \<^verbatim>\<open>ip_network(..., strict=False)\<close> on text, and \<^verbatim>\<open>str\<close> of an IPv4
  network. An address is its integer value with its version; text that the module refuses with
  \<^verbatim>\<open>ValueError\<close> is \<^const>\<open>None\<close>.
\<close>

datatype ip_version = V4 | V6

text \<open>A network: version, masked network address, prefix length.\<close>

type_synonym ip_network = "ip_version \<times> int \<times> int"

subsection \<open>IPv4\<close>

definition octet_of :: "string \<Rightarrow> int option" where
  "octet_of s = (if isdigit s \<and> length s \<le> 3 \<and> \<not> (s \<noteq> ''0'' \<and> hd s = CHR ''0'') \<and> digits_val s \<le> 255
     then Some (int (digits_val s)) else None)"

definition ip4_of :: "string \<Rightarrow> int option" where
  "ip4_of s = (case map octet_of (split_on CHR ''.'' s) of
       [Some a, Some b, Some c, Some d] \<Rightarrow> Some (((a * 256 + b) * 256 + c) * 256 + d)
     | _ \<Rightarrow> None)"

definition ip4_str :: "int \<Rightarrow> string" where
  "ip4_str v = join ''.'' (map (\<lambda>k. int_str ((v div 256 ^ k) mod 256)) [3, 2, 1, 0])"

definition prefix_of_string :: "int \<Rightarrow> string \<Rightarrow> int option" where
  "prefix_of_string limit s =
     (if isdigit s \<and> int (digits_val s) \<le> limit then Some (int (digits_val s)) else None)"

definition netmask4 :: "nat \<Rightarrow> int" where
  "netmask4 p = (2 ^ p - 1) * 2 ^ (32 - p)"

text \<open>A mask written as an address: a run of ones, or its complement.\<close>

definition prefix4_of_mask :: "int \<Rightarrow> int option" where
  "prefix4_of_mask m =
     (case List.find (\<lambda>p. netmask4 p = m) [0..<33] of
        Some p \<Rightarrow> Some (int p)
      | None \<Rightarrow> map_option int (List.find (\<lambda>p. netmask4 p = 2 ^ 32 - 1 - m) [0..<33]))"

definition prefix4_of :: "string \<Rightarrow> int option" where
  "prefix4_of s = (case prefix_of_string 32 s of
       Some p \<Rightarrow> Some p
     | None \<Rightarrow> (case ip4_of s of None \<Rightarrow> None | Some m \<Rightarrow> prefix4_of_mask m))"

definition mask4 :: "int \<Rightarrow> int \<Rightarrow> int" where
  "mask4 v p = v - v mod 2 ^ nat (32 - p)"

definition net4_of :: "string \<Rightarrow> ip_network option" where
  "net4_of s = (case split_on CHR ''/'' s of
       [a] \<Rightarrow> map_option (\<lambda>v. (V4, v, 32)) (ip4_of a)
     | [a, m] \<Rightarrow> (case (ip4_of a, prefix4_of m) of
           (Some v, Some p) \<Rightarrow> Some (V4, mask4 v p, p) | _ \<Rightarrow> None)
     | _ \<Rightarrow> None)"

subsection \<open>IPv6\<close>

definition is_hex :: "char \<Rightarrow> bool" where
  "is_hex c \<longleftrightarrow> is_digit c \<or> c \<in> set ''abcdefABCDEF''"

definition hex_val :: "char \<Rightarrow> int" where
  "hex_val c = (if is_digit c then int (digit_val c)
     else if is_lower_char c then int (of_char c) - 87 else int (of_char c) - 55)"

definition hextet_of :: "string \<Rightarrow> int option" where
  "hextet_of s = (if s \<noteq> [] \<and> list_all is_hex s \<and> length s \<le> 4
     then Some (foldl (\<lambda>a c. 16 * a + hex_val c) 0 s) else None)"

fun hextets_of :: "string list \<Rightarrow> int list option" where
  "hextets_of [] = Some []"
| "hextets_of (s # ss) = (case (hextet_of s, hextets_of ss) of (Some h, Some hs) \<Rightarrow> Some (h # hs) | _ \<Rightarrow> None)"

text \<open>An embedded IPv4 address at the end counts as two groups.\<close>

definition ip6_groups :: "string list \<Rightarrow> (string list \<times> int list) option" where
  "ip6_groups parts =
     (if CHR ''.'' \<in> set (last parts)
      then map_option (\<lambda>v. (butlast parts, [v div 65536, v mod 65536])) (ip4_of (last parts))
      else Some (parts, []))"

text \<open>
  \<open>gap\<close> is where \<^verbatim>\<open>::\<close> stands: the only empty group strictly inside the list. The groups before it
  and after it are kept; an empty first or last group is allowed only next to the gap.
\<close>

definition ip6_split :: "string list \<Rightarrow> nat \<Rightarrow> (string list \<times> string list \<times> nat) option" where
  "ip6_split parts extra =
     (let n = length parts + extra;
          inner = filter (\<lambda>i. 0 < i \<and> Suc i < n \<and> parts ! i = []) [0..<length parts]
      in if n > 9 then None
         else case inner of
           [] \<Rightarrow> (if n = 8 then Some (parts, [], 0) else None)
         | [gap] \<Rightarrow>
             (let hi = take gap parts; lo = drop (Suc gap) parts;
                  hi' = (if hd parts = [] then [] else hi);
                  lo' = (if extra = 0 \<and> last parts = [] then [] else lo)
              in if hd parts = [] \<and> gap \<noteq> 1 then None
                 else if extra = 0 \<and> last parts = [] \<and> length lo \<noteq> 1 then None
                 else if length hi' + length lo' + extra > 7 then None
                 else Some (hi', lo', 8 - (length hi' + length lo' + extra)))
         | _ \<Rightarrow> None)"

definition ip6_of :: "string \<Rightarrow> int option" where
  "ip6_of s =
     (let a = takeWhile (\<lambda>c. c \<noteq> CHR ''%'') s; r = dropWhile (\<lambda>c. c \<noteq> CHR ''%'') s;
          parts = split_on CHR '':'' a
      in if r \<noteq> [] \<and> (tl r = [] \<or> CHR ''%'' \<in> set (tl r)) then None
         else if a = [] \<or> length parts < 3 then None
         else case ip6_groups parts of
           None \<Rightarrow> None
         | Some (ps, tail) \<Rightarrow>
             (case ip6_split ps (length tail) of
                None \<Rightarrow> None
              | Some (hi, lo, zeros) \<Rightarrow>
                  (case (hextets_of hi, hextets_of lo) of
                     (Some h, Some l) \<Rightarrow>
                       Some (foldl (\<lambda>v g. v * 65536 + g) 0 (h @ replicate zeros 0 @ l @ tail))
                   | _ \<Rightarrow> None)))"

definition net6_of :: "string \<Rightarrow> ip_network option" where
  "net6_of s =
     (let net = (\<lambda>v p. (V6, v - v mod 2 ^ nat (128 - p), p))
      in case split_on CHR ''/'' s of
           [a] \<Rightarrow> map_option (\<lambda>v. net v 128) (ip6_of a)
         | [a, m] \<Rightarrow> (case (ip6_of a, prefix_of_string 128 m) of (Some v, Some p) \<Rightarrow> Some (net v p) | _ \<Rightarrow> None)
         | _ \<Rightarrow> None)"

subsection \<open>The entry points\<close>

definition ip_address :: "string \<Rightarrow> (ip_version \<times> int) option" where
  "ip_address s = (case ip4_of s of Some v \<Rightarrow> Some (V4, v)
     | None \<Rightarrow> (if CHR ''/'' \<in> set s then None else map_option (\<lambda>v. (V6, v)) (ip6_of s)))"

definition ip_network :: "string \<Rightarrow> ip_network option" where
  "ip_network s = (case net4_of s of Some n \<Rightarrow> Some n | None \<Rightarrow> net6_of s)"

definition ip_interface :: "string \<Rightarrow> ip_network option" where
  "ip_interface s = ip_network s"

definition net4_str :: "int \<Rightarrow> int \<Rightarrow> string" where
  "net4_str v p = ip4_str v @ ''/'' @ int_str p"

subsection \<open>Reading what was printed\<close>

lemma digit_char_zero: assumes "d < 10" shows "digit_char d = CHR ''0'' \<longleftrightarrow> d = 0"
proof
  assume "digit_char d = CHR ''0''"
  then have "digit_val (digit_char d) = 0" by (simp add: digit_val_def)
  then show "d = 0" using assms by simp
next
  assume "d = 0"
  have "digit_char 0 = CHR ''0''" by code_simp
  then show "digit_char d = CHR ''0''" using \<open>d = 0\<close> by simp
qed

lemma hd_nat_str: "0 < n \<Longrightarrow> hd (nat_str n) \<noteq> CHR ''0''"
proof (induction n rule: nat_str.induct)
  case (1 n)
  show ?case
  proof (cases "n < 10")
    case True
    then show ?thesis using 1 digit_char_zero[of n] by (simp add: nat_str.simps[of n])
  next
    case False
    then show ?thesis using 1 by (simp add: nat_str.simps[of n] del: nat_str.simps)
  qed
qed

lemma octet_of_int_str:
  assumes "0 \<le> v" "v \<le> 255"
  shows "octet_of (int_str v) = Some v"
proof -
  obtain n where n: "v = int n" "n \<le> 255" using assms by (cases v) auto
  consider "n < 10" | "10 \<le> n" "n < 100" | "100 \<le> n" by linarith
  then have "length (nat_str n) \<le> 3"
    using n(2) by cases (auto simp: nat_str.simps[of n] nat_str.simps[of "n div 10"] nat_str.simps[of "n div 10 div 10"])
  moreover have "nat_str n = ''0'' \<or> hd (nat_str n) \<noteq> CHR ''0''"
    using hd_nat_str[of n] by (cases "n = 0") (auto simp: nat_str.simps[of 0] digit_char_def)
  moreover have "int_str v = nat_str n" by (simp add: int_str_def n(1))
  ultimately show ?thesis using n by (auto simp: octet_of_def)
qed

lemma int_str_no_sep: "0 \<le> v \<Longrightarrow> \<not> is_digit c \<Longrightarrow> c \<notin> set (int_str v)"
  using nat_str_digits[of "nat v"] by (auto simp: int_str_def list_all_iff)

lemma dot_not_digit [simp]: "\<not> is_digit CHR ''.''" "\<not> is_digit CHR ''/''" "\<not> is_digit CHR '':''"
  by (simp_all add: is_digit_def)

lemma ip4_of_ip4_str:
  assumes "0 \<le> v" "v < 2 ^ 32"
  shows "ip4_of (ip4_str v) = Some v"
proof -
  let ?o = "\<lambda>k. (v div 256 ^ k) mod 256"
  have o: "octet_of (int_str (?o k)) = Some (?o k)" for k
    using pos_mod_bound[of 256 "v div 256 ^ k"] by (intro octet_of_int_str) simp_all
  have "split_on CHR ''.'' (ip4_str v) = map (\<lambda>k. int_str (?o k)) [3, 2, 1, 0]"
    unfolding ip4_str_def by (rule split_on_join) (auto simp: int_str_no_sep)
  then have "ip4_of (ip4_str v) = Some (((?o 3 * 256 + ?o 2) * 256 + ?o 1) * 256 + ?o 0)"
    unfolding ip4_of_def by (simp only: list.map o list.case option.case)
  also have "((?o 3 * 256 + ?o 2) * 256 + ?o 1) * 256 + ?o 0 = v"
  proof -
    have p: "(256::int) ^ 3 = 16777216" "(256::int) ^ 2 = 65536" "(256::int) ^ 1 = 256" "(256::int) ^ 0 = 1" by simp_all
    have a: "v div 16777216 mod 256 = v div 16777216" using assms by simp
    have b: "v div 16777216 * 256 + v div 65536 mod 256 = v div 65536"
      using zdiv_zmult2_eq[of 256 v 65536] by simp
    have c: "v div 65536 * 256 + v div 256 mod 256 = v div 256"
      using zdiv_zmult2_eq[of 256 v 256] by simp
    have d: "v div 256 * 256 + v mod 256 = v" by simp
    show ?thesis by (simp only: p a b c d div_by_1)
  qed
  finally show ?thesis .
qed

lemma ip4_str_chars: "c \<in> set (ip4_str v) \<Longrightarrow> is_digit c \<or> c = CHR ''.''"
  using int_str_no_sep[of "v div 256 ^ 3 mod 256" c] int_str_no_sep[of "v div 256 ^ 2 mod 256" c]
    int_str_no_sep[of "v div 256 ^ 1 mod 256" c] int_str_no_sep[of "v div 256 ^ 0 mod 256" c]
  by (auto simp: ip4_str_def)

lemma prefix_of_string_str:
  assumes "0 \<le> p" "p \<le> m"
  shows "prefix_of_string m (int_str p) = Some p"
  using assms by (auto simp: prefix_of_string_def int_str_def)

lemma net4_of_net4_str:
  assumes "0 \<le> v" "v < 2 ^ 32" "0 \<le> p" "p \<le> 32" "mask4 v p = v"
  shows "net4_of (net4_str v p) = Some (V4, v, p)"
proof -
  have "CHR ''/'' \<notin> set (ip4_str v)" using ip4_str_chars[of "CHR ''/''" v] by auto
  moreover have "CHR ''/'' \<notin> set (int_str p)" using assms(3) by (simp add: int_str_no_sep)
  ultimately have "split_on CHR ''/'' (net4_str v p) = [ip4_str v, int_str p]"
    by (simp add: net4_str_def split_on_append split_on_no_sep)
  then show ?thesis
    using assms ip4_of_ip4_str[of v] prefix_of_string_str[of p 32] by (simp add: net4_of_def prefix4_of_def)
qed

end
