(* ===== verification/Base64.thy ===== *)
theory Base64
  imports Prelude
begin

section \<open>Base64 as Python's base64 module reads and writes it\<close>

text \<open>
  \<^verbatim>\<open>b64encode\<close> and \<^verbatim>\<open>b64decode(..., validate=True)\<close> on bytes given as numbers below 256. Decoding
  refuses characters outside the alphabet, a length that is no multiple of four and padding that is
  not at the end.
\<close>

definition b64_char :: "nat \<Rightarrow> char" where
  "b64_char n = (if n < 26 then char_of (65 + n) else if n < 52 then char_of (71 + n)
     else if n < 62 then char_of (n - 4) else if n = 62 then CHR ''+'' else CHR ''/'')"

definition b64_val :: "char \<Rightarrow> nat option" where
  "b64_val c = (if is_upper_char c then Some (of_char c - 65)
     else if is_lower_char c then Some (of_char c - 71)
     else if is_digit c then Some (of_char c + 4)
     else if c = CHR ''+'' then Some 62 else if c = CHR ''/'' then Some 63 else None)"

fun b64encode :: "nat list \<Rightarrow> string" where
  "b64encode [] = []"
| "b64encode [a] = [b64_char (a div 4), b64_char (a mod 4 * 16), CHR ''='', CHR ''='']"
| "b64encode [a, b] =
     [b64_char (a div 4), b64_char (a mod 4 * 16 + b div 16), b64_char (b mod 16 * 4), CHR ''='']"
| "b64encode (a # b # c # bs) =
     [b64_char (a div 4), b64_char (a mod 4 * 16 + b div 16), b64_char (b mod 16 * 4 + c div 64), b64_char (c mod 64)]
       @ b64encode bs"

fun b64decode :: "string \<Rightarrow> nat list option" where
  "b64decode [] = Some []"
| "b64decode (a # b # c # d # s) =
     (case (b64_val a, b64_val b) of
        (Some x, Some y) \<Rightarrow>
          (case (b64_val c, b64_val d) of
             (Some z, Some u) \<Rightarrow>
               map_option (\<lambda>r. [x * 4 + y div 16, y mod 16 * 16 + z div 4, z mod 4 * 64 + u] @ r) (b64decode s)
           | (Some z, None) \<Rightarrow>
               if d = CHR ''='' \<and> s = [] then Some [x * 4 + y div 16, y mod 16 * 16 + z div 4] else None
           | (None, None) \<Rightarrow>
               if c = CHR ''='' \<and> d = CHR ''='' \<and> s = [] then Some [x * 4 + y div 16] else None
           | _ \<Rightarrow> None)
      | _ \<Rightarrow> None)"
| "b64decode _ = None"

text \<open>The pattern \<^verbatim>\<open>^[A-Za-z0-9+/]+=*$\<close>, on text without a final line break.\<close>

definition is_b64_char :: "char \<Rightarrow> bool" where
  "is_b64_char c \<longleftrightarrow> b64_val c \<noteq> None"

definition b64_shape :: "string \<Rightarrow> bool" where
  "b64_shape s \<longleftrightarrow> takeWhile is_b64_char s \<noteq> [] \<and> list_all (\<lambda>c. c = CHR ''='') (dropWhile is_b64_char s)"

subsection \<open>Decoding what was encoded\<close>

lemma b64_val_char [simp]: "n < 64 \<Longrightarrow> b64_val (b64_char n) = Some n"
  by (auto simp: b64_char_def b64_val_def is_upper_char_def is_lower_char_def is_digit_def)

lemma is_b64_char_char [simp]: "n < 64 \<Longrightarrow> is_b64_char (b64_char n)"
  by (simp add: is_b64_char_def)

lemma b64_val_pad [simp]: "b64_val CHR ''='' = None"
  by code_simp

lemma byte_sextets:
  assumes "(a::nat) < 256" "b < 256" "c < 256"
  shows "a div 4 < 64" "a mod 4 * 16 < 64" "a mod 4 * 16 + b div 16 < 64" "b mod 16 * 4 < 64"
    "b mod 16 * 4 + c div 64 < 64" "c mod 64 < 64"
proof -
  show "a div 4 < 64" "a mod 4 * 16 < 64" "b mod 16 * 4 < 64" "c mod 64 < 64" using assms by auto
  have "b div 16 < 16" "a mod 4 \<le> 3" "b mod 16 \<le> 15" "c div 64 < 4" using assms by auto
  then show "a mod 4 * 16 + b div 16 < 64" "b mod 16 * 4 + c div 64 < 64" by linarith+
qed

lemma sextets_byte:
  assumes "(a::nat) < 256" "b < 256" "c < 256"
  shows "a div 4 * 4 + a mod 4 * 16 div 16 = a"
    and "a div 4 * 4 + (a mod 4 * 16 + b div 16) div 16 = a"
    and "(a mod 4 * 16 + b div 16) mod 16 * 16 + b mod 16 * 4 div 4 = b"
    and "(a mod 4 * 16 + b div 16) mod 16 * 16 + (b mod 16 * 4 + c div 64) div 4 = b"
    and "(b mod 16 * 4 + c div 64) mod 4 * 64 + c mod 64 = c"
proof -
  have q: "b div 16 < 16" "c div 64 < 4" using assms by auto
  show "a div 4 * 4 + a mod 4 * 16 div 16 = a" by simp
  show "a div 4 * 4 + (a mod 4 * 16 + b div 16) div 16 = a" using q by (simp add: div_add1_eq)
  have m: "(a mod 4 * 16 + b div 16) mod 16 = b div 16" using q by simp
  show "(a mod 4 * 16 + b div 16) mod 16 * 16 + b mod 16 * 4 div 4 = b" unfolding m by simp
  have "(b mod 16 * 4 + c div 64) div 4 = b mod 16" using q by simp
  then show "(a mod 4 * 16 + b div 16) mod 16 * 16 + (b mod 16 * 4 + c div 64) div 4 = b" unfolding m by simp
  have "(b mod 16 * 4 + c div 64) mod 4 = c div 64" using q by simp
  then show "(b mod 16 * 4 + c div 64) mod 4 * 64 + c mod 64 = c" by simp
qed

lemma b64decode_encode:
  "list_all (\<lambda>b. b < 256) bs \<Longrightarrow> b64decode (b64encode bs) = Some bs"
proof (induction bs rule: b64encode.induct)
  case (2 a)
  then show ?case using byte_sextets[of a 0 0] sextets_byte[of a 0 0] by simp
next
  case (3 a b)
  then show ?case using byte_sextets[of a b 0] sextets_byte[of a b 0] by simp
next
  case (4 a b c bs)
  then have "a < 256" "b < 256" "c < 256" by simp_all
  note r = byte_sextets[OF this] sextets_byte[OF this]
  show ?case using 4 by (simp add: r del: div_mult_self3 mod_mult_self3 div_mult_self1 mod_mult_self1)
qed simp

lemma length_b64encode: "length (b64encode bs) = 4 * ((length bs + 2) div 3)"
proof (induction bs rule: b64encode.induct)
  case (4 a b c bs)
  have "(length (a # b # c # bs) + 2) div 3 = Suc ((length bs + 2) div 3)"
    using div_add_self2[of 3 "length bs + 2"] by simp
  with 4 show ?case by simp
qed simp_all

lemma b64_shape_encode:
  "list_all (\<lambda>b. b < 256) bs \<Longrightarrow> bs \<noteq> [] \<Longrightarrow> b64_shape (b64encode bs)"
proof (induction bs rule: b64encode.induct)
  case (2 a)
  then show ?case using byte_sextets[of a 0 0] by (simp add: b64_shape_def is_b64_char_def)
next
  case (3 a b)
  then show ?case using byte_sextets[of a b 0] by (simp add: b64_shape_def is_b64_char_def)
next
  case (4 a b c bs)
  then show ?case using byte_sextets[of a b c] by (cases bs) (simp_all add: b64_shape_def)
qed simp

lemma b64encode_chars:
  "list_all (\<lambda>b. b < 256) bs \<Longrightarrow> c \<in> set (b64encode bs) \<Longrightarrow> is_b64_char c \<or> c = CHR ''=''"
proof (induction bs rule: b64encode.induct)
  case (2 a)
  then show ?case using byte_sextets[of a 0 0] by auto
next
  case (3 a b)
  then show ?case using byte_sextets[of a b 0] by auto
next
  case (4 a b c bs)
  then show ?case using byte_sextets[of a b c] by auto
qed simp

lemma b64_char_not_space: "is_b64_char c \<or> c = CHR ''='' \<Longrightarrow> \<not> is_space c"
  by (auto simp: is_b64_char_def b64_val_def is_space_def is_upper_char_def is_lower_char_def is_digit_def split: if_splits)

lemma strip_b64encode: "list_all (\<lambda>b. b < 256) bs \<Longrightarrow> strip (b64encode bs) = b64encode bs"
  using b64encode_chars b64_char_not_space by (intro strip_no_space) blast

end
