(* ===== verification/Config_Builder.thy ===== *)
theory Config_Builder
  imports Models Ip_Address Base64
begin

section \<open>Client configurations\<close>

text \<open>
  \<^verbatim>\<open>core/config_builder.py\<close> and \<^verbatim>\<open>core/amnezia_config.py\<close>: validation of keys, endpoints and
  addresses, normalisation of the obfuscation parameters for the two AmneziaWG dialects, and the
  text of a client configuration. Python's regular expressions are written
  out as predicates; their \<^verbatim>\<open>$\<close> also matches before a final line break, as in the sources.
  Randomness is an argument of the functions that draw it. Two messages are shortened: the one
  about S1 and S2, and that of Python's own \<^verbatim>\<open>int\<close>.
\<close>

abbreviation NL :: char where "NL \<equiv> CHR 0x0A"

subsection \<open>Validation\<close>

definition or_empty :: "string option \<Rightarrow> string" where
  "or_empty s = (case s of None \<Rightarrow> [] | Some x \<Rightarrow> x)"

definition validate_key_b64 :: "string \<Rightarrow> string \<Rightarrow> string result" where
  "validate_key_b64 key_b64 name =
     (let k = strip key_b64; n = length k;
          padded = k @ replicate ((4 - n mod 4) mod 4) CHR ''=''
      in if key_b64 = [] then Inl (ValueError (name @ '' is empty or invalid''))
         else if \<not> (43 \<le> n \<and> n \<le> 44)
         then Inl (ValueError (name @ '' length '' @ nat_str n @ '' invalid (expected 43-44)''))
         else if \<not> b64_shape k then Inl (ValueError (name @ '' contains invalid base64 characters''))
         else case b64decode padded of
           None \<Rightarrow> Inl (ValueError (name @ '' base64 decode failed''))
         | Some raw \<Rightarrow>
             if length raw \<noteq> 32 then Inl (ValueError (name @ '' decoded length invalid (expected 32 bytes)''))
             else Inr k)"

text \<open>\<^verbatim>\<open>^[A-Za-z0-9](?:[A-Za-z0-9-]{0,61}[A-Za-z0-9])?$\<close>\<close>

definition hostname_label :: "string \<Rightarrow> bool" where
  "hostname_label l \<longleftrightarrow> l \<noteq> [] \<and> length l \<le> 63 \<and> is_alnum (hd l) \<and> is_alnum (last l)
     \<and> list_all (\<lambda>c. is_alnum c \<or> c = CHR ''-'') l"

definition label_match :: "string \<Rightarrow> bool" where
  "label_match l \<longleftrightarrow> hostname_label l \<or> (l \<noteq> [] \<and> last l = NL \<and> hostname_label (butlast l))"

definition is_valid_hostname :: "string \<Rightarrow> bool" where
  "is_valid_hostname host \<longleftrightarrow> host \<noteq> [] \<and> length host \<le> 253
     \<and> list_all label_match (split_on CHR ''.'' (if last host = CHR ''.'' then butlast host else host))"

text \<open>\<^verbatim>\<open>s.rsplit(c, 1)\<close> and \<^verbatim>\<open>s.split(c, 1)\<close> of a text that contains \<open>c\<close>.\<close>

definition rsplit1 :: "char \<Rightarrow> string \<Rightarrow> string \<times> string" where
  "rsplit1 c s = (rev (tl (dropWhile (\<lambda>x. x \<noteq> c) (rev s))), rev (takeWhile (\<lambda>x. x \<noteq> c) (rev s)))"

definition split1 :: "char \<Rightarrow> string \<Rightarrow> string \<times> string" where
  "split1 c s = (takeWhile (\<lambda>x. x \<noteq> c) s, tl (dropWhile (\<lambda>x. x \<noteq> c) s))"

text \<open>The test of the port range stands in the block whose handler replaces its message.\<close>

definition check_port :: "string \<Rightarrow> string \<Rightarrow> string \<Rightarrow> string result" where
  "check_port host port s =
     (if host = [] then Inl (ValueError ''Endpoint host is empty'')
      else case py_int port of
        None \<Rightarrow> Inl (ValueError ''Endpoint port must be numeric'')
      | Some p \<Rightarrow> if \<not> (1 \<le> p \<and> p \<le> 65535) then Inl (ValueError ''Endpoint port must be numeric'') else Inr s)"

definition validate_endpoint :: "string option \<Rightarrow> string result" where
  "validate_endpoint endpoint =
     (let s = strip (or_empty endpoint) in
      if s = [] then Inl (ValueError ''Endpoint (vpn_endpoint) required; set server.vpn_endpoint or client_endpoint'')
      else if startswith s ''['' then
        (if CHR '']'' \<notin> set s then Inl (ValueError ''Endpoint IPv6 must be in [addr]:port form'')
         else let (host, rest) = split1 CHR '']'' (tl s) in
           if \<not> startswith rest '':'' then Inl (ValueError ''Endpoint must be host:port'')
           else case ip_address host of
             Some (V6, _) \<Rightarrow> check_port host (tl rest) s
           | _ \<Rightarrow> Inl (ValueError ''Endpoint IPv6 address invalid''))
      else if CHR '':'' \<notin> set s then Inl (ValueError ''Endpoint must be host:port'')
      else let (host, port) = rsplit1 CHR '':'' s in
        if (case ip_address host of Some (V4, _) \<Rightarrow> True | _ \<Rightarrow> is_valid_hostname host)
        then check_port host port s
        else Inl (ValueError ''Endpoint host invalid''))"

definition validate_address :: "string \<Rightarrow> string result" where
  "validate_address address =
     (let s = strip address in
      if s = [] then Inl (ValueError ''Address (Interface) required; client tunnel IP/CIDR'')
      else if CHR ''/'' \<notin> set s then Inl (ValueError ''Address must be CIDR (e.g. 10.8.1.2/32)'')
      else if ip_interface s = None then Inl (ValueError ''Address must be valid CIDR (e.g. 10.8.1.2/32)'')
      else Inr s)"

definition validate_allowed_ips :: "string \<Rightarrow> string result" where
  "validate_allowed_ips allowed_ips =
     (let items = map strip (split_on CHR '','' allowed_ips) in
      if strip allowed_ips = [] then Inl (ValueError ''AllowedIPs required'')
      else if [] \<in> set items then Inl (ValueError ''AllowedIPs contains empty item'')
      else case List.find (\<lambda>i. ip_network i = None) items of
        Some i \<Rightarrow> Inl (ValueError (''AllowedIPs invalid CIDR: '' @ i))
      | None \<Rightarrow> Inr (join '', '' items))"

subsection \<open>Obfuscation parameters\<close>

definition AWG_LEGACY_KEYS :: "string list" where
  "AWG_LEGACY_KEYS = [''I1'', ''I2'', ''I3'', ''I4'', ''I5'', ''S1'', ''S2'', ''Jc'', ''Jmin'', ''Jmax'']"

definition AWG_ASC_KEYS :: "string list" where
  "AWG_ASC_KEYS = [''I1'', ''I2'', ''I3'', ''I4'', ''I5'', ''S1'', ''S2'', ''S3'', ''S4'', ''Jc'', ''Jmin'', ''Jmax'',
     ''H1'', ''H2'', ''H3'', ''H4'']"

definition AWG_EMIT_ORDER :: "string list" where
  "AWG_EMIT_ORDER = [''Jc'', ''Jmin'', ''Jmax'', ''S1'', ''S2'', ''S3'', ''S4'', ''H1'', ''H2'', ''H3'', ''H4'',
     ''I1'', ''I2'', ''I3'', ''I4'', ''I5'']"

definition i_keys :: "string list" where "i_keys = [''I1'', ''I2'', ''I3'', ''I4'', ''I5'']"
definition h_keys :: "string list" where "h_keys = [''H1'', ''H2'', ''H3'', ''H4'']"

text \<open>A loop whose body may raise: it stops at the first error.\<close>

fun mfold :: "('k \<Rightarrow> 's \<Rightarrow> 's result) \<Rightarrow> 'k list \<Rightarrow> 's \<Rightarrow> 's result" where
  "mfold f [] s = Inr s"
| "mfold f (k # ks) s = rbind (f k s) (mfold f ks)"

definition validate_s1_s2 :: "int \<Rightarrow> int \<Rightarrow> unit result" where
  "validate_s1_s2 s1 s2 = (if s1 + 56 = s2 then Inl (ValueError ''AmneziaWG kernel requires S1+56 != S2'') else Inr ())"

definition validate_jmin_jmax :: "int \<Rightarrow> int \<Rightarrow> unit result" where
  "validate_jmin_jmax jmin jmax =
     (if jmin > jmax then Inl (ValueError (''Jmin ('' @ int_str jmin @ '') must be <= Jmax ('' @ int_str jmax @ '')'')) else Inr ())"

definition lstrip_minus :: "string \<Rightarrow> string" where
  "lstrip_minus s = dropWhile (\<lambda>c. c = CHR ''-'') s"

definition parse_int :: "pyval \<Rightarrow> string \<Rightarrow> int result" where
  "parse_int v name =
     (let bad = Inl (ValueError (name @ '' must be integer'')) in
      case v of
        VBool _ \<Rightarrow> bad
      | VStr s \<Rightarrow> if \<not> isdigit (lstrip_minus (strip s)) then bad
                  else (case py_int s of None \<Rightarrow> bad | Some i \<Rightarrow> Inr i)
      | _ \<Rightarrow> (case py_int_val v of Inl _ \<Rightarrow> bad | Inr i \<Rightarrow> Inr i))"

text \<open>
  A header value is one number or a range \<^verbatim>\<open>lo-hi\<close>, with the text it is printed as. A text such as
  \<^verbatim>\<open>--5\<close> passes the digit test and makes \<^verbatim>\<open>int\<close> raise.
\<close>

definition parse_h_value :: "pyval \<Rightarrow> string \<Rightarrow> (int \<times> int \<times> string) result" where
  "parse_h_value v name =
     (let bad = Inl (ValueError (name @ '' must be integer or range'')) in
      case v of
        VInt i \<Rightarrow> Inr (i, i, int_str i)
      | VStr t \<Rightarrow>
          (let s = strip t; left = strip (fst (split1 CHR ''-'' s)); right = strip (snd (split1 CHR ''-'' s)) in
           if isdigit (lstrip_minus s) then
             (case py_int s of None \<Rightarrow> Inl (ValueError ''invalid literal for int()'') | Some i \<Rightarrow> Inr (i, i, int_str i))
           else if CHR ''-'' \<in> set s \<and> isdigit left \<and> isdigit right
           then let lo = int (digits_val left); hi = int (digits_val right) in Inr (lo, hi, int_str lo @ ''-'' @ int_str hi)
           else bad)
      | _ \<Rightarrow> bad)"

text \<open>The numeric keys: absent or at most zero is left out, otherwise \<open>ok\<close> decides.\<close>

definition put_number :: "payload \<Rightarrow> (string \<Rightarrow> int \<Rightarrow> string option) \<Rightarrow> string \<Rightarrow> payload \<Rightarrow> payload result" where
  "put_number obf complaint k out =
     (if pget obf k = VNone then Inr out
      else rbind (parse_int (pget obf k) k) (\<lambda>i.
        if i \<le> 0 then Inr out
        else case complaint k i of Some m \<Rightarrow> Inl (ValueError m) | None \<Rightarrow> Inr (out @ [(k, VInt i)])))"

definition put_text :: "payload \<Rightarrow> string \<Rightarrow> payload \<Rightarrow> payload result" where
  "put_text obf k out = (case pget obf k of
       VNone \<Rightarrow> Inr out
     | VStr s \<Rightarrow> if strip s = [] then Inl (ValueError (k @ '' must be non-empty string'')) else Inr (out @ [(k, VStr (strip s))])
     | _ \<Rightarrow> Inl (ValueError (k @ '' must be non-empty string'')))"

definition pair_checks :: "payload \<Rightarrow> payload result" where
  "pair_checks out =
     rbind (case (pget out ''S1'', pget out ''S2'') of (VInt a, VInt b) \<Rightarrow> validate_s1_s2 a b | _ \<Rightarrow> Inr ()) (\<lambda>_.
     rbind (case (pget out ''Jmin'', pget out ''Jmax'') of (VInt a, VInt b) \<Rightarrow> validate_jmin_jmax a b | _ \<Rightarrow> Inr ()) (\<lambda>_.
       Inr out))"

definition legacy_key_ok :: "string \<times> pyval \<Rightarrow> bool" where
  "legacy_key_ok = (\<lambda>(k, v). k \<in> set AWG_LEGACY_KEYS \<or> (k \<in> set h_keys \<and>
     (case v of VNone \<Rightarrow> True | VInt i \<Rightarrow> i \<le> 0 | VBool b \<Rightarrow> \<not> b | VStr s \<Rightarrow> strip s \<in> {[], ''0''} | _ \<Rightarrow> False)))"

definition legacy_complaint :: "string \<Rightarrow> int \<Rightarrow> string option" where
  "legacy_complaint k i =
     (if k = ''Jc'' \<and> \<not> (0 \<le> i \<and> i \<le> 10) then Some ''Jc out of range for legacy profile''
      else if k \<in> {''Jmin'', ''Jmax''} \<and> \<not> (64 \<le> i \<and> i \<le> 1024) then Some (k @ '' out of range for legacy profile'')
      else if k \<in> {''S1'', ''S2''} \<and> \<not> (0 \<le> i \<and> i \<le> 64) then Some (k @ '' out of range for legacy profile'')
      else None)"

definition normalize_obfuscation_legacy :: "payload \<Rightarrow> payload result" where
  "normalize_obfuscation_legacy obf =
     (case List.find (\<lambda>e. \<not> legacy_key_ok e) obf of
        Some (k, _) \<Rightarrow> Inl (ValueError (''unsupported_key:'' @ k))
      | None \<Rightarrow>
          rbind (mfold (put_number obf legacy_complaint) [''Jc'', ''Jmin'', ''Jmax'', ''S1'', ''S2''] []) (\<lambda>out1.
          rbind (mfold (put_text obf) i_keys out1) pair_checks))"

definition awg2_complaint :: "int option \<Rightarrow> string \<Rightarrow> int \<Rightarrow> string option" where
  "awg2_complaint mtu k i =
     (let base_mtu = (case mtu of None \<Rightarrow> 1280 | Some m \<Rightarrow> if m = 0 then 1280 else m) in
      if k = ''Jc'' \<and> \<not> (1 \<le> i \<and> i \<le> 128) then Some ''Jc out of range for awg_2_0_asc profile''
      else if k \<in> {''Jmin'', ''Jmax''} \<and> \<not> (1 \<le> i \<and> i \<le> 1280) then Some (k @ '' out of range for awg_2_0_asc profile'')
      else if k = ''S1'' \<and> i > max 0 (base_mtu - 148) then Some ''S1 exceeds MTU-derived maximum''
      else if k = ''S2'' \<and> i > max 0 (base_mtu - 92) then Some ''S2 exceeds MTU-derived maximum''
      else None)"

type_synonym h_range = "string \<times> int \<times> int"

definition put_header :: "payload \<Rightarrow> string \<Rightarrow> payload \<times> h_range list \<Rightarrow> (payload \<times> h_range list) result" where
  "put_header obf k = (\<lambda>(out, rs).
     if pget obf k = VNone then Inr (out, rs)
     else rbind (parse_h_value (pget obf k) k) (\<lambda>(lo, hi, rendered).
       if hi \<le> 0 then Inr (out, rs)
       else if lo > 4294967295 \<or> hi > 4294967295
       then Inl (ValueError (k @ '' out of range for awg_2_0_asc profile (got '' @ rendered @ '', max 4294967295)''))
       else if lo > hi then Inl (ValueError (k @ '' range invalid''))
       else Inr (out @ [(k, VStr rendered)], rs @ [(k, lo, hi)])))"

definition ranges_overlap :: "h_range \<Rightarrow> h_range \<Rightarrow> bool" where
  "ranges_overlap = (\<lambda>(_, la, ha) (_, lb, hb). max la lb \<le> min ha hb)"

fun find_overlap :: "h_range list \<Rightarrow> (string \<times> string) option" where
  "find_overlap [] = None"
| "find_overlap (r # rs) = (case List.find (ranges_overlap r) rs of
       Some q \<Rightarrow> Some (fst r, fst q)
     | None \<Rightarrow> find_overlap rs)"

definition normalize_obfuscation_awg2 :: "payload \<Rightarrow> int option \<Rightarrow> payload result" where
  "normalize_obfuscation_awg2 obf mtu =
     (case List.find (\<lambda>(k, _). k \<notin> set AWG_ASC_KEYS) obf of
        Some (k, _) \<Rightarrow> Inl (ValueError (''unsupported_key:'' @ k))
      | None \<Rightarrow>
          rbind (mfold (put_number obf (awg2_complaint mtu)) [''Jc'', ''Jmin'', ''Jmax'', ''S1'', ''S2'', ''S3'', ''S4''] []) (\<lambda>out1.
          rbind (mfold (put_text obf) i_keys out1) (\<lambda>out2.
          rbind (mfold (put_header obf) h_keys (out2, [])) (\<lambda>(out3, rs).
            case find_overlap rs of
              Some (a, b) \<Rightarrow> Inl (ValueError (a @ '' and '' @ b @ '' ranges overlap''))
            | None \<Rightarrow> pair_checks out3))))"

subsection \<open>Keys\<close>

definition generate_preshared_key :: "nat list \<Rightarrow> string" where
  "generate_preshared_key random_bytes = strip (b64encode random_bytes)"

text \<open>The X25519 library is an argument: the public bytes of a private key.\<close>

definition generate_wg_keypair :: "(nat list \<Rightarrow> nat list) \<Rightarrow> nat list \<Rightarrow> string \<times> string" where
  "generate_wg_keypair x25519_public private_bytes =
     (strip (b64encode private_bytes), strip (b64encode (x25519_public private_bytes)))"

text \<open>\<open>draw n\<close> is the \<open>n\<close>-th 32-bit random number; \<open>fuel\<close> bounds the draws.\<close>

fun generate_h_params :: "(nat \<Rightarrow> int) \<Rightarrow> nat \<Rightarrow> nat \<Rightarrow> int list \<Rightarrow> int list option" where
  "generate_h_params draw n fuel seen =
     (if length seen \<ge> 4 then Some (rev seen)
      else case fuel of
        0 \<Rightarrow> None
      | Suc f \<Rightarrow> generate_h_params draw (Suc n) f
                   (if draw n \<noteq> 0 \<and> draw n \<notin> set seen then draw n # seen else seen))"

subsection \<open>The configuration text\<close>

datatype config_profile = Wireguard_universal | Awg_legacy_or_basic | Awg_2_0_asc | Mobile_optimized

record interface_fields =
  if_private_key :: string
  if_address :: string
  if_dns :: "string option"
  if_mtu :: "int option"

record peer_fields =
  pf_public_key :: string
  pf_endpoint :: string
  pf_allowed_ips :: string
  pf_keepalive :: int
  pf_preshared_key :: "string option"

definition DEFAULT_ADDRESS :: string where "DEFAULT_ADDRESS = ''10.8.1.2/32''"
definition DEFAULT_MTU_MOBILE :: int where "DEFAULT_MTU_MOBILE = 1200"
definition DEFAULT_DNS :: string where "DEFAULT_DNS = ''1.1.1.1, 1.0.0.1, 8.8.8.8, 8.8.4.4''"

definition error_text :: "'a result \<Rightarrow> string list" where
  "error_text r = (case r of Inl (ValueError m) \<Rightarrow> [m] | _ \<Rightarrow> [])"

definition config_errors :: "interface_fields \<Rightarrow> peer_fields \<Rightarrow> config_profile \<Rightarrow> payload \<Rightarrow> string list" where
  "config_errors i p profile obf =
     error_text (validate_key_b64 (if_private_key i) ''PrivateKey'')
     @ error_text (validate_address (if_address i))
     @ error_text (validate_key_b64 (pf_public_key p) ''PublicKey'')
     @ error_text (validate_endpoint (Some (pf_endpoint p)))
     @ error_text (validate_allowed_ips (pf_allowed_ips p))
     @ (if profile = Wireguard_universal \<and> obf \<noteq> [] then [''obfuscation not allowed in wireguard_universal profile''] else [])"

definition config_mtu :: "config_profile \<Rightarrow> int option \<Rightarrow> int option" where
  "config_mtu profile mtu =
     (if profile = Mobile_optimized \<and> (case mtu of None \<Rightarrow> True | Some m \<Rightarrow> m \<le> 0) then Some DEFAULT_MTU_MOBILE else mtu)"

definition config_obfuscation :: "config_profile \<Rightarrow> payload \<Rightarrow> int option \<Rightarrow> payload result" where
  "config_obfuscation profile obf mtu =
     (if obf = [] \<or> profile = Wireguard_universal then Inr []
      else if profile = Awg_legacy_or_basic then normalize_obfuscation_legacy obf
      else normalize_obfuscation_awg2 obf mtu)"

definition wrap_errors :: "'a result \<Rightarrow> 'a result" where
  "wrap_errors r = (case r of Inl (ValueError m) \<Rightarrow> Inl (ConfigValidationError [m]) | _ \<Rightarrow> r)"

definition setting :: "string \<Rightarrow> string \<Rightarrow> string" where
  "setting k v = k @ '' = '' @ v"

definition config_lines :: "interface_fields \<Rightarrow> peer_fields \<Rightarrow> int option \<Rightarrow> payload \<Rightarrow> string option \<Rightarrow> string list" where
  "config_lines i p mtu obf psk =
     [''[Interface]'', setting ''PrivateKey'' (strip (if_private_key i)), setting ''Address'' (strip (if_address i)),
      setting ''DNS'' (case if_dns i of None \<Rightarrow> DEFAULT_DNS | Some dns \<Rightarrow> if dns = [] then DEFAULT_DNS else strip dns)]
     @ (case mtu of Some m \<Rightarrow> if m > 0 then [setting ''MTU'' (int_str m)] else [] | None \<Rightarrow> [])
     @ map (\<lambda>k. setting k (py_str (pget obf k))) (filter (\<lambda>k. map_of obf k \<noteq> None) AWG_EMIT_ORDER)
     @ ['''', ''[Peer]'', setting ''PublicKey'' (strip (pf_public_key p)), setting ''Endpoint'' (strip (pf_endpoint p)),
        setting ''AllowedIPs'' (join '', '' (map strip (split_on CHR '','' (pf_allowed_ips p)))),
        setting ''PersistentKeepalive'' (int_str (pf_keepalive p))]
     @ (case psk of None \<Rightarrow> [] | Some k \<Rightarrow> [setting ''PresharedKey'' k])"

definition build_config :: "interface_fields \<Rightarrow> peer_fields \<Rightarrow> config_profile \<Rightarrow> payload \<Rightarrow> string result" where
  "build_config i p profile obfuscation =
     (if config_errors i p profile obfuscation \<noteq> []
      then Inl (ConfigValidationError (config_errors i p profile obfuscation))
      else
        rbind (wrap_errors (config_obfuscation profile obfuscation (config_mtu profile (if_mtu i)))) (\<lambda>obf.
        rbind (case pf_preshared_key p of
                 None \<Rightarrow> Inr None
               | Some k \<Rightarrow> if k = [] then Inr None
                           else wrap_errors (rbind (validate_key_b64 k ''PresharedKey'') (\<lambda>v. Inr (Some v)))) (\<lambda>psk.
          Inr (join [NL] (config_lines i p (config_mtu profile (if_mtu i)) obf psk) @ [NL]))))"

subsection \<open>Entry points for clients\<close>

definition int_param :: "payload \<Rightarrow> string \<Rightarrow> int \<Rightarrow> int result" where
  "int_param rp k dflt = py_int_val (pget_default rp k (VInt dflt))"

definition i_params :: "payload \<Rightarrow> payload" where
  "i_params rp = concat (map (\<lambda>(k, pk). case map_of rp pk of
        None \<Rightarrow> []
      | Some v \<Rightarrow> [(k, VStr (if v = VNone then [] else py_str v))])
      [(''I1'', ''amnezia_i1''), (''I2'', ''amnezia_i2''), (''I3'', ''amnezia_i3''), (''I4'', ''amnezia_i4''), (''I5'', ''amnezia_i5'')])"

definition get_obfuscation_params :: "payload \<Rightarrow> payload result" where
  "get_obfuscation_params rp =
     (if rp = [] then rbind (validate_s1_s2 213 237) (\<lambda>_.
        Inr [(''Jc'', VInt 3), (''Jmin'', VInt 10), (''Jmax'', VInt 50), (''S1'', VInt 213), (''S2'', VInt 237),
             (''H1'', VInt 10), (''H2'', VInt 20), (''H3'', VInt 30), (''H4'', VInt 40)])
      else
        rbind (int_param rp ''amnezia_s1'' 213) (\<lambda>s1.
        rbind (int_param rp ''amnezia_s2'' 237) (\<lambda>s2.
        rbind (validate_s1_s2 s1 s2) (\<lambda>_.
        rbind (int_param rp ''amnezia_jc'' 3) (\<lambda>jc.
        rbind (int_param rp ''amnezia_jmin'' 10) (\<lambda>jmin.
        rbind (int_param rp ''amnezia_jmax'' 50) (\<lambda>jmax.
        rbind (int_param rp ''amnezia_h1'' 10) (\<lambda>h1.
        rbind (int_param rp ''amnezia_h2'' 20) (\<lambda>h2.
        rbind (int_param rp ''amnezia_h3'' 30) (\<lambda>h3.
        rbind (int_param rp ''amnezia_h4'' 40) (\<lambda>h4.
        rbind (int_param rp ''amnezia_s3'' 0) (\<lambda>s3.
        rbind (int_param rp ''amnezia_s4'' 0) (\<lambda>s4.
          Inr ([(''Jc'', VInt jc), (''Jmin'', VInt jmin), (''Jmax'', VInt jmax), (''S1'', VInt s1), (''S2'', VInt s2),
                (''H1'', VInt h1), (''H2'', VInt h2), (''H3'', VInt h3), (''H4'', VInt h4), (''S3'', VInt s3), (''S4'', VInt s4)]
               @ i_params rp))))))))))))))"

text \<open>The keys whose value counts as set: not absent, not blank text, not an integer of at most zero.\<close>

definition meaningful :: "pyval \<Rightarrow> bool" where
  "meaningful v = (case v of VNone \<Rightarrow> False | VStr s \<Rightarrow> strip s \<noteq> [] | VInt i \<Rightarrow> i > 0 | VBool b \<Rightarrow> b | VFloat _ \<Rightarrow> True)"

definition select_awg_profile :: "payload \<Rightarrow> config_profile" where
  "select_awg_profile obf =
     (if obf \<noteq> [] \<and> (\<exists>k\<in>set [''H1'', ''H2'', ''H3'', ''H4'', ''S3'', ''S4'', ''I1'', ''I2'', ''I3'', ''I4'', ''I5'']. meaningful (pget obf k))
      then Awg_2_0_asc else Awg_legacy_or_basic)"

record client_request =
  cr_server_public_key :: string
  cr_private_key :: string
  cr_endpoint :: "string option"
  cr_allowed_ips :: string
  cr_dns :: "string option"
  cr_keepalive :: int
  cr_obfuscation :: payload
  cr_mtu :: "int option"
  cr_address :: "string option"
  cr_preshared_key :: "string option"

definition string_or :: "string option \<Rightarrow> string \<Rightarrow> string" where
  "string_or s dflt = (case s of None \<Rightarrow> dflt | Some x \<Rightarrow> if x = [] then dflt else x)"

definition client_config :: "config_profile \<Rightarrow> string \<Rightarrow> payload \<Rightarrow> client_request \<Rightarrow> string result" where
  "client_config profile dns obf r =
     build_config \<lparr>if_private_key = cr_private_key r, if_address = string_or (cr_address r) DEFAULT_ADDRESS,
         if_dns = Some (string_or (cr_dns r) dns), if_mtu = cr_mtu r\<rparr>
       \<lparr>pf_public_key = cr_server_public_key r, pf_endpoint = or_empty (cr_endpoint r), pf_allowed_ips = cr_allowed_ips r,
         pf_keepalive = cr_keepalive r, pf_preshared_key = cr_preshared_key r\<rparr> profile obf"

definition build_amnezia_client_config :: "client_request \<Rightarrow> string result" where
  "build_amnezia_client_config r =
     client_config (select_awg_profile (cr_obfuscation r)) ''1.1.1.1, 1.0.0.1, 8.8.8.8, 8.8.4.4'' (cr_obfuscation r) r"

definition build_standard_wg_client_config :: "client_request \<Rightarrow> string result" where
  "build_standard_wg_client_config r = client_config Wireguard_universal ''1.1.1.1, 1.0.0.1, 8.8.8.8, 8.8.4.4'' [] r"

definition build_wg_obfuscated_config :: "client_request \<Rightarrow> string result" where
  "build_wg_obfuscated_config r =
     client_config (select_awg_profile (cr_obfuscation r)) ''1.1.1.1, 1.0.0.1'' (cr_obfuscation r) r"

definition build_all_configs :: "client_request \<Rightarrow> (string \<times> string \<times> string) result" where
  "build_all_configs r =
     rbind (build_amnezia_client_config r) (\<lambda>awg.
     rbind (build_wg_obfuscated_config r) (\<lambda>wg_obf.
     rbind (build_standard_wg_client_config r) (\<lambda>wg. Inr (awg, wg_obf, wg))))"

text \<open>\<^verbatim>\<open>request_params.get("subnet_address") or ...\<close>, shared with the address allocator.\<close>

definition subnet_param :: "payload \<Rightarrow> pyval" where
  "subnet_param rp = py_or (pget rp ''subnet_address'') (pget rp ''amnezia_subnet'')"

definition cidr_param :: "payload \<Rightarrow> pyval" where
  "cidr_param rp = py_or (py_or (pget rp ''subnet_cidr'') (pget rp ''amnezia_cidr'')) (VInt 24)"

definition derive_address_from_profile :: "payload \<Rightarrow> string \<Rightarrow> string" where
  "derive_address_from_profile rp fallback =
     (let parts = split_on CHR ''.'' (strip (py_str (subnet_param rp))) in
      if rp = [] \<or> \<not> truthy (subnet_param rp) \<or> length parts \<noteq> 4 then fallback
      else join ''.'' (take 3 parts @ [''2'']) @ ''/'' @ py_str (cidr_param rp))"

definition allocate_next_address :: "string \<Rightarrow> int set \<Rightarrow> int \<Rightarrow> int \<Rightarrow> string result" where
  "allocate_next_address subnet_base used host_min host_max =
     (case List.find (\<lambda>h. h \<notin> used) [host_min..host_max] of
        Some h \<Rightarrow> Inr (subnet_base @ ''.'' @ int_str h @ ''/32'')
      | None \<Rightarrow> Inl (ValueError (''No free address in '' @ subnet_base @ ''.x (hosts '' @ int_str host_min @ ''-'' @ int_str host_max @ '')'')))"

subsection \<open>Lemmas: keys and obfuscation\<close>

text \<open>What a loop of the normalisation adds to the output: new entries, one per key at most.\<close>

definition entries_ok :: "(string \<Rightarrow> pyval \<Rightarrow> bool) \<Rightarrow> string list \<Rightarrow> payload \<Rightarrow> bool" where
  "entries_ok Q ks new \<longleftrightarrow> distinct (map fst new) \<and> (\<forall>(k, v)\<in>set new. k \<in> set ks \<and> Q k v)"

lemma entries_ok_Cons:
  assumes "entries_ok Q ks new" "k \<notin> set ks" "e = [] \<or> (\<exists>v. e = [(k, v)] \<and> Q k v)"
  shows "entries_ok Q (k # ks) (e @ new)"
  using assms by (auto simp: entries_ok_def)

lemma mfold_entries:
  assumes "mfold f ks out = Inr out'" "distinct ks"
    and step: "\<And>k o1 o2. k \<in> set ks \<Longrightarrow> f k o1 = Inr o2 \<Longrightarrow> \<exists>e. o2 = o1 @ e \<and> (e = [] \<or> (\<exists>v. e = [(k, v)] \<and> Q k v))"
  shows "\<exists>new. out' = out @ new \<and> entries_ok Q ks new"
  using assms
proof (induction ks arbitrary: out)
  case Nil
  then show ?case by (auto simp: entries_ok_def)
next
  case (Cons k ks)
  from Cons.prems(1) obtain o1 where o1: "f k out = Inr o1" and rest: "mfold f ks o1 = Inr out'"
    by (auto simp: rbind_Inr_iff)
  from Cons.prems(3)[OF _ o1] obtain e where e: "o1 = out @ e" "e = [] \<or> (\<exists>v. e = [(k, v)] \<and> Q k v)" by auto
  obtain new where "out' = o1 @ new" "entries_ok Q ks new"
    using Cons.IH[OF rest] Cons.prems(2,3) by auto
  then show ?case using e entries_ok_Cons[of Q ks new k e] Cons.prems(2) by auto
qed

lemma put_number_entry:
  assumes "put_number obf c k o1 = Inr o2"
  shows "\<exists>e. o2 = o1 @ e \<and> (e = [] \<or> (\<exists>v. e = [(k, v)] \<and> (\<exists>i. v = VInt i \<and> 0 < i \<and> c k i = None)))"
  using assms by (auto simp: put_number_def rbind_Inr_iff split: if_splits option.splits)

lemma put_text_entry:
  assumes "put_text obf k o1 = Inr o2"
  shows "\<exists>e. o2 = o1 @ e \<and> (e = [] \<or> (\<exists>v. e = [(k, v)] \<and> (\<exists>t. pget obf k = VStr t \<and> v = VStr (strip t) \<and> strip t \<noteq> [])))"
  using assms by (auto simp: put_text_def split: pyval.splits if_splits)

text \<open>The text of a header value denotes its range.\<close>

definition h_text :: "int \<Rightarrow> int \<Rightarrow> string \<Rightarrow> bool" where
  "h_text lo hi t \<longleftrightarrow> (t = int_str lo \<and> lo = hi) \<or> t = int_str lo @ ''-'' @ int_str hi"

lemma parse_h_text: "parse_h_value v k = Inr (lo, hi, t) \<Longrightarrow> h_text lo hi t"
  by (auto simp: parse_h_value_def h_text_def Let_def split: pyval.splits if_splits option.splits)

definition headers_ok :: "payload \<Rightarrow> h_range list \<Rightarrow> bool" where
  "headers_ok new rs \<longleftrightarrow> map fst new = map fst rs
     \<and> list_all2 (\<lambda>(_, v) (_, lo, hi). \<exists>t. v = VStr t \<and> h_text lo hi t) new rs
     \<and> (\<forall>(k, lo, hi)\<in>set rs. lo \<le> hi \<and> 0 < hi \<and> hi \<le> 4294967295)"

lemma put_header_entry:
  assumes "put_header obf k (out, rs) = Inr (out', rs')"
  shows "(out' = out \<and> rs' = rs) \<or> (\<exists>lo hi t. out' = out @ [(k, VStr t)] \<and> rs' = rs @ [(k, lo, hi)]
     \<and> h_text lo hi t \<and> lo \<le> hi \<and> 0 < hi \<and> hi \<le> 4294967295)"
  using assms by (auto simp: put_header_def rbind_Inr_iff split: if_splits dest: parse_h_text)

lemma mfold_headers:
  assumes "mfold (put_header obf) ks (out, rs) = Inr (out', rs')"
  shows "\<exists>new nrs. out' = out @ new \<and> rs' = rs @ nrs \<and> headers_ok new nrs \<and> subseq (map fst nrs) ks"
  using assms
proof (induction ks arbitrary: out rs)
  case Nil
  then show ?case by (auto simp: headers_ok_def)
next
  case (Cons k ks)
  from Cons.prems obtain o1 r1 where o1: "put_header obf k (out, rs) = Inr (o1, r1)" and rest: "mfold (put_header obf) ks (o1, r1) = Inr (out', rs')"
    by (auto simp: rbind_Inr_iff)
  obtain new nrs where n: "out' = o1 @ new" "rs' = r1 @ nrs" "headers_ok new nrs" "subseq (map fst nrs) ks"
    using Cons.IH[OF rest] by blast
  from put_header_entry[OF o1] show ?case
  proof
    assume "o1 = out \<and> r1 = rs"
    then show ?thesis using n by auto
  next
    assume "\<exists>lo hi t. o1 = out @ [(k, VStr t)] \<and> r1 = rs @ [(k, lo, hi)] \<and> h_text lo hi t \<and> lo \<le> hi \<and> 0 < hi \<and> hi \<le> 4294967295"
    then obtain lo hi t where o: "o1 = out @ [(k, VStr t)]" "r1 = rs @ [(k, lo, hi)]" "h_text lo hi t" "lo \<le> hi" "0 < hi" "hi \<le> 4294967295"
      by blast
    then have "headers_ok ((k, VStr t) # new) ((k, lo, hi) # nrs)" using n(3) by (auto simp: headers_ok_def)
    moreover have "subseq (map fst ((k, lo, hi) # nrs)) (k # ks)" using n(4) by simp
    ultimately show ?thesis using o(1,2) n(1,2) by (intro exI[of _ "(k, VStr t) # new"] exI[of _ "(k, lo, hi) # nrs"]) simp
  qed
qed

lemma find_overlap_None: "find_overlap rs = None \<Longrightarrow> sorted_wrt (\<lambda>r q. \<not> ranges_overlap r q) rs"
  by (induction rs) (auto simp: find_None_iff split: option.splits)

lemma pair_checks_sound:
  assumes "pair_checks out = Inr out'"
  shows "out' = out"
    and "pget out ''S1'' = VInt a \<Longrightarrow> pget out ''S2'' = VInt b \<Longrightarrow> a + 56 \<noteq> b"
    and "pget out ''Jmin'' = VInt a \<Longrightarrow> pget out ''Jmax'' = VInt b \<Longrightarrow> a \<le> b"
  using assms by (auto simp: pair_checks_def rbind_Inr_iff validate_s1_s2_def validate_jmin_jmax_def split: if_splits)

lemma not_Some_pair: "(\<forall>a b. x \<noteq> Some (a, b)) \<longleftrightarrow> x = None"
  by (cases x) auto

text \<open>The output of the AmneziaWG 2.0 normalisation in its three parts.\<close>

lemma awg2_parts:
  assumes "normalize_obfuscation_awg2 obf mtu = Inr out"
  obtains nums texts heads rs where "out = nums @ texts @ heads"
    and "entries_ok (\<lambda>k v. \<exists>i. v = VInt i \<and> 0 < i \<and> awg2_complaint mtu k i = None) [''Jc'', ''Jmin'', ''Jmax'', ''S1'', ''S2'', ''S3'', ''S4''] nums"
    and "entries_ok (\<lambda>k v. \<exists>t. pget obf k = VStr t \<and> v = VStr (strip t) \<and> strip t \<noteq> []) i_keys texts"
    and "headers_ok heads rs" "subseq (map fst rs) h_keys" "sorted_wrt (\<lambda>r q. \<not> ranges_overlap r q) rs"
    and "pair_checks out = Inr out"
proof -
  from assms obtain o1 o2 o3 rs where
      n: "mfold (put_number obf (awg2_complaint mtu)) [''Jc'', ''Jmin'', ''Jmax'', ''S1'', ''S2'', ''S3'', ''S4''] [] = Inr o1"
    and t: "mfold (put_text obf) i_keys o1 = Inr o2" and h: "mfold (put_header obf) h_keys (o2, []) = Inr (o3, rs)"
    and ov: "find_overlap rs = None" and pc: "pair_checks o3 = Inr out"
    by (auto simp: normalize_obfuscation_awg2_def rbind_Inr_iff not_Some_pair split: option.splits simp del: mfold.simps)
  obtain nums where "o1 = [] @ nums" "entries_ok (\<lambda>k v. \<exists>i. v = VInt i \<and> 0 < i \<and> awg2_complaint mtu k i = None) [''Jc'', ''Jmin'', ''Jmax'', ''S1'', ''S2'', ''S3'', ''S4''] nums"
    using mfold_entries[OF n] put_number_entry by force
  moreover obtain texts where "o2 = o1 @ texts" "entries_ok (\<lambda>k v. \<exists>t. pget obf k = VStr t \<and> v = VStr (strip t) \<and> strip t \<noteq> []) i_keys texts"
    using mfold_entries[OF t _ put_text_entry] by (force simp: i_keys_def)
  moreover obtain heads where "o3 = o2 @ heads" "headers_ok heads rs" "subseq (map fst rs) h_keys"
    using mfold_headers[OF h] by auto
  moreover have "out = o3" using pair_checks_sound(1)[OF pc] .
  ultimately show ?thesis using that find_overlap_None[OF ov] pc by simp
qed

lemma map_of_entries:
  assumes "entries_ok Q ks new" "map_of new k = Some v"
  shows "k \<in> set ks \<and> Q k v"
  using map_of_SomeD[OF assms(2)] assms(1) by (auto simp: entries_ok_def)

lemma map_of_entries_None: "entries_ok Q ks new \<Longrightarrow> k \<notin> set ks \<Longrightarrow> map_of new k = None"
  using map_of_entries by (metis option.exhaust)

lemma headers_keys: "headers_ok new rs \<Longrightarrow> map_of new k = Some v \<Longrightarrow> k \<in> set (map fst rs)"
proof -
  assume "headers_ok new rs" "map_of new k = Some v"
  then have "map fst new = map fst rs" "(k, v) \<in> set new" by (auto simp: headers_ok_def dest: map_of_SomeD)
  then show ?thesis by (metis fst_conv image_eqI list.set_map)
qed

text \<open>Looking a number up in the three parts.\<close>

lemma parts_number:
  assumes "entries_ok Q nks nums" "entries_ok Q' i_keys texts" "headers_ok heads rs" "subseq (map fst rs) h_keys"
    and "k \<notin> set i_keys" "k \<notin> set h_keys" "map_of (nums @ texts @ heads) k = Some v"
  shows "k \<in> set nks \<and> Q k v"
proof -
  have "map_of texts k = None" by (rule map_of_entries_None[OF assms(2,5)])
  moreover have "map_of heads k = None"
  proof (rule ccontr)
    assume "map_of heads k \<noteq> None"
    then have "k \<in> set (map fst rs)" using headers_keys[OF assms(3)] by blast
    then show False using list_emb_set[OF assms(4)] assms(6) by metis
  qed
  ultimately have "map_of nums k = Some v" using assms(7) by (auto simp: map_add_def split: option.splits)
  then show ?thesis by (rule map_of_entries[OF assms(1)])
qed

lemma awg2_complaint_ranges:
  "awg2_complaint mtu ''Jc'' i = None \<Longrightarrow> 1 \<le> i \<and> i \<le> 128"
  "k \<in> {''Jmin'', ''Jmax''} \<Longrightarrow> awg2_complaint mtu k i = None \<Longrightarrow> 1 \<le> i \<and> i \<le> 1280"
  by (auto simp: awg2_complaint_def Let_def split: if_splits)

lemma headers_pair:
  assumes "headers_ok heads rs" "sorted_wrt (\<lambda>r q. \<not> ranges_overlap r q) rs"
    and "map_of heads a = Some u" "map_of heads b = Some v" "a \<noteq> b"
  shows "\<exists>la ha lb hb s t. u = VStr s \<and> v = VStr t \<and> h_text la ha s \<and> h_text lb hb t \<and> la \<le> ha \<and> lb \<le> hb
     \<and> 0 < ha \<and> 0 < hb \<and> ha \<le> 4294967295 \<and> hb \<le> 4294967295 \<and> (ha < lb \<or> hb < la)"
proof -
  have ex: "\<exists>i<length rs. \<exists>lo hi t. rs ! i = (k, lo, hi) \<and> w = VStr t \<and> h_text lo hi t \<and> lo \<le> hi \<and> 0 < hi \<and> hi \<le> 4294967295"
    if "map_of heads k = Some w" for k w
  proof -
    from map_of_SomeD[OF that] obtain i where i: "i < length heads" "heads ! i = (k, w)" by (auto simp: in_set_conv_nth)
    have l: "length heads = length rs" and k: "fst (rs ! i) = k"
      using assms(1) i nth_map[of i heads fst] nth_map[of i rs fst]
      by (auto simp: headers_ok_def list_all2_lengthD)
    have "(\<lambda>(_, v) (_, lo, hi). \<exists>t. v = VStr t \<and> h_text lo hi t) (heads ! i) (rs ! i)"
      using assms(1) i list_all2_nthD by (fastforce simp: headers_ok_def)
    moreover have "rs ! i \<in> set rs" using i l by simp
    ultimately show ?thesis using i k l assms(1) by (cases "rs ! i") (fastforce simp: headers_ok_def)
  qed
  obtain i la ha s where i: "i < length rs" "rs ! i = (a, la, ha)" "u = VStr s" "h_text la ha s" "la \<le> ha" "0 < ha" "ha \<le> 4294967295"
    using ex[OF assms(3)] by blast
  obtain j lb hb t where j: "j < length rs" "rs ! j = (b, lb, hb)" "v = VStr t" "h_text lb hb t" "lb \<le> hb" "0 < hb" "hb \<le> 4294967295"
    using ex[OF assms(4)] by blast
  have "\<not> max la lb \<le> min ha hb"
    using sorted_wrt_nth_less[OF assms(2), of i j] sorted_wrt_nth_less[OF assms(2), of j i] i(1,2) j(1,2) assms(5)
    by (cases i j rule: linorder_cases) (auto simp: ranges_overlap_def max.commute min.commute)
  then have "ha < lb \<or> hb < la" using i(5) j(5) by linarith
  then show ?thesis using i j by blast
qed

subsection \<open>Properties\<close>

text \<open>C27. A preshared key is generated valid: for any 32 random bytes the generated text passes the
  key validation unchanged and decodes to exactly those bytes.\<close>

theorem preshared_key_roundtrip:
  assumes "length random_bytes = 32" "list_all (\<lambda>b. b < 256) random_bytes"
  shows "validate_key_b64 (generate_preshared_key random_bytes) name = Inr (generate_preshared_key random_bytes)
     \<and> b64decode (generate_preshared_key random_bytes) = Some random_bytes"
proof -
  have e: "generate_preshared_key random_bytes = b64encode random_bytes"
    using strip_b64encode[OF assms(2)] by (simp add: generate_preshared_key_def)
  have "random_bytes \<noteq> []" using assms(1) by auto
  then have s: "b64_shape (b64encode random_bytes)" using b64_shape_encode[OF assms(2)] by blast
  have l: "length (b64encode random_bytes) = 44" using length_b64encode[of random_bytes] assms(1) by simp
  then have ne: "b64encode random_bytes \<noteq> []" by auto
  show ?thesis
    unfolding e validate_key_b64_def Let_def strip_b64encode[OF assms(2)] l
    using s ne b64decode_encode[OF assms(2)] assms(1) by simp
qed

theorem preshared_key_roundtrip_witness:
  "validate_key_b64 (generate_preshared_key (replicate 32 7)) ''PresharedKey'' = Inr (generate_preshared_key (replicate 32 7))"
  using preshared_key_roundtrip[of "replicate 32 7" "''PresharedKey''"] by (simp add: list_all_iff)



subsection \<open>Header parameters\<close>

declare generate_h_params.simps [simp del]

lemma generate_h_params_collects:
  assumes "distinct seen" "0 \<notin> set seen" "length seen \<le> 4" "4 \<le> card (set seen \<union> (draw ` {n..<n + fuel} - {0}))"
  shows "\<exists>hs. generate_h_params draw n fuel seen = Some hs \<and> length hs = 4 \<and> distinct hs
    \<and> set hs \<subseteq> set seen \<union> (draw ` {n..<n + fuel} - {0})"
  using assms
proof (induction fuel arbitrary: n seen)
  case 0
  then have "length seen = 4" using card_length[of seen] by simp
  then show ?case using 0 by (auto simp: generate_h_params.simps)
next
  case (Suc fuel)
  let ?seen = "if draw n \<noteq> 0 \<and> draw n \<notin> set seen then draw n # seen else seen"
  have "{n..<n + Suc fuel} = insert n {Suc n..<Suc n + fuel}" by auto
  then have "draw ` {n..<n + Suc fuel} = insert (draw n) (draw ` {Suc n..<Suc n + fuel})" by simp
  then have same: "set ?seen \<union> (draw ` {Suc n..<Suc n + fuel} - {0}) = set seen \<union> (draw ` {n..<n + Suc fuel} - {0})"
    by auto
  show ?case
  proof (cases "length seen = 4")
    case True
    then show ?thesis using Suc.prems by (auto simp: generate_h_params.simps)
  next
    case False
    then have "generate_h_params draw n (Suc fuel) seen = generate_h_params draw (Suc n) fuel ?seen"
      using Suc.prems(3) by (subst generate_h_params.simps) simp
    moreover have "distinct ?seen" "0 \<notin> set ?seen" "length ?seen \<le> 4" using Suc.prems False by auto
    ultimately show ?thesis using Suc.IH[of ?seen "Suc n"] Suc.prems(4) unfolding same by simp
  qed
qed

text \<open>C29. Generating the header parameters ends: as soon as the 32-bit draws have shown four different
  non-zero values, the loop has returned four different values from 1 to \<open>2 ^ 32 - 1\<close>.\<close>

theorem h_params_generated:
  assumes "\<forall>n. 0 \<le> draw n \<and> draw n < 2 ^ 32" "4 \<le> card (draw ` {0..<fuel} - {0})"
  shows "\<exists>hs. generate_h_params draw 0 fuel [] = Some hs \<and> length hs = 4 \<and> distinct hs \<and> (\<forall>h\<in>set hs. 1 \<le> h \<and> h \<le> 2 ^ 32 - 1)"
proof -
  obtain hs where hs: "generate_h_params draw 0 fuel [] = Some hs" "length hs = 4" "distinct hs" "set hs \<subseteq> draw ` {0..<fuel} - {0}"
    using generate_h_params_collects[of "[]" draw 0 fuel] assms(2) by auto
  have "1 \<le> h \<and> h \<le> 2 ^ 32 - 1" if h: "h \<in> set hs" for h
  proof -
    obtain n where "h = draw n" "h \<noteq> 0" using h hs(4) by blast
    then show ?thesis using assms(1)[rule_format, of n] by auto
  qed
  then show ?thesis using hs by blast
qed

theorem h_params_generated_witness:
  "\<exists>hs. generate_h_params (\<lambda>n. int n mod 5) 0 5 [] = Some hs \<and> length hs = 4 \<and> distinct hs \<and> (\<forall>h\<in>set hs. 1 \<le> h \<and> h \<le> 2 ^ 32 - 1)"
proof (rule h_params_generated)
  show "\<forall>n. 0 \<le> int n mod 5 \<and> int n mod 5 < 2 ^ 32" by (auto intro: order_less_trans[OF pos_mod_bound])
  have "{0..<5::nat} = {0, 1, 2, 3, 4}" by auto
  then have "(\<lambda>n. int n mod 5) ` {0..<5} - {0} = {1, 2, 3, 4}" by auto
  then show "4 \<le> card ((\<lambda>n. int n mod 5) ` {0..<5} - {0})" by simp
qed

end
