(* ===== verification/Config_Clean.thy ===== *)
theory Config_Clean
  imports Config_Builder
begin

section \<open>Cleaning configuration texts\<close>

text \<open>
  The sanitizer of \<^verbatim>\<open>core/amnezia_vpn_key.py\<close>, which every configuration passes before it is
  downloaded or shown as a QR code: comments and empty settings are dropped, the interface section
  comes first, blank lines are collapsed. It is shown to be idempotent and to leave the texts of
  the configuration builder alone.
\<close>

subsection \<open>Cleaning a configuration text\<close>

abbreviation CR :: char where "CR \<equiv> CHR 0x0D"

fun replace_crlf :: "string \<Rightarrow> string" where
  "replace_crlf [] = []"
| "replace_crlf [c] = [c]"
| "replace_crlf (c # d # s) = (if c = CR \<and> d = NL then NL # replace_crlf s else c # replace_crlf (d # s))"

definition is_comment_char :: "char \<Rightarrow> bool" where
  "is_comment_char c \<longleftrightarrow> c = CHR ''#'' \<or> c = CHR '';''"

definition strip_comment :: "string \<Rightarrow> string" where
  "strip_comment line =
     (let l = rstrip line; stripped = lstrip l
      in if list_ex is_comment_char stripped then rstrip (takeWhile (\<lambda>c. \<not> is_comment_char c) stripped) else l)"

definition is_key_char :: "char \<Rightarrow> bool" where
  "is_key_char c \<longleftrightarrow> is_alnum c \<or> c = CHR ''_''"

text \<open>\<^verbatim>\<open>^\s*[A-Za-z0-9_]+\s*=\s*$\<close>\<close>

definition empty_key :: "string \<Rightarrow> bool" where
  "empty_key line =
     (let t = lstrip line; r = lstrip (dropWhile is_key_char t)
      in takeWhile is_key_char t \<noteq> [] \<and> r \<noteq> [] \<and> hd r = CHR ''='' \<and> strip (tl r) = [])"

definition sanitize_line :: "string \<Rightarrow> string option" where
  "sanitize_line line =
     (let l = strip_comment line in
      if strip l = [] then Some []
      else if empty_key l then None
      else if strip l = ''[Interface]'' then Some ''[Interface]''
      else if strip l = ''[Peer]'' then Some ''[Peer]''
      else Some l)"

definition lift_header :: "string list \<Rightarrow> string list" where
  "lift_header ls = (case ls of [] \<Rightarrow> []
     | l # _ \<Rightarrow> if strip l \<noteq> ''[Interface]'' \<and> ''[Interface]'' \<in> set ls
                then ''[Interface]'' # remove1 ''[Interface]'' ls else ls)"

fun collapse_blanks :: "bool \<Rightarrow> string list \<Rightarrow> string list" where
  "collapse_blanks blank [] = []"
| "collapse_blanks blank (l # ls) =
     (if strip l = [] then (if blank then collapse_blanks True ls else [] # collapse_blanks True ls)
      else l # collapse_blanks False ls)"

definition rstrip_nl :: "string \<Rightarrow> string" where
  "rstrip_nl s = rev (dropWhile (\<lambda>c. c = NL) (rev s))"

definition sanitize_lines :: "string list \<Rightarrow> string list" where
  "sanitize_lines ls =
     collapse_blanks False (lift_header (dropWhile (\<lambda>l. strip l = []) (List.map_filter sanitize_line ls)))"

definition sanitize_awg_conf :: "string \<Rightarrow> string" where
  "sanitize_awg_conf conf =
     (if conf = [] then []
      else rstrip_nl (join [NL] (sanitize_lines (split_on NL (replace_crlf conf)))) @ [NL])"

subsection \<open>Clean lines\<close>

definition clean_line :: "string \<Rightarrow> bool" where
  "clean_line l \<longleftrightarrow> NL \<notin> set l \<and> (l = [] \<or>
     (rstrip l = l \<and> \<not> list_ex is_comment_char l \<and> strip l \<noteq> [] \<and> \<not> empty_key l
      \<and> (strip l = ''[Interface]'' \<longrightarrow> l = ''[Interface]'') \<and> (strip l = ''[Peer]'' \<longrightarrow> l = ''[Peer]'')))"

lemma lstrip_Nil [simp]: "lstrip [] = []" "rstrip [] = []"
  by (simp_all add: lstrip_def rstrip_def)

lemma rstrip_idem [simp]: "rstrip (rstrip s) = rstrip s"
  by (simp add: rstrip_def dropWhile_idem)

lemma set_lstrip: "set (lstrip s) \<subseteq> set s" and set_rstrip: "set (rstrip s) \<subseteq> set s"
  using set_dropWhileD[of _ is_space s] set_dropWhileD[of _ is_space "rev s"]
  by (auto simp: lstrip_def rstrip_def)

lemma comment_not_space: "is_comment_char c \<Longrightarrow> \<not> is_space c"
  by (auto simp: is_comment_char_def is_space_def)

lemma list_ex_comment_lstrip: "list_ex is_comment_char (lstrip s) = list_ex is_comment_char s"
  unfolding lstrip_def by (induction s) (auto dest: comment_not_space)

lemma strip_comment_clean:
  "\<not> list_ex is_comment_char (strip_comment l) \<and> rstrip (strip_comment l) = strip_comment l
     \<and> set (strip_comment l) \<subseteq> set l"
proof (cases "list_ex is_comment_char (lstrip (rstrip l))")
  case True
  let ?t = "takeWhile (\<lambda>c. \<not> is_comment_char c) (lstrip (rstrip l))"
  have e: "strip_comment l = rstrip ?t" using True by (simp add: strip_comment_def Let_def)
  have "\<not> is_comment_char c" if "c \<in> set (rstrip ?t)" for c
    using that set_rstrip[of ?t] by (blast dest: set_takeWhileD)
  moreover have "set (rstrip ?t) \<subseteq> set l"
    using set_rstrip[of ?t] set_lstrip[of "rstrip l"] set_rstrip[of l] by (blast dest: set_takeWhileD)
  ultimately show ?thesis unfolding e by (simp add: list_ex_iff)
next
  case False
  then show ?thesis using set_rstrip[of l] by (simp add: strip_comment_def Let_def list_ex_comment_lstrip)
qed

lemma sanitize_clean_line:
  assumes "clean_line l"
  shows "sanitize_line l = Some l"
proof (cases "l = []")
  case True
  then show ?thesis by (simp add: sanitize_line_def strip_comment_def)
next
  case False
  with assms have "strip_comment l = l" by (simp add: clean_line_def strip_comment_def Let_def list_ex_comment_lstrip)
  with assms False show ?thesis by (auto simp: clean_line_def sanitize_line_def Let_def)
qed

lemma headers_clean: "clean_line ''[Interface]''" "clean_line ''[Peer]''" "clean_line []"
  by code_simp+

lemma sanitize_line_clean:
  assumes "NL \<notin> set l" "sanitize_line l = Some l'"
  shows "clean_line l'"
proof -
  let ?l = "strip_comment l"
  have "l' = [] \<or> l' = ''[Interface]'' \<or> l' = ''[Peer]'' \<or>
      (l' = ?l \<and> strip ?l \<noteq> [] \<and> \<not> empty_key ?l \<and> strip ?l \<noteq> ''[Interface]'' \<and> strip ?l \<noteq> ''[Peer]'')"
    using assms(2) unfolding sanitize_line_def Let_def by (auto split: if_splits)
  then consider "l' \<in> {[], ''[Interface]'', ''[Peer]''}"
    | "l' = ?l" "strip ?l \<noteq> []" "\<not> empty_key ?l" "strip ?l \<noteq> ''[Interface]''" "strip ?l \<noteq> ''[Peer]''" by blast
  then show ?thesis
  proof cases
    case 1
    then show ?thesis using headers_clean by blast
  next
    case 2
    then show ?thesis using strip_comment_clean[of l] assms(1) unfolding clean_line_def by blast
  qed
qed

text \<open>A line that is blank and clean is empty.\<close>

lemma clean_blank: "clean_line l \<Longrightarrow> strip l = [] \<longleftrightarrow> l = []"
  by (auto simp: clean_line_def)

subsection \<open>Clean texts\<close>

definition clean_list :: "string list \<Rightarrow> bool" where
  "clean_list ls \<longleftrightarrow> (\<forall>l\<in>set ls. clean_line l) \<and> successively (\<lambda>a b. a \<noteq> [] \<or> b \<noteq> []) ls
     \<and> (ls \<noteq> [] \<longrightarrow> hd ls \<noteq> []) \<and> (''[Interface]'' \<in> set ls \<longrightarrow> hd ls = ''[Interface]'')"

lemma map_filter_clean: "\<forall>l\<in>set ls. clean_line l \<Longrightarrow> List.map_filter sanitize_line ls = ls"
  by (induction ls) (auto simp: sanitize_clean_line map_filter_simps)

lemma map_filter_sanitize:
  "\<forall>l\<in>set ls. NL \<notin> set l \<Longrightarrow> \<forall>l\<in>set (List.map_filter sanitize_line ls). clean_line l"
  by (induction ls) (auto simp: map_filter_simps sanitize_line_clean split: option.splits)

lemma collapse_id:
  "\<forall>l\<in>set ls. clean_line l \<Longrightarrow> successively (\<lambda>a b. a \<noteq> [] \<or> b \<noteq> []) ls \<Longrightarrow> (b \<longrightarrow> ls = [] \<or> hd ls \<noteq> []) \<Longrightarrow>
     collapse_blanks b ls = ls"
  by (induction ls arbitrary: b) (auto simp: clean_blank successively_Cons)

lemma collapse_set: "\<forall>l\<in>set ls. clean_line l \<Longrightarrow> set (collapse_blanks b ls) \<subseteq> set ls"
proof (induction ls arbitrary: b)
  case (Cons l ls)
  have "set (collapse_blanks c ls) \<subseteq> set ls" for c using Cons by simp
  then show ?case using clean_blank[of l] Cons.prems by auto
qed simp

lemma collapse_successively:
  assumes "\<forall>l\<in>set ls. clean_line l"
  shows "successively (\<lambda>a b. a \<noteq> [] \<or> b \<noteq> []) (collapse_blanks b ls)
    \<and> (b \<longrightarrow> collapse_blanks b ls \<noteq> [] \<longrightarrow> hd (collapse_blanks b ls) \<noteq> [])"
  using assms
proof (induction ls arbitrary: b)
  case (Cons l ls)
  have "successively (\<lambda>a b. a \<noteq> [] \<or> b \<noteq> []) (collapse_blanks c ls)
    \<and> (c \<longrightarrow> collapse_blanks c ls \<noteq> [] \<longrightarrow> hd (collapse_blanks c ls) \<noteq> [])" for c using Cons by simp
  from this[of True] this[of False] show ?case by (auto simp: successively_Cons)
qed simp

lemma collapse_hd:
  "\<forall>l\<in>set ls. clean_line l \<Longrightarrow> ls \<noteq> [] \<Longrightarrow> hd ls \<noteq> [] \<Longrightarrow> collapse_blanks b ls \<noteq> [] \<and> hd (collapse_blanks b ls) = hd ls"
  by (cases ls) (auto simp: clean_blank)

lemma lift_header_props:
  assumes "\<forall>l\<in>set ls. clean_line l" "ls \<noteq> [] \<longrightarrow> hd ls \<noteq> []"
  shows "\<forall>l\<in>set (lift_header ls). clean_line l" "lift_header ls \<noteq> [] \<longrightarrow> hd (lift_header ls) \<noteq> []"
    "''[Interface]'' \<in> set (lift_header ls) \<longrightarrow> hd (lift_header ls) = ''[Interface]''"
  using assms notin_set_remove1 headers_clean
  by (auto simp: lift_header_def clean_line_def split: list.splits dest: notin_set_remove1)

lemma sanitize_lines_clean:
  assumes "\<forall>l\<in>set ls. NL \<notin> set l"
  shows "clean_list (sanitize_lines ls)"
proof -
  let ?f = "List.map_filter sanitize_line ls" and ?d = "dropWhile (\<lambda>l. strip l = []) (List.map_filter sanitize_line ls)"
  have f: "\<forall>l\<in>set ?f. clean_line l" using map_filter_sanitize[OF assms] .
  then have d: "\<forall>l\<in>set ?d. clean_line l" by (auto dest: set_dropWhileD)
  have "hd ?d \<noteq> []" if "?d \<noteq> []"
  proof
    assume "hd ?d = []"
    then have "strip (hd ?d) = []" by simp
    moreover have "strip (hd ?d) \<noteq> []" by (rule hd_dropWhile[OF that])
    ultimately show False by blast
  qed
  then have "?d \<noteq> [] \<longrightarrow> hd ?d \<noteq> []" by blast
  note h = lift_header_props[OF d this]
  let ?e = "lift_header ?d"
  have cl: "\<forall>l\<in>set (collapse_blanks False ?e). clean_line l" using collapse_set[OF h(1)] h(1) by blast
  have "hd (collapse_blanks False ?e) \<noteq> []" if "collapse_blanks False ?e \<noteq> []"
  proof -
    have "?e \<noteq> []" using that by auto
    then show ?thesis using collapse_hd[OF h(1), of False] h(2) by simp
  qed
  moreover have "hd (collapse_blanks False ?e) = ''[Interface]''" if "''[Interface]'' \<in> set (collapse_blanks False ?e)"
  proof -
    have "''[Interface]'' \<in> set ?e" using that collapse_set[OF h(1)] by blast
    then have "?e \<noteq> []" "hd ?e = ''[Interface]''" using h(3) by (auto simp del: dropWhile_eq_Nil_conv)
    then show ?thesis using collapse_hd[OF h(1), of False] by simp
  qed
  ultimately show ?thesis unfolding sanitize_lines_def clean_list_def
    using cl collapse_successively[OF h(1), of False] by blast
qed

lemma sanitize_lines_id:
  assumes "clean_list ls" "ls \<noteq> []"
  shows "sanitize_lines ls = ls"
proof -
  from assms have cl: "\<forall>l\<in>set ls. clean_line l" and hd: "hd ls \<noteq> []" by (auto simp: clean_list_def)
  then have "strip (hd ls) \<noteq> []" using clean_blank[of "hd ls"] assms(2) by simp
  then have dw: "dropWhile (\<lambda>l. strip l = []) ls = ls" using assms(2) by (cases ls) auto
  have "lift_header ls = ls"
    using assms by (cases ls) (auto simp: lift_header_def clean_list_def)
  then show ?thesis
    using map_filter_clean[OF cl] dw collapse_id[OF cl, of False] assms(1) by (simp add: sanitize_lines_def clean_list_def)
qed

subsection \<open>From lines to text\<close>

lemma join_snoc_empty: "ls \<noteq> [] \<Longrightarrow> join sep (ls @ [[]]) = join sep ls @ sep"
  by (induction sep ls rule: join.induct) auto

lemma replace_crlf_line:
  assumes "NL \<notin> set l" "l = [] \<or> last l \<noteq> CR"
  shows "replace_crlf (l @ NL # s) = l @ NL # replace_crlf s"
  using assms
proof (induction l rule: replace_crlf.induct)
  case 1
  show ?case by (cases s) auto
next
  case (2 c)
  have "replace_crlf (NL # s) = NL # replace_crlf s" by (cases s) auto
  with 2 show ?case by simp
qed (auto split: if_splits)

lemma replace_crlf_id: "NL \<notin> set l \<Longrightarrow> replace_crlf l = l"
  by (induction l rule: replace_crlf.induct) auto

lemma clean_last: "clean_line l \<Longrightarrow> l = [] \<or> \<not> is_space (last l)"
  unfolding clean_line_def
proof (elim conjE disjE)
  assume "rstrip l = l" "strip l \<noteq> []"
  then have "dropWhile is_space (rev l) = rev l" by (metis rev_rev_ident rstrip_def)
  then show "l = [] \<or> \<not> is_space (last l)" by (auto simp: dropWhile_eq_self_iff hd_rev)
qed simp

lemma replace_crlf_join:
  "\<forall>l\<in>set ls. clean_line l \<Longrightarrow> replace_crlf (join [NL] ls) = join [NL] ls"
proof (induction "[NL]" ls rule: join.induct)
  case (2 p)
  then show ?case by (simp add: clean_line_def replace_crlf_id)
next
  case (3 p q ps)
  have "is_space CR" by code_simp
  then have "p = [] \<or> last p \<noteq> CR" using clean_last[of p] 3(2) by auto
  moreover have "NL \<notin> set p" using 3(2) by (simp add: clean_line_def)
  ultimately have "replace_crlf (p @ NL # join [NL] (q # ps)) = p @ NL # replace_crlf (join [NL] (q # ps))"
    by (intro replace_crlf_line)
  with 3 show ?case by simp
qed simp

lemma last_join: "ls \<noteq> [] \<Longrightarrow> last ls \<noteq> [] \<Longrightarrow> join sep ls \<noteq> [] \<and> last (join sep ls) = last (last ls)"
  by (induction sep ls rule: join.induct) (auto split: if_splits)

lemma rstrip_nl_join:
  assumes "\<forall>l\<in>set ls. clean_line l" "ls \<noteq> []" "last ls \<noteq> []"
  shows "rstrip_nl (join [NL] ls) = join [NL] ls" "rstrip_nl (join [NL] ls @ [NL]) = join [NL] ls"
proof -
  have "last ls \<in> set ls" using assms(2) by simp
  then have "NL \<notin> set (last ls)" using assms(1) by (auto simp: clean_line_def)
  then have "last (join [NL] ls) \<noteq> NL" "join [NL] ls \<noteq> []" using last_join[OF assms(2,3), of "[NL]"] assms(3) by (metis last_in_set)+
  then have "dropWhile (\<lambda>c. c = NL) (rev (join [NL] ls)) = rev (join [NL] ls)"
    by (cases "join [NL] ls" rule: rev_cases) auto
  then show "rstrip_nl (join [NL] ls) = join [NL] ls" "rstrip_nl (join [NL] ls @ [NL]) = join [NL] ls"
    by (simp_all add: rstrip_nl_def)
qed

text \<open>Clean lines with a non-empty last one make a text the sanitizer leaves alone.\<close>

lemma sanitize_clean_text:
  assumes "clean_list ls" "ls \<noteq> []" "last ls \<noteq> []"
  shows "sanitize_awg_conf (join [NL] ls @ [NL]) = join [NL] ls @ [NL]"
proof -
  let ?ls = "ls @ [[]]"
  have cl: "\<forall>l\<in>set ls. clean_line l" using assms(1) by (simp add: clean_list_def)
  have c2: "clean_list ?ls"
    using assms headers_clean(3) by (auto simp: clean_list_def successively_append_iff)
  have t: "join [NL] ls @ [NL] = join [NL] ?ls" using join_snoc_empty[OF assms(2), of "[NL]"] by simp
  have "split_on NL (join [NL] ?ls) = ?ls"
    using c2 by (intro split_on_join) (auto simp: clean_list_def clean_line_def)
  moreover have "replace_crlf (join [NL] ?ls) = join [NL] ?ls"
    using c2 by (intro replace_crlf_join) (simp add: clean_list_def)
  moreover have "sanitize_lines ?ls = ?ls" by (rule sanitize_lines_id[OF c2]) simp
  ultimately have "sanitize_awg_conf (join [NL] ?ls) = rstrip_nl (join [NL] ?ls) @ [NL]"
    using t by (auto simp: sanitize_awg_conf_def)
  then show ?thesis using rstrip_nl_join(2)[OF cl assms(2,3)] t by simp
qed

lemma sanitize_output:
  assumes "conf \<noteq> []"
  shows "sanitize_awg_conf conf = [NL] \<or>
    (\<exists>ls. clean_list ls \<and> ls \<noteq> [] \<and> last ls \<noteq> [] \<and> sanitize_awg_conf conf = join [NL] ls @ [NL])"
proof -
  let ?xs = "sanitize_lines (split_on NL (replace_crlf conf))"
  have "\<forall>l\<in>set (split_on NL s). NL \<notin> set l" for s
    by (induction s) (auto split: list.splits)
  then have c: "clean_list ?xs" using sanitize_lines_clean by blast
  have e: "sanitize_awg_conf conf = rstrip_nl (join [NL] ?xs) @ [NL]" using assms by (simp add: sanitize_awg_conf_def)
  consider "?xs = []" | "?xs \<noteq> []" "last ?xs \<noteq> []" | ys where "?xs = ys @ [[]]" by (metis append_butlast_last_id)
  then show ?thesis
  proof cases
    case 1
    then show ?thesis using e by (simp add: rstrip_nl_def)
  next
    case 2
    then show ?thesis using e c rstrip_nl_join(1)[of ?xs] by (auto simp: clean_list_def)
  next
    case 3
    from c 3 have ys: "ys \<noteq> []" by (auto simp: clean_list_def)
    with c 3 have cy: "clean_list ys" "last ys \<noteq> []" by (auto simp: clean_list_def successively_append_iff)
    have "rstrip_nl (join [NL] ?xs) = join [NL] ys"
      using rstrip_nl_join(2)[of ys] cy ys 3 join_snoc_empty[OF ys, of "[NL]"] by (simp add: clean_list_def)
    then show ?thesis using e cy ys by auto
  qed
qed

subsection \<open>Properties\<close>



subsection \<open>The texts of the configuration builder\<close>

text \<open>A value is plain when it breaks no line and starts no comment, and presentable when it can
  stand after the equals sign.\<close>

definition plain :: "string \<Rightarrow> bool" where
  "plain s \<longleftrightarrow> NL \<notin> set s \<and> \<not> list_ex is_comment_char s"

definition presentable :: "string \<Rightarrow> bool" where
  "presentable v \<longleftrightarrow> plain v \<and> v \<noteq> [] \<and> \<not> is_space (last v) \<and> strip v \<noteq> []"

lemma rstrip_id: "s \<noteq> [] \<Longrightarrow> \<not> is_space (last s) \<Longrightarrow> rstrip s = s"
proof -
  assume "s \<noteq> []" "\<not> is_space (last s)"
  then have "dropWhile is_space (rev s) = rev s" by (simp add: dropWhile_eq_self_iff hd_rev)
  then show ?thesis by (simp add: rstrip_def)
qed

lemma plain_strip: "plain s \<Longrightarrow> plain (strip s)"
  using set_strip[of s] by (auto simp: plain_def list_ex_iff)

lemma last_strip: "strip s \<noteq> [] \<Longrightarrow> \<not> is_space (last (strip s))"
proof -
  assume ne: "strip s \<noteq> []"
  let ?r = "rev (lstrip s)"
  have e: "strip s = rev (dropWhile is_space ?r)" by (simp add: strip_def rstrip_def)
  then have "dropWhile is_space ?r \<noteq> []" using ne by auto
  then have "\<not> is_space (hd (dropWhile is_space ?r))" by (rule hd_dropWhile)
  then show ?thesis unfolding e using \<open>dropWhile is_space ?r \<noteq> []\<close> by (simp add: last_rev)
qed

lemma presentable_strip: "plain s \<Longrightarrow> strip s \<noteq> [] \<Longrightarrow> presentable (strip s)"
  by (simp add: presentable_def plain_strip last_strip)

lemma presentable_word: "v \<noteq> [] \<Longrightarrow> \<forall>c\<in>set v. \<not> is_space c \<and> \<not> is_comment_char c \<Longrightarrow> presentable v"
  using strip_no_space[of v] by (auto simp: presentable_def plain_def list_ex_iff is_space_def)

lemma key_char_not_space: "is_key_char c \<Longrightarrow> \<not> is_space c \<and> \<not> is_comment_char c \<and> c \<noteq> CHR ''['' \<and> c \<noteq> NL"
  by (auto simp: is_key_char_def is_alnum_def is_digit_def is_lower_char_def is_upper_char_def is_space_def is_comment_char_def)

lemma setting_clean:
  assumes "k \<noteq> []" "list_all is_key_char k" "presentable v"
  shows "clean_line (setting k v)" "setting k v \<noteq> []" "setting k v \<noteq> ''[Interface]''"
proof -
  obtain c k' where k: "k = c # k'" using assms(1) by (cases k) auto
  have c: "is_key_char c" and kk: "\<forall>x\<in>set k. is_key_char x" using assms(2) by (auto simp: k list_all_iff)
  have r: "rstrip (setting k v) = setting k v"
    using assms(3) by (intro rstrip_id) (auto simp: setting_def presentable_def)
  have l: "lstrip (setting k v) = setting k v"
    using key_char_not_space[OF c] by (simp add: setting_def k lstrip_def)
  have st: "strip (setting k v) = setting k v" using r l by (simp add: strip_def)
  have kc: "takeWhile is_key_char (setting k v) = k" "dropWhile is_key_char (setting k v) = '' = '' @ v"
  proof -
    have "\<not> is_key_char CHR '' ''" by code_simp
    then show "takeWhile is_key_char (setting k v) = k" "dropWhile is_key_char (setting k v) = '' = '' @ v"
      using kk by (simp_all add: setting_def takeWhile_append2 dropWhile_append2)
  qed
  have "is_space CHR '' ''" "\<not> is_space CHR ''=''" by code_simp+
  then have ne: "\<not> empty_key (setting k v)"
    using assms(3) l kc by (simp add: empty_key_def lstrip_def presentable_def strip_def)
  have "NL \<notin> set (setting k v)" "\<not> list_ex is_comment_char (setting k v)"
    using assms(3) kk key_char_not_space
    by (auto simp: setting_def presentable_def plain_def list_ex_iff is_comment_char_def)
  moreover show "setting k v \<noteq> []" "setting k v \<noteq> ''[Interface]''" using key_char_not_space[OF c] by (auto simp: setting_def k)
  moreover have "setting k v \<noteq> ''[Peer]''" using key_char_not_space[OF c] by (auto simp: setting_def k)
  ultimately show "clean_line (setting k v)" using r st ne by (auto simp: clean_line_def)
qed

lemma int_str_chars: "\<forall>c\<in>set (int_str i). \<not> is_space c \<and> \<not> is_comment_char c"
proof -
  have "\<not> is_space c \<and> \<not> is_comment_char c" if "is_digit c \<or> c = CHR ''-''" for c
    using that by (auto simp: is_digit_def is_space_def is_comment_char_def)
  moreover have "is_digit c \<or> c = CHR ''-''" if "c \<in> set (int_str i)" for c
    using that nat_str_digits[of "nat i"] nat_str_digits[of "nat (- i)"] by (auto simp: int_str_def list_all_iff split: if_splits)
  ultimately show ?thesis by blast
qed

lemma int_str_nonempty: "int_str i \<noteq> []"
  by (simp add: int_str_def)

lemma presentable_int [simp]: "presentable (int_str i)"
  using int_str_chars int_str_nonempty by (intro presentable_word)

lemma presentable_h_text: "h_text lo hi t \<Longrightarrow> presentable t"
proof -
  assume t: "h_text lo hi t"
  have "\<not> is_space CHR ''-'' \<and> \<not> is_comment_char CHR ''-''" by code_simp
  then have "\<forall>c\<in>set t. \<not> is_space c \<and> \<not> is_comment_char c"
    using t int_str_chars[of lo] int_str_chars[of hi] by (auto simp: h_text_def)
  moreover have "t \<noteq> []" using t int_str_nonempty[of lo] by (auto simp: h_text_def)
  ultimately show ?thesis by (rule presentable_word[rotated])
qed

lemma presentable_key:
  assumes "error_text (validate_key_b64 k n) = []"
  shows "presentable (strip k)"
proof (rule presentable_word)
  have s: "b64_shape (strip k)"
    using assms by (auto simp: validate_key_b64_def Let_def error_text_def split: if_splits option.splits)
  then show "strip k \<noteq> []" by (auto simp: b64_shape_def)
  have "is_b64_char c \<or> c = CHR ''=''" if "c \<in> set (strip k)" for c
  proof (cases "c \<in> set (takeWhile is_b64_char (strip k))")
    case True
    then show ?thesis by (blast dest: set_takeWhileD)
  next
    case False
    then have "c \<in> set (dropWhile is_b64_char (strip k))"
      using that takeWhile_dropWhile_id[of is_b64_char "strip k"] by (metis Un_iff set_append)
    then show ?thesis using s by (auto simp: b64_shape_def list_all_iff)
  qed
  moreover have "\<not> is_comment_char c" if "is_b64_char c \<or> c = CHR ''=''" for c
    using that by (auto simp: is_b64_char_def b64_val_def is_comment_char_def is_upper_char_def is_lower_char_def is_digit_def split: if_splits)
  ultimately show "\<forall>c\<in>set (strip k). \<not> is_space c \<and> \<not> is_comment_char c" using b64_char_not_space by blast
qed

lemma error_text_Inr:
  "error_text (validate_address a) = [] \<Longrightarrow> strip a \<noteq> []"
  "error_text (validate_endpoint (Some e)) = [] \<Longrightarrow> strip e \<noteq> []"
  "error_text (validate_allowed_ips ips) = [] \<Longrightarrow> [] \<notin> set (map strip (split_on CHR '','' ips))"
  by (auto simp: validate_address_def validate_endpoint_def validate_allowed_ips_def or_empty_def Let_def error_text_def split: if_splits)

lemma split_on_set: "l \<in> set (split_on c s) \<Longrightarrow> set l \<subseteq> set s"
  by (induction s arbitrary: l) (fastforce split: if_splits list.splits)+

lemma join_set: "set (join sep ls) \<subseteq> set sep \<union> (\<Union>l\<in>set ls. set l)"
  by (induction sep ls rule: join.induct) auto

lemma presentable_items:
  assumes "plain ips" "[] \<notin> set (map strip (split_on CHR '','' ips))"
  shows "presentable (join '', '' (map strip (split_on CHR '','' ips)))"
proof -
  let ?is = "map strip (split_on CHR '','' ips)" and ?j = "join '', '' (map strip (split_on CHR '','' ips))"
  have ne: "?is \<noteq> []" by simp
  then have l: "last ?is \<in> set ?is" by (rule last_in_set)
  then have "last ?is \<noteq> []" using assms(2) by metis
  note j = last_join[OF ne this, of "'', ''"]
  have "\<not> is_space (last ?j)" using j l \<open>last ?is \<noteq> []\<close> last_strip by (metis (no_types, lifting) imageE list.set_map)
  moreover have "set ?j \<subseteq> set '', '' \<union> set ips"
    using join_set[of "'', ''" ?is] split_on_set[of _ "CHR '',''" ips] set_strip by fastforce
  then have "plain ?j" using assms(1) by (auto simp: plain_def list_ex_iff is_comment_char_def)
  moreover have "strip ?j \<noteq> []"
  proof -
    have "rstrip ?j = ?j" using j calculation(1) by (intro rstrip_id) auto
    have "hd ?is \<noteq> []" using assms(2) ne by (metis hd_in_set)
    show ?thesis
    proof
      assume "strip ?j = []"
      then have "dropWhile is_space (rev (lstrip ?j)) = []" by (simp add: strip_def rstrip_def)
      then have "\<forall>c\<in>set (lstrip ?j). is_space c" by simp
      then have "lstrip ?j = []" by (metis hd_dropWhile hd_in_set lstrip_def)
      then have "\<forall>c\<in>set ?j. is_space c" by (simp add: lstrip_def)
      then show False using calculation(1) j by (meson last_in_set)
    qed
  qed
  ultimately show ?thesis using j by (simp add: presentable_def)
qed

lemma legacy_parts:
  assumes "normalize_obfuscation_legacy obf = Inr out"
  obtains nums texts where "out = nums @ texts"
    and "entries_ok (\<lambda>k v. \<exists>i. v = VInt i \<and> 0 < i \<and> legacy_complaint k i = None) [''Jc'', ''Jmin'', ''Jmax'', ''S1'', ''S2''] nums"
    and "entries_ok (\<lambda>k v. \<exists>t. pget obf k = VStr t \<and> v = VStr (strip t) \<and> strip t \<noteq> []) i_keys texts"
proof -
  from assms obtain o1 o2 where
      n: "mfold (put_number obf legacy_complaint) [''Jc'', ''Jmin'', ''Jmax'', ''S1'', ''S2''] [] = Inr o1"
    and t: "mfold (put_text obf) i_keys o1 = Inr o2" and pc: "pair_checks o2 = Inr out"
    by (auto simp: normalize_obfuscation_legacy_def rbind_Inr_iff not_Some_pair split: option.splits simp del: mfold.simps)
  obtain nums where "o1 = [] @ nums" "entries_ok (\<lambda>k v. \<exists>i. v = VInt i \<and> 0 < i \<and> legacy_complaint k i = None) [''Jc'', ''Jmin'', ''Jmax'', ''S1'', ''S2''] nums"
    using mfold_entries[OF n] put_number_entry by force
  moreover obtain texts where "o2 = o1 @ texts" "entries_ok (\<lambda>k v. \<exists>t. pget obf k = VStr t \<and> v = VStr (strip t) \<and> strip t \<noteq> []) i_keys texts"
    using mfold_entries[OF t _ put_text_entry] by (force simp: i_keys_def)
  ultimately show ?thesis using that pair_checks_sound(1)[OF pc] by simp
qed

text \<open>Every value the normalisation puts out can be printed.\<close>

lemma obfuscation_values:
  assumes "config_obfuscation profile obf mtu = Inr out" "\<forall>(k, v)\<in>set obf. plain (py_str v)" "(k, v) \<in> set out"
  shows "presentable (py_str v)"
proof -
  have num: "presentable (py_str v)" if "entries_ok (\<lambda>k v. \<exists>i. v = VInt i \<and> 0 < i \<and> c k i = None) ks nums" "(k, v) \<in> set nums" for c ks nums
    using that by (auto simp: entries_ok_def)
  have text_ok: "presentable (py_str v)"
    if "entries_ok (\<lambda>k v. \<exists>t. pget obf k = VStr t \<and> v = VStr (strip t) \<and> strip t \<noteq> []) i_keys texts" "(k, v) \<in> set texts" for texts
  proof -
    from that obtain t where t: "pget obf k = VStr t" "v = VStr (strip t)" "strip t \<noteq> []" by (auto simp: entries_ok_def)
    then have "(k, VStr t) \<in> set obf" by (auto simp: pget_def split: option.splits dest: map_of_SomeD)
    then have "plain t" using assms(2) by fastforce
    then show ?thesis using t presentable_strip by simp
  qed
  have hd_ok: "presentable (py_str v)" if "headers_ok heads rs" "(k, v) \<in> set heads" for heads rs
  proof -
    from that obtain i where "i < length heads" "heads ! i = (k, v)" by (auto simp: in_set_conv_nth)
    then have "(\<lambda>(_, v) (_, lo, hi). \<exists>t. v = VStr t \<and> h_text lo hi t) (heads ! i) (rs ! i)"
      using that(1) list_all2_nthD by (fastforce simp: headers_ok_def)
    then show ?thesis using \<open>heads ! i = (k, v)\<close> presentable_h_text by (auto split: prod.splits)
  qed
  consider "out = []" | "normalize_obfuscation_legacy obf = Inr out" | "normalize_obfuscation_awg2 obf mtu = Inr out"
    using assms(1)[unfolded config_obfuscation_def] by (metis sum.inject(2))
  then show ?thesis
  proof cases
    case 2
    then obtain nums texts where "out = nums @ texts"
      "entries_ok (\<lambda>k v. \<exists>i. v = VInt i \<and> 0 < i \<and> legacy_complaint k i = None) [''Jc'', ''Jmin'', ''Jmax'', ''S1'', ''S2''] nums"
      "entries_ok (\<lambda>k v. \<exists>t. pget obf k = VStr t \<and> v = VStr (strip t) \<and> strip t \<noteq> []) i_keys texts" by (rule legacy_parts)
    then show ?thesis using assms(3) num[of legacy_complaint] text_ok by auto
  next
    case 3
    then obtain nums texts heads rs where "out = nums @ texts @ heads"
      "entries_ok (\<lambda>k v. \<exists>i. v = VInt i \<and> 0 < i \<and> awg2_complaint mtu k i = None) [''Jc'', ''Jmin'', ''Jmax'', ''S1'', ''S2'', ''S3'', ''S4''] nums"
      "entries_ok (\<lambda>k v. \<exists>t. pget obf k = VStr t \<and> v = VStr (strip t) \<and> strip t \<noteq> []) i_keys texts"
      "headers_ok heads rs" by (rule awg2_parts)
    then show ?thesis using assms(3) num[of "awg2_complaint mtu"] text_ok hd_ok by auto
  qed (use assms(3) in simp)
qed

lemma emit_keys: "k \<in> set AWG_EMIT_ORDER \<Longrightarrow> k \<noteq> [] \<and> list_all is_key_char k"
proof -
  have "list_all (\<lambda>k. k \<noteq> [] \<and> list_all is_key_char k) AWG_EMIT_ORDER" by code_simp
  then show "k \<in> set AWG_EMIT_ORDER \<Longrightarrow> k \<noteq> [] \<and> list_all is_key_char k" by (simp add: list_all_iff)
qed

lemma section_keys:
  "list_all is_key_char ''PrivateKey''" "list_all is_key_char ''Address''" "list_all is_key_char ''DNS''" "list_all is_key_char ''MTU''"
  "list_all is_key_char ''PublicKey''" "list_all is_key_char ''Endpoint''" "list_all is_key_char ''AllowedIPs''"
  "list_all is_key_char ''PersistentKeepalive''" "list_all is_key_char ''PresharedKey''"
  by code_simp+

lemma config_lines_clean:
  assumes "presentable (strip (if_private_key i))" "presentable (strip (if_address i))"
    and "presentable (case if_dns i of None \<Rightarrow> DEFAULT_DNS | Some dns \<Rightarrow> if dns = [] then DEFAULT_DNS else strip dns)"
    and "\<forall>k\<in>set AWG_EMIT_ORDER. map_of obf k \<noteq> None \<longrightarrow> presentable (py_str (pget obf k))"
    and "presentable (strip (pf_public_key p))" "presentable (strip (pf_endpoint p))"
    and "presentable (join '', '' (map strip (split_on CHR '','' (pf_allowed_ips p))))"
    and "\<forall>k. psk = Some k \<longrightarrow> presentable k"
  shows "clean_list (config_lines i p mtu obf psk)" "last (config_lines i p mtu obf psk) \<noteq> []"
proof -
  note sc = setting_clean[OF _ section_keys(1) assms(1)] setting_clean[OF _ section_keys(2) assms(2)]
    setting_clean[OF _ section_keys(3) assms(3)] setting_clean[OF _ section_keys(4) presentable_int]
    setting_clean[OF _ section_keys(5) assms(5)] setting_clean[OF _ section_keys(6) assms(6)]
    setting_clean[OF _ section_keys(7) assms(7)] setting_clean[OF _ section_keys(8) presentable_int]
  define mtus where "mtus = (case mtu of Some m \<Rightarrow> if m > 0 then [setting ''MTU'' (int_str m)] else [] | None \<Rightarrow> [])"
  define obfs where "obfs = map (\<lambda>k. setting k (py_str (pget obf k))) (filter (\<lambda>k. map_of obf k \<noteq> None) AWG_EMIT_ORDER)"
  define psks where "psks = (case psk of None \<Rightarrow> [] | Some k \<Rightarrow> [setting ''PresharedKey'' k])"
  have good: "clean_line l \<and> l \<noteq> [] \<and> l \<noteq> ''[Interface]''" if "l \<in> set (mtus @ obfs @ psks)" for l
    using that sc(10,11,12) assms(4,8) emit_keys setting_clean[OF _ section_keys(9)] setting_clean
    by (auto simp: mtus_def obfs_def psks_def split: option.splits if_splits)
  have succ: "successively (\<lambda>a b. a \<noteq> [] \<or> b \<noteq> []) ls" if "\<forall>l\<in>set ls. l \<noteq> []" for ls :: "string list"
    using that by (induction ls) (auto simp: successively_Cons)
  define front where "front = [''[Interface]'', setting ''PrivateKey'' (strip (if_private_key i)), setting ''Address'' (strip (if_address i)),
      setting ''DNS'' (case if_dns i of None \<Rightarrow> DEFAULT_DNS | Some dns \<Rightarrow> if dns = [] then DEFAULT_DNS else strip dns)] @ mtus @ obfs"
  define rear where "rear = [''[Peer]'', setting ''PublicKey'' (strip (pf_public_key p)), setting ''Endpoint'' (strip (pf_endpoint p)),
        setting ''AllowedIPs'' (join '', '' (map strip (split_on CHR '','' (pf_allowed_ips p)))),
        setting ''PersistentKeepalive'' (int_str (pf_keepalive p))] @ psks"
  have lines: "config_lines i p mtu obf psk = front @ [] # rear"
    by (simp add: config_lines_def front_def rear_def mtus_def obfs_def psks_def)
  have front: "\<forall>l\<in>set front. clean_line l \<and> l \<noteq> []" "hd front = ''[Interface]''" "front \<noteq> []"
    using good sc headers_clean by (auto simp: front_def)
  have rear: "\<forall>l\<in>set rear. clean_line l \<and> l \<noteq> []" "rear \<noteq> []" using good sc headers_clean by (auto simp: rear_def)
  have "last front \<noteq> []" "hd rear \<noteq> []" "last rear \<noteq> []" using front rear by (meson last_in_set hd_in_set)+
  then show "clean_list (config_lines i p mtu obf psk)" "last (config_lines i p mtu obf psk) \<noteq> []"
    unfolding lines clean_list_def
    using front rear succ[of front] succ[of rear] headers_clean(3)
    by (auto simp: successively_append_iff successively_Cons)
qed

text \<open>C31. The texts of the configuration builder are final: as long as the caller's address,
  endpoint, allowed addresses, name servers and obfuscation values hold no line break and no comment
  character, a configuration that is built is left unchanged by the sanitizer, and reading it line
  by line gives back exactly the settings it was built from.\<close>

theorem built_config_clean:
  assumes "build_config i p profile obf = Inr conf"
    and "plain (if_address i)" "plain (pf_endpoint p)" "plain (pf_allowed_ips p)"
    and "\<forall>dns. if_dns i = Some dns \<longrightarrow> plain dns \<and> (dns = [] \<or> strip dns \<noteq> [])"
    and "\<forall>(k, v)\<in>set obf. plain (py_str v)"
  shows "sanitize_awg_conf conf = conf
    \<and> (\<exists>out psk. split_on NL conf = config_lines i p (config_mtu profile (if_mtu i)) out psk @ [[]])"
proof -
  obtain out psk where noerr: "config_errors i p profile obf = []"
    and ob: "config_obfuscation profile obf (config_mtu profile (if_mtu i)) = Inr out"
    and psk: "(case pf_preshared_key p of None \<Rightarrow> Inr None | Some k \<Rightarrow> if k = [] then Inr None
           else wrap_errors (rbind (validate_key_b64 k ''PresharedKey'') (\<lambda>v. Inr (Some v)))) = Inr psk"
    and conf: "conf = join [NL] (config_lines i p (config_mtu profile (if_mtu i)) out psk) @ [NL]"
    using assms(1) by (auto simp: build_config_def rbind_Inr_iff wrap_errors_def split: if_splits sum.splits py_error.splits)
  note e = noerr[unfolded config_errors_def append_is_Nil_conv]
  let ?ls = "config_lines i p (config_mtu profile (if_mtu i)) out psk"
  have dns: "presentable (case if_dns i of None \<Rightarrow> DEFAULT_DNS | Some dns \<Rightarrow> if dns = [] then DEFAULT_DNS else strip dns)"
  proof -
    have "presentable DEFAULT_DNS" by code_simp
    then show ?thesis using assms(5) presentable_strip by (auto split: option.splits)
  qed
  have obv: "\<forall>k\<in>set AWG_EMIT_ORDER. map_of out k \<noteq> None \<longrightarrow> presentable (py_str (pget out k))"
    using obfuscation_values[OF ob assms(6)] map_of_SomeD[of out] by (fastforce simp: pget_def)
  have key: "\<forall>k. psk = Some k \<longrightarrow> presentable k"
    using psk presentable_key[of _ "''PresharedKey''"]
    by (auto simp: wrap_errors_def rbind_Inr_iff error_text_def validate_key_b64_def Let_def split: option.splits if_splits sum.splits py_error.splits)
  have c: "clean_list ?ls" "last ?ls \<noteq> []"
    using config_lines_clean[OF _ _ dns obv _ _ _ key, of p] e presentable_key presentable_strip[OF assms(2)] presentable_strip[OF assms(3)]
      presentable_items[OF assms(4)] error_text_Inr by blast+
  have ne: "?ls \<noteq> []" by (simp add: config_lines_def)
  have "split_on NL (join [NL] (?ls @ [[]])) = ?ls @ [[]]"
    using c headers_clean(3) by (intro split_on_join) (auto simp: clean_list_def clean_line_def)
  then have "split_on NL conf = ?ls @ [[]]" unfolding conf join_snoc_empty[OF ne] .
  moreover have "sanitize_awg_conf conf = conf" unfolding conf by (rule sanitize_clean_text[OF c(1) ne c(2)])
  ultimately show ?thesis by blast
qed


definition sample_interface :: interface_fields where
  "sample_interface = \<lparr>if_private_key = ''BwcHBwcHBwcHBwcHBwcHBwcHBwcHBwcHBwcHBwcHBwc='', if_address = ''10.8.1.2/32'', if_dns = None, if_mtu = Some 1280\<rparr>"

definition sample_peer :: peer_fields where
  "sample_peer = \<lparr>pf_public_key = ''BwcHBwcHBwcHBwcHBwcHBwcHBwcHBwcHBwcHBwcHBwc='', pf_endpoint = ''vpn.example.com:443'',
     pf_allowed_ips = ''0.0.0.0/0,::/0'', pf_keepalive = 25, pf_preshared_key = None\<rparr>"

theorem built_config_clean_witness:
  "\<exists>conf. build_config sample_interface sample_peer Awg_2_0_asc [(''Jc'', VInt 4), (''H1'', VStr ''5-10'')] = Inr conf
     \<and> sanitize_awg_conf conf = conf"
proof -
  let ?obf = "[(''Jc'', VInt 4), (''H1'', VStr ''5-10'')]"
  have "case build_config sample_interface sample_peer Awg_2_0_asc ?obf of Inl _ \<Rightarrow> False | Inr _ \<Rightarrow> True" by code_simp
  then obtain conf where run: "build_config sample_interface sample_peer Awg_2_0_asc ?obf = Inr conf" by (auto split: sum.splits)
  have "plain (if_address sample_interface)" "plain (pf_endpoint sample_peer)" "plain (pf_allowed_ips sample_peer)"
    "\<forall>(k, v)\<in>set ?obf. plain (py_str v)" by code_simp+
  moreover have "\<forall>dns. if_dns sample_interface = Some dns \<longrightarrow> plain dns \<and> (dns = [] \<or> strip dns \<noteq> [])" by (simp add: sample_interface_def)
  ultimately show ?thesis using built_config_clean[OF run] run by blast
qed

text \<open>The validation lets a line break through: an endpoint whose host name ends in one is
  accepted, because the pattern of a label ends in \<^verbatim>\<open>$\<close>, and the configuration built from it has
  one line more than settings, while the module states that its output is fully determined.\<close>

theorem endpoint_line_break:
  "let p = sample_peer\<lparr>pf_endpoint := ''vpn'' @ [NL] @ '':443''\<rparr> in
     validate_endpoint (Some (pf_endpoint p)) = Inr (pf_endpoint p)
     \<and> (\<exists>conf. build_config sample_interface p Wireguard_universal [] = Inr conf
          \<and> length (split_on NL conf) = Suc (length (config_lines sample_interface p (Some 1280) [] None @ [[]]))
          \<and> '':443'' \<in> set (split_on NL conf))"
proof -
  let ?p = "sample_peer\<lparr>pf_endpoint := ''vpn'' @ [NL] @ '':443''\<rparr>"
  have "validate_endpoint (Some (pf_endpoint ?p)) = Inr (pf_endpoint ?p)" by code_simp
  moreover have "case build_config sample_interface ?p Wireguard_universal [] of Inl _ \<Rightarrow> False
     | Inr conf \<Rightarrow> length (split_on NL conf) = Suc (length (config_lines sample_interface ?p (Some 1280) [] None @ [[]]))
          \<and> '':443'' \<in> set (split_on NL conf)" by code_simp
  ultimately show ?thesis unfolding Let_def by (auto split: sum.splits)
qed

end
