(* ===== verification/Address_Alloc.thy ===== *)
theory Address_Alloc
  imports Config_Builder Rebalance
begin

section \<open>Tunnel addresses of devices\<close>

text \<open>
  \<^verbatim>\<open>services/address_allocator.py\<close>: the next free host of the subnet of a server profile, chosen
  against the addresses of all devices that are not revoked, on any server. The \<^verbatim>\<open>startswith\<close> of the
  query is a \<^verbatim>\<open>LIKE\<close> with the prefix unescaped, as SQLAlchemy renders it.
\<close>

definition subnet_base_and_cidr :: "payload \<Rightarrow> (string \<times> int) option" where
  "subnet_base_and_cidr rp =
     (let parts = split_on CHR ''.'' (strip (py_str (subnet_param rp))) in
      if rp = [] \<or> \<not> truthy (subnet_param rp) \<or> length parts \<noteq> 4 then None
      else case py_int_val (cidr_param rp) of
        Inl _ \<Rightarrow> None
      | Inr cidr \<Rightarrow> Some (join ''.'' (take 3 parts), cidr))"

text \<open>The number after \<open>n\<close> groups of digits and dots at the start of a text.\<close>

fun match_octets :: "nat \<Rightarrow> string \<Rightarrow> int option" where
  "match_octets 0 s = (let d = takeWhile is_digit s in if d = [] then None else Some (int (digits_val d)))"
| "match_octets (Suc n) s =
     (if takeWhile is_digit s = [] then None
      else case dropWhile is_digit s of
        [] \<Rightarrow> None
      | c # t \<Rightarrow> if c = CHR ''.'' then match_octets n t else None)"

definition last_octet_from_allowed_ips :: "string option \<Rightarrow> int option" where
  "last_octet_from_allowed_ips a = (case a of None \<Rightarrow> None | Some s \<Rightarrow> match_octets 3 (strip s))"

definition used_octets :: "db \<Rightarrow> string \<Rightarrow> int set" where
  "used_octets d base = set (concat (map (\<lambda>dev. case d_allowed_ips dev of
       None \<Rightarrow> []
     | Some a \<Rightarrow> if d_revoked_at dev = None \<and> sql_like (base @ ''.%'') a
                 then (case last_octet_from_allowed_ips (Some a) of None \<Rightarrow> [] | Some lo \<Rightarrow> [lo]) else []) (devices d)))"

text \<open>\<^verbatim>\<open>s.replace(old, "")\<close> for a non-empty \<open>old\<close>.\<close>

fun remove_all :: "nat \<Rightarrow> string \<Rightarrow> string \<Rightarrow> string" where
  "remove_all skip old [] = []"
| "remove_all (Suc k) old (c # s) = remove_all k old s"
| "remove_all 0 old (c # s) =
     (if startswith (c # s) old then remove_all (length old - 1) old s else c # remove_all 0 old s)"

definition allocate_address_for_device :: "db \<Rightarrow> payload \<Rightarrow> (string \<times> string) result" where
  "allocate_address_for_device d rp =
     (let (base, cidr) = (case subnet_base_and_cidr rp of None \<Rightarrow> (''10.8.1'', 24) | Some p \<Rightarrow> p) in
      rbind (allocate_next_address base (used_octets d base) 2 254) (\<lambda>allocated_32.
        Inr (remove_all 0 ''/32'' allocated_32 @ ''/'' @ int_str cidr, allocated_32)))"

subsection \<open>Lemmas\<close>

text \<open>A base of three numbers, as every usable subnet has.\<close>

definition numeric_base :: "string \<Rightarrow> bool" where
  "numeric_base base \<longleftrightarrow> (\<exists>a b c. isdigit a \<and> isdigit b \<and> isdigit c \<and> base = a @ ''.'' @ b @ ''.'' @ c)"

lemma match_octets_digits: "isdigit d \<Longrightarrow> match_octets (Suc n) (d @ CHR ''.'' # s) = match_octets n s"
  by (auto simp: isdigit_def list_all_iff takeWhile_append2 dropWhile_append2 is_digit_def)

lemma match_octets_last: "0 \<le> h \<Longrightarrow> \<not> is_digit c \<Longrightarrow> match_octets 0 (int_str h @ c # s) = Some h"
  using nat_str_digits[of "nat h"] by (simp add: int_str_def list_all_iff takeWhile_append2)

lemma numeric_base_chars:
  assumes "numeric_base base"
  shows "c \<in> set base \<Longrightarrow> is_digit c \<or> c = CHR ''.''" "base \<noteq> []" "is_digit (hd base)"
proof -
  obtain a b e where base: "base = a @ ''.'' @ b @ ''.'' @ e" "isdigit a" "isdigit b" "isdigit e"
    using assms by (auto simp: numeric_base_def)
  then show "c \<in> set base \<Longrightarrow> is_digit c \<or> c = CHR ''.''" "base \<noteq> []" "is_digit (hd base)"
    by (auto simp: isdigit_def list_all_iff hd_append)
qed

lemma strip_address:
  assumes "numeric_base base" "0 \<le> h"
  shows "strip (base @ ''.'' @ int_str h @ ''/32'') = base @ ''.'' @ int_str h @ ''/32''"
proof (rule strip_no_space, rule ballI)
  fix c assume "c \<in> set (base @ ''.'' @ int_str h @ ''/32'')"
  then have "is_digit c \<or> c \<in> set ''./32''"
    using numeric_base_chars(1)[OF assms(1)] int_str_no_sep[OF assms(2), of c] by auto
  then show "\<not> is_space c" using digit_not_space by (auto simp: is_space_def)
qed

lemma octet_of_address:
  assumes "numeric_base base" "0 \<le> h"
  shows "last_octet_from_allowed_ips (Some (base @ ''.'' @ int_str h @ ''/32'')) = Some h"
proof -
  obtain a b c where base: "base = a @ ''.'' @ b @ ''.'' @ c" "isdigit a" "isdigit b" "isdigit c"
    using assms(1) by (auto simp: numeric_base_def)
  have "match_octets (Suc (Suc (Suc 0))) (a @ CHR ''.'' # b @ CHR ''.'' # c @ CHR ''.'' # int_str h @ CHR ''/'' # ''32'') = Some h"
    using base assms(2) by (simp only: match_octets_digits match_octets_last dot_not_digit not_False_eq_True)
  then show ?thesis
    using strip_address[OF assms] base(1) by (simp add: last_octet_from_allowed_ips_def numeral_3_eq_3 del: match_octets.simps)
qed

lemma sql_like_any: "sql_like ''%'' s"
  by (induction s) auto

lemma sql_like_prefix:
  "\<forall>c\<in>set p. c \<noteq> CHR ''%'' \<and> c \<noteq> CHR ''_'' \<and> c \<noteq> CHR 0x5C \<Longrightarrow> sql_like (p @ ''%'') s \<longleftrightarrow> startswith s p"
proof (induction p arbitrary: s)
  case Nil
  then show ?case using sql_like_any by (simp add: startswith_def)
next
  case (Cons c p)
  then show ?case by (cases s) (auto simp: startswith_def)
qed

lemma like_base:
  assumes "numeric_base base"
  shows "sql_like (base @ ''.%'') s \<longleftrightarrow> startswith s (base @ ''.'')"
proof -
  have "c \<noteq> CHR ''%'' \<and> c \<noteq> CHR ''_'' \<and> c \<noteq> CHR 0x5C" if "c \<in> set (base @ ''.'')" for c
    using that numeric_base_chars(1)[OF assms, of c] by (auto simp: is_digit_def)
  then show ?thesis using sql_like_prefix[of "base @ ''.''" s] by simp
qed

lemma remove_all_none: "CHR ''/'' \<notin> set s \<Longrightarrow> remove_all 0 ''/32'' (s @ t) = s @ remove_all 0 ''/32'' t"
  by (induction s) (auto simp: startswith_def)

lemma used_octetsI:
  assumes "dev \<in> set (devices d)" "d_revoked_at dev = None" "d_allowed_ips dev = Some a"
    and "sql_like (base @ ''.%'') a" "last_octet_from_allowed_ips (Some a) = Some lo"
  shows "lo \<in> used_octets d base"
  unfolding used_octets_def set_concat set_map image_image
  by (rule UN_I[OF assms(1)]) (simp add: assms(2-))

lemma find_upto_None: "List.find P [i..j] = None \<Longrightarrow> i \<le> k \<and> k \<le> j \<longrightarrow> \<not> P k"
  by (auto simp: find_None_iff)

lemma find_upto_Some:
  assumes "List.find P [i..j] = Some h"
  shows "i \<le> h \<and> h \<le> j \<and> P h \<and> (\<forall>k. i \<le> k \<and> k < h \<longrightarrow> \<not> P k)"
proof -
  obtain n where n: "n < length [i..j]" "P ([i..j] ! n)" "h = [i..j] ! n" "\<forall>m<n. \<not> P ([i..j] ! m)"
    using assms by (auto simp: find_Some_iff)
  then have h: "h = i + int n" "i + int n \<le> j" by auto
  have "\<not> P k" if "i \<le> k" "k < h" for k
  proof -
    have "nat (k - i) < n" using that h by simp
    moreover have "[i..j] ! nat (k - i) = k" using that h by simp
    ultimately show ?thesis using n(4) by metis
  qed
  then show ?thesis using n h by simp
qed

subsection \<open>Properties\<close>

text \<open>C32. Address allocation is sound for a numeric subnet: it returns the least free host between
  2 and 254, in the two forms the configuration and the peer need; no device that is not revoked
  has that address; and it refuses exactly when all 253 hosts are taken.\<close>

theorem allocation_fresh:
  assumes "(base, cidr) = (case subnet_base_and_cidr rp of None \<Rightarrow> (''10.8.1'', 24) | Some p \<Rightarrow> p)" "numeric_base base"
  shows "case allocate_address_for_device d rp of
      Inr (address, allowed_ips) \<Rightarrow>
        \<exists>h. 2 \<le> h \<and> h \<le> 254 \<and> allowed_ips = base @ ''.'' @ int_str h @ ''/32''
          \<and> address = base @ ''.'' @ int_str h @ ''/'' @ int_str cidr
          \<and> (\<forall>dev\<in>set (devices d). d_revoked_at dev = None \<longrightarrow> d_allowed_ips dev \<noteq> Some allowed_ips)
          \<and> (\<forall>k. 2 \<le> k \<and> k < h \<longrightarrow> k \<in> used_octets d base)
    | Inl _ \<Rightarrow> \<forall>k. 2 \<le> k \<and> k \<le> 254 \<longrightarrow> k \<in> used_octets d base"
proof (cases "List.find (\<lambda>h. h \<notin> used_octets d base) [2..254]")
  case None
  then have "allocate_address_for_device d rp = Inl (ValueError (''No free address in '' @ base @ ''.x (hosts '' @ int_str 2 @ ''-'' @ int_str 254 @ '')''))"
    by (simp add: allocate_address_for_device_def allocate_next_address_def assms(1)[symmetric])
  then show ?thesis using find_upto_None[OF None] by simp
next
  case (Some h)
  note h = find_upto_Some[OF Some]
  let ?ip = "base @ ''.'' @ int_str h @ ''/32''"
  have "CHR ''/'' \<notin> set (base @ ''.'' @ int_str h)"
    using numeric_base_chars(1)[OF assms(2), of "CHR ''/''"] int_str_no_sep[of h "CHR ''/''"] h by auto
  then have "remove_all 0 ''/32'' ?ip = base @ ''.'' @ int_str h"
    using remove_all_none[of "base @ ''.'' @ int_str h" "''/32''"] by (simp add: startswith_def)
  then have run: "allocate_address_for_device d rp = Inr (base @ ''.'' @ int_str h @ ''/'' @ int_str cidr, ?ip)"
    using Some by (simp add: allocate_address_for_device_def allocate_next_address_def assms(1)[symmetric])
  have "d_allowed_ips dev \<noteq> Some ?ip" if "dev \<in> set (devices d)" "d_revoked_at dev = None" for dev
  proof
    assume a: "d_allowed_ips dev = Some ?ip"
    have "sql_like (base @ ''.%'') ?ip" unfolding like_base[OF assms(2)] using startswith_append[of "base @ ''.''" "int_str h @ ''/32''"] by simp
    then have "h \<in> used_octets d base"
      using used_octetsI[OF that a] octet_of_address[OF assms(2), of h] h by simp
    then show False using h by blast
  qed
  then show ?thesis unfolding run using h by auto
qed

theorem allocation_fresh_witness:
  "allocate_address_for_device (empty_db\<lparr>devices := [\<lparr>d_id = ''D1'', d_user_id = 1, d_subscription_id = ''S1'', d_server_id = ''a'', d_device_name = None,
     d_public_key = ''K1'', d_allowed_ips = Some ''10.8.1.2/32'', d_preshared_key = None, d_issued_at = 0,
     d_revoked_at = None, d_suspended_at = None, d_expires_at = None, d_apply_status = None, d_last_applied_at = None, d_last_error = None\<rparr>]\<rparr>) []
     = Inr (''10.8.1.3/24'', ''10.8.1.3/32'')
   \<and> (\<forall>d. case allocate_address_for_device d [] of Inr (_, ip) \<Rightarrow>
        \<forall>dev\<in>set (devices d). d_revoked_at dev = None \<longrightarrow> d_allowed_ips dev \<noteq> Some ip | Inl _ \<Rightarrow> True)"
proof -
  have b: "numeric_base ''10.8.1''"
    unfolding numeric_base_def by (rule exI[of _ "''10''"], rule exI[of _ "''8''"], rule exI[of _ "''1''"]) code_simp
  have "(''10.8.1'', 24) = (case subnet_base_and_cidr [] of None \<Rightarrow> (''10.8.1'', 24) | Some p \<Rightarrow> p)"
    by (simp add: subnet_base_and_cidr_def)
  note allocation_fresh[OF this b]
  then have "case allocate_address_for_device d [] of Inr (_, ip) \<Rightarrow>
        \<forall>dev\<in>set (devices d). d_revoked_at dev = None \<longrightarrow> d_allowed_ips dev \<noteq> Some ip | Inl _ \<Rightarrow> True" for d
    by (fastforce split: sum.splits)
  moreover have "allocate_address_for_device (empty_db\<lparr>devices := [\<lparr>d_id = ''D1'', d_user_id = 1, d_subscription_id = ''S1'', d_server_id = ''a'', d_device_name = None,
     d_public_key = ''K1'', d_allowed_ips = Some ''10.8.1.2/32'', d_preshared_key = None, d_issued_at = 0,
     d_revoked_at = None, d_suspended_at = None, d_expires_at = None, d_apply_status = None, d_last_applied_at = None, d_last_error = None\<rparr>]\<rparr>) []
     = Inr (''10.8.1.3/24'', ''10.8.1.3/32'')" by code_simp
  ultimately show ?thesis by blast
qed

end
