(* ===== verification/Docker_Runtime.thy ===== *)
theory Docker_Runtime
  imports Migration Config_Builder "HOL-Library.AList"
begin

section \<open>The Docker runtime adapter\<close>

text \<open>
  \<^verbatim>\<open>services/node_runtime_docker.py\<close>: discovery of WireGuard containers, and their peers managed by
  running \<^verbatim>\<open>wg\<close>, \<^verbatim>\<open>ip\<close> and \<^verbatim>\<open>tc\<close> inside them. The Docker daemon and the programs in the containers
  are not part of the repository: they are the record \<open>docker\<close>, on a world \<open>'w\<close>. Commands that only
  read (\<^verbatim>\<open>wg show\<close>, \<^verbatim>\<open>ip addr show\<close>) are queries and leave the world alone; an \<^const>\<open>Inl\<close> is a call
  that raised. The measured latency, the clock and the JSON reader are fields of the record too.
  Node metadata keeps the fields of \<^typ>\<open>node\<close>; the list of classification evidence only affects logs.
\<close>

record container =
  ct_id :: string
  ct_name :: string
  ct_status :: string
  ct_image_refs :: "string list"
  ct_exposed :: "string list"
  ct_ports :: "string list"
  ct_mounts :: "string list"
  ct_entry :: "string list"
  ct_caps :: "string list"

record 'w docker =
  dk_containers :: "'w \<Rightarrow> container list option"
  dk_query :: "string \<Rightarrow> string list \<Rightarrow> 'w \<Rightarrow> (int \<times> string) result"
  dk_exec :: "string \<Rightarrow> string list \<Rightarrow> 'w \<Rightarrow> (int \<times> string) result \<times> 'w"
  dk_latency_ms :: "'w \<Rightarrow> rat"
  dk_now_ts :: "'w \<Rightarrow> int"
  dk_json :: "string \<Rightarrow> json option"

subsection \<open>Sanitizing\<close>

definition is_name_char :: "char \<Rightarrow> bool" where
  "is_name_char c \<longleftrightarrow> is_alnum c \<or> c \<in> set ''_.-''"

definition sanitize_container_name :: "string \<Rightarrow> string result" where
  "sanitize_container_name container_name =
     (let name = strip container_name in
      if name \<noteq> [] \<and> is_alnum (hd name) \<and> list_all is_name_char (tl name) \<and> length name \<le> 128
      then Inr name else Inl (WireGuardCommandError ''Invalid container name''))"

definition public_key_ok :: "string \<Rightarrow> bool" where
  "public_key_ok key \<longleftrightarrow> list_all (\<lambda>c. is_alnum c \<or> c \<in> set ''+/='') key \<and> 32 \<le> length key \<and> length key \<le> 64"

definition sanitize_public_key :: "string \<Rightarrow> string result" where
  "sanitize_public_key public_key =
     (if public_key_ok (strip public_key) then Inr (strip public_key) else Inl (WireGuardCommandError ''Invalid public key''))"

definition is_allowed_char :: "char \<Rightarrow> bool" where
  "is_allowed_char c \<longleftrightarrow> is_hex c \<or> c \<in> {CHR ''.'', CHR '','', CHR ''/'', CHR '':'', CHR '' '', CHR 0x09}"

definition sanitize_allowed_ips :: "string \<Rightarrow> string result" where
  "sanitize_allowed_ips allowed_ips =
     (let value = strip allowed_ips in
      if value \<noteq> [] \<and> list_all is_allowed_char value then Inr value else Inl (WireGuardCommandError ''Invalid allowed IPs''))"

definition sanitize_interface_name :: "string \<Rightarrow> string result" where
  "sanitize_interface_name interface_name =
     (let iface = strip interface_name in
      if iface \<noteq> [] \<and> length iface \<le> 32 \<and> list_all (\<lambda>c. is_alnum c \<or> c \<in> set ''_.:-'') iface
      then Inr iface else Inl (WireGuardCommandError ''Invalid interface name''))"

definition clamp_keepalive :: "int option \<Rightarrow> int" where
  "clamp_keepalive v = (case v of None \<Rightarrow> 25 | Some i \<Rightarrow> min (max i 0) 65535)"

subsection \<open>Reading the output of wg\<close>

text \<open>\<^verbatim>\<open>s.splitlines()\<close> and \<^verbatim>\<open>s.split()\<close>.\<close>

definition is_line_break :: "char \<Rightarrow> bool" where
  "is_line_break c \<longleftrightarrow> c \<in> {CHR 0x0A, CHR 0x0B, CHR 0x0C, CHR 0x0D, CHR 0x1C, CHR 0x1D, CHR 0x1E}"

function splitlines :: "string \<Rightarrow> string list" where
  "splitlines [] = []"
| "splitlines (c # s) =
     (if is_line_break c then [] # splitlines (if c = CHR 0x0D \<and> s \<noteq> [] \<and> hd s = NL then tl s else s)
      else case splitlines s of [] \<Rightarrow> [[c]] | l # ls \<Rightarrow> (c # l) # ls)"
  by pat_completeness auto
termination by (relation "measure length") (auto simp: less_Suc_eq_le)

function split_ws :: "string \<Rightarrow> string list" where
  "split_ws s =
     (let t = dropWhile is_space s in
      if t = [] then [] else takeWhile (\<lambda>c. \<not> is_space c) t # split_ws (dropWhile (\<lambda>c. \<not> is_space c) t))"
  by pat_completeness auto
termination
proof (relation "measure length")
  fix s t :: string
  assume t: "t = dropWhile is_space s" "t \<noteq> []"
  then have "\<not> is_space (hd t)" using hd_dropWhile by blast
  then have "length (dropWhile (\<lambda>c. \<not> is_space c) t) < length t"
    using t(2) length_dropWhile_le[of "\<lambda>c. \<not> is_space c" "tl t"] by (cases t) (auto simp: le_imp_less_Suc)
  then show "(dropWhile (\<lambda>c. \<not> is_space c) t, s) \<in> measure length"
    using t(1) length_dropWhile_le[of is_space s] by simp
qed simp

declare split_ws.simps [simp del]

definition int_or_0 :: "string \<Rightarrow> int" where
  "int_or_0 s = (if s = [] then 0 else case py_int s of None \<Rightarrow> 0 | Some i \<Rightarrow> i)"

abbreviation TAB :: char where "TAB \<equiv> CHR 0x09"

text \<open>A row of the dump: key, preshared key, endpoint, addresses, handshake, received, sent, keepalive.\<close>

definition dump_peer :: "string \<Rightarrow> peer_row option" where
  "dump_peer line =
     (let parts = split_on TAB line in
      if length parts < 8 then None
      else Some \<lparr>p_public_key = parts ! 0, p_allowed_ips = parts ! 3, p_last_handshake = int_or_0 (parts ! 4),
                 p_transfer_rx = int_or_0 (parts ! 5), p_transfer_tx = int_or_0 (parts ! 6)\<rparr>)"

definition dump_interface :: "string \<Rightarrow> string \<times> int" where
  "dump_interface line =
     (let parts = split_on TAB line in
      if length parts \<ge> 5 \<and> \<not> public_key_ok (parts ! 0) then (parts ! 2, int_or_0 (parts ! 3))
      else (if length parts > 1 then parts ! 1 else [], int_or_0 (if length parts > 2 then parts ! 2 else ''0'')))"

definition parse_wg_dump :: "string \<Rightarrow> string \<times> int \<times> peer_row list" where
  "parse_wg_dump output =
     (case filter (\<lambda>l. strip l \<noteq> []) (splitlines (strip output)) of
        [] \<Rightarrow> ([], 0, [])
      | l # ls \<Rightarrow> (let (key, port) = dump_interface l in (key, port, List.map_filter dump_peer ls)))"

definition obf_key :: "string \<Rightarrow> string" where
  "obf_key k = (if k = ''jc'' then ''Jc'' else if k = ''jmin'' then ''Jmin'' else if k = ''jmax'' then ''Jmax''
     else if k = ''s1'' then ''S1'' else if k = ''s2'' then ''S2'' else if k = ''s3'' then ''S3'' else if k = ''s4'' then ''S4''
     else if k = ''h1'' then ''H1'' else if k = ''h2'' then ''H2'' else if k = ''h3'' then ''H3'' else ''H4'')"

definition put_obfuscation :: "string \<Rightarrow> payload \<Rightarrow> payload" where
  "put_obfuscation raw res =
     (let line = strip raw; (k, v) = split1 CHR '':'' line; key = lower (strip k); val = strip v;
          left = strip (fst (split1 CHR ''-'' val)); right = strip (snd (split1 CHR ''-'' val))
      in if CHR '':'' \<notin> set line then res
         else if key \<in> {''jc'', ''jmin'', ''jmax'', ''s1'', ''s2'', ''s3'', ''s4''}
         then (case py_int val of None \<Rightarrow> res | Some i \<Rightarrow> AList.update (obf_key key) (VInt i) res)
         else if key \<in> {''h1'', ''h2'', ''h3'', ''h4''} \<and> val \<noteq> []
         then (if isdigit val then AList.update (obf_key key) (VInt (int (digits_val val))) res
               else if CHR ''-'' \<in> set val \<and> isdigit left \<and> isdigit right
               then AList.update (obf_key key) (VStr (left @ ''-'' @ right)) res
               else res)
         else res)"

definition parse_wg_show_obfuscation :: "string \<Rightarrow> payload option" where
  "parse_wg_show_obfuscation output =
     (let res = fold put_obfuscation (splitlines (strip output)) [] in if res = [] then None else Some res)"

definition parse_wg_interfaces :: "string \<Rightarrow> string list" where
  "parse_wg_interfaces output =
     List.map_filter (\<lambda>raw. case sanitize_interface_name raw of Inl _ \<Rightarrow> None | Inr i \<Rightarrow> Some i) (split_ws (strip output))"

subsection \<open>Addresses\<close>

definition host_cidr :: "string \<Rightarrow> string option" where
  "host_cidr token =
     (let cidr = strip token in
      if cidr = [] then None
      else case ip_network cidr of
        Some (V4, v, p) \<Rightarrow> if p = 32 then Some (net4_str v p) else None
      | _ \<Rightarrow> None)"

definition extract_ipv4_host_cidrs :: "string \<Rightarrow> string list" where
  "extract_ipv4_host_cidrs allowed_ips = List.map_filter host_cidr (split_on CHR '','' allowed_ips)"

definition subnet_of_host :: "string \<Rightarrow> string option" where
  "subnet_of_host host =
     (case ip_address (hd (split_on CHR ''/'' host)) of
        Some (V4, v) \<Rightarrow> Some (net4_str (mask4 v 24) 24)
      | Some (V6, v) \<Rightarrow> None
      | None \<Rightarrow> None)"

definition add_new :: "string \<Rightarrow> string list \<Rightarrow> string list" where
  "add_new x xs = (if x \<in> set xs then xs else xs @ [x])"

definition subnets_for_allowed_ips :: "string \<Rightarrow> string list" where
  "subnets_for_allowed_ips allowed_ips =
     fold add_new (List.map_filter subnet_of_host (extract_ipv4_host_cidrs allowed_ips)) []"

subsection \<open>Classification and health\<close>

definition match_amnezia :: "string \<Rightarrow> bool" where
  "match_amnezia s \<longleftrightarrow> s \<noteq> [] \<and> contains ''amnezia'' (lower s)"

definition udp_port :: "string \<Rightarrow> int option" where
  "udp_port raw =
     (let (ps, proto) = rsplit1 CHR ''/'' raw in
      if CHR ''/'' \<in> set raw \<and> isdigit ps \<and> lower proto = ''udp'' then Some (int (digits_val ps)) else None)"

definition classify_container_inspect :: "container \<Rightarrow> bool \<times> rat" where
  "classify_container_inspect c =
     (let entry = lower (join '' '' (ct_entry c));
          image = list_ex match_amnezia (ct_image_refs c);
          ent = contains ''amneziawg'' entry \<or> contains ''wg '' entry \<or> contains ''awg'' entry;
          tun = list_ex (\<lambda>m. m \<noteq> [] \<and> contains ''/dev/net/tun'' m) (ct_mounts c);
          cap = ''NET_ADMIN'' \<in> set (ct_caps c) \<or> ''CAP_NET_ADMIN'' \<in> set (ct_caps c);
          port = list_ex (\<lambda>r. case udp_port r of None \<Rightarrow> False | Some p \<Rightarrow> 51820 \<le> p \<and> p \<le> 52000) (ct_exposed c @ ct_ports c);
          c1 = (if image then max 0 (fl (9/10)) else 0);
          c2 = (if ent then max c1 (fl (7/10)) else c1);
          c3 = (if tun then max c2 (fl (6/10)) else c2);
          c4 = (if cap then max c3 (1/2) else c3);
          c5 = (if port then max c4 (fl (7/10)) else c4)
      in (image \<or> ent \<or> tun \<or> cap \<or> port, c5))"

definition recent_handshake :: "int \<Rightarrow> peer_row \<Rightarrow> bool" where
  "recent_handshake now_ts p \<longleftrightarrow> p_last_handshake p > 0 \<and> now_ts - p_last_handshake p \<le> 180"

definition active_count :: "int \<Rightarrow> peer_row list \<Rightarrow> int" where
  "active_count now_ts peers = int (length (filter (recent_handshake now_ts) peers))"

definition compute_health :: "int \<Rightarrow> peer_row list \<Rightarrow> rat \<Rightarrow> rat" where
  "compute_health now_ts peers latency_ms =
     (let handshake_factor = (if peers = [] then 1
            else fadd (1/2) (fmul (1/2) (int_div (active_count now_ts peers) (int (length peers)))));
          latency_factor = max 0 (fsub 1 (min (fdiv latency_ms 3000) 1))
      in max 0 (min 1 (fadd (fmul (fl (7/10)) handshake_factor) (fmul (fl (3/10)) latency_factor))))"

definition node_status :: "rat \<Rightarrow> string" where
  "node_status h = (if h \<ge> fl (9/10) then ''healthy'' else if h \<ge> 1/2 then ''degraded'' else ''unhealthy'')"

text \<open>The address shown by \<^verbatim>\<open>ip -j addr show\<close>: the first that is not a loopback one.\<close>

definition json_field :: "json \<Rightarrow> string \<Rightarrow> json" where
  "json_field j k = (case j of JObj kvs \<Rightarrow> (case map_of kvs k of None \<Rightarrow> JNull | Some v \<Rightarrow> v) | _ \<Rightarrow> JNull)"

definition json_list :: "json \<Rightarrow> json list" where
  "json_list j = (case j of JList xs \<Rightarrow> xs | _ \<Rightarrow> [])"

definition json_text :: "json \<Rightarrow> string" where
  "json_text j = (case j of JStr s \<Rightarrow> s | _ \<Rightarrow> [])"

definition extract_internal_ip :: "json list \<Rightarrow> string \<Rightarrow> string" where
  "extract_internal_ip addresses interface_name =
     (case List.find (\<lambda>l. l \<noteq> [] \<and> \<not> startswith l ''127.'' \<and> l \<noteq> ''::1'')
        (concat (map (\<lambda>a. map (\<lambda>i. json_text (json_field i ''local'')) (json_list (json_field a ''addr_info'')))
           (filter (\<lambda>a. json_field a ''ifname'' = JStr interface_name) addresses))) of
        None \<Rightarrow> [] | Some l \<Rightarrow> l)"

definition parse_ip_addr_json :: "'w docker \<Rightarrow> string \<Rightarrow> json list" where
  "parse_ip_addr_json D output =
     (if strip output = [] then [] else case dk_json D output of None \<Rightarrow> [] | Some j \<Rightarrow> json_list j)"

subsection \<open>Discovery\<close>

record docker_config =
  dc_prefixes :: "string list"
  dc_interface :: string

definition make_docker_config :: "string \<Rightarrow> string \<Rightarrow> docker_config result" where
  "make_docker_config container_filter interface =
     (let ps = filter (\<lambda>p. p \<noteq> []) (map strip (split_on CHR '','' container_filter)) in
      rbind (sanitize_interface_name interface) (\<lambda>i.
        Inr \<lparr>dc_prefixes = (if ps = [] then [''amnezia-awg''] else ps), dc_interface = i\<rparr>))"

definition candidate_interfaces :: "docker_config \<Rightarrow> string list" where
  "candidate_interfaces C =
     fold add_new (List.map_filter (\<lambda>i. case sanitize_interface_name i of Inl _ \<Rightarrow> None | Inr s \<Rightarrow> Some s)
       [dc_interface C, ''awg0'', ''wg0'']) []"

definition wg_dump_cmd :: "string \<Rightarrow> string list" where
  "wg_dump_cmd iface = [''wg'', ''show'', iface, ''dump'']"

text \<open>The first interface whose dump succeeds, or the last answer.\<close>

fun try_interfaces :: "'w docker \<Rightarrow> string \<Rightarrow> 'w \<Rightarrow> string list \<Rightarrow> int \<times> string \<Rightarrow> (string option \<times> int \<times> string) result" where
  "try_interfaces D c w [] last_answer = Inr (None, last_answer)"
| "try_interfaces D c w (i # is) last_answer =
     rbind (dk_query D c (wg_dump_cmd i) w) (\<lambda>(code, out).
       if code = 0 then Inr (Some i, code, out) else try_interfaces D c w is (code, out))"

definition read_wg_dump :: "'w docker \<Rightarrow> docker_config \<Rightarrow> string \<Rightarrow> 'w \<Rightarrow> (string \<times> int \<times> string) result" where
  "read_wg_dump D C c w =
     rbind (try_interfaces D c w (candidate_interfaces C) (1, [])) (\<lambda>(found, ans).
       case found of
         Some i \<Rightarrow> Inr (i, ans)
       | None \<Rightarrow>
           rbind (dk_query D c [''wg'', ''show'', ''interfaces''] w) (\<lambda>(code, out).
             if code = 0
             then rbind (try_interfaces D c w (filter (\<lambda>i. i \<notin> set (candidate_interfaces C)) (fold add_new (parse_wg_interfaces out) [])) ans)
                    (\<lambda>(found2, ans2). Inr (case found2 of Some i \<Rightarrow> (i, ans2) | None \<Rightarrow> (dc_interface C, ans2)))
             else Inr (dc_interface C, code, out)))"

definition lstrip_slash :: "string \<Rightarrow> string" where
  "lstrip_slash s = dropWhile (\<lambda>c. c = CHR ''/'') s"

definition discover_containers :: "'w docker \<Rightarrow> docker_config \<Rightarrow> 'w \<Rightarrow> container list option" where
  "discover_containers D C w = map_option (filter (\<lambda>c. ct_status c = ''running''
     \<and> list_ex (\<lambda>p. startswith (lstrip_slash (ct_name c)) p) (dc_prefixes C))) (dk_containers D w)"

definition short_id :: "container \<Rightarrow> string" where
  "short_id c = take 12 (ct_id c)"

definition down_node :: "string \<Rightarrow> string \<Rightarrow> string \<Rightarrow> rat option \<Rightarrow> node" where
  "down_node cid cname iface latency =
     \<lparr>n_node_id = ''docker:'' @ cid, n_container_name = cname, n_container_id = cid, n_interface_name = iface,
      n_public_key = [], n_listen_port = 0, n_endpoint_ip = [], n_peer_count = 0, n_active_peers = None,
      n_total_rx_bytes = 0, n_total_tx_bytes = 0, n_status = ''unhealthy'', n_capabilities = [(''obfuscation'', True)],
      n_health_score = 0, n_max_peers = 1000, n_is_draining = False, n_latency_ms = latency\<rparr>"

definition discover_one :: "'w docker \<Rightarrow> docker_config \<Rightarrow> string \<Rightarrow> string \<Rightarrow> 'w \<Rightarrow> node result" where
  "discover_one D C cid cname w =
     rbind (read_wg_dump D C cid w) (\<lambda>(iface, code, out).
       if code \<noteq> 0 then Inr (down_node cid cname iface (Some (dk_latency_ms D w)))
       else let (key, port, peers) = parse_wg_dump out; health = compute_health (dk_now_ts D w) peers (dk_latency_ms D w) in
         rbind (dk_query D cid [''ip'', ''-j'', ''addr'', ''show'', iface] w) (\<lambda>(ip_code, ip_out).
           let ip = extract_internal_ip (if ip_code = 0 then parse_ip_addr_json D ip_out else []) iface in
           Inr \<lparr>n_node_id = ''docker:'' @ cid, n_container_name = cname, n_container_id = cid, n_interface_name = iface,
             n_public_key = key, n_listen_port = port, n_endpoint_ip = ip, n_peer_count = int (length peers),
             n_active_peers = Some (active_count (dk_now_ts D w) peers),
             n_total_rx_bytes = sum_list (map p_transfer_rx peers), n_total_tx_bytes = sum_list (map p_transfer_tx peers),
             n_status = node_status health, n_capabilities = [(''obfuscation'', True)],
             n_health_score = health, n_max_peers = 1000, n_is_draining = False, n_latency_ms = Some (dk_latency_ms D w)\<rparr>))"

text \<open>A container that is no candidate is skipped; one whose inspection raises is kept as unhealthy.\<close>

definition discover_container :: "'w docker \<Rightarrow> docker_config \<Rightarrow> 'w \<Rightarrow> container \<Rightarrow> node option" where
  "discover_container D C w c =
     (let (awg, confidence) = classify_container_inspect c; name = lstrip_slash (ct_name c); cid = short_id c;
          cname = (if name = [] then cid else name)
      in if cid = [] \<or> (\<not> awg \<and> confidence < fl (6/10)) then None
         else case discover_one D C cid cname w of
           Inr n \<Rightarrow> Some n
         | Inl _ \<Rightarrow> Some (down_node cid name (dc_interface C) None))"

definition keep_best :: "node \<Rightarrow> (string \<times> node) list \<Rightarrow> (string \<times> node) list" where
  "keep_best n by_name =
     (let name = (if n_container_name n = [] then n_node_id n else n_container_name n) in
      case map_of by_name name of
        None \<Rightarrow> AList.update name n by_name
      | Some old \<Rightarrow> if n_health_score n > n_health_score old then AList.update name n by_name else by_name)"

definition docker_discover_nodes :: "'w docker \<Rightarrow> docker_config \<Rightarrow> 'w \<Rightarrow> node list" where
  "docker_discover_nodes D C w =
     (case discover_containers D C w of
        None \<Rightarrow> []
      | Some cs \<Rightarrow> map snd (fold keep_best (List.map_filter (discover_container D C w) cs) []))"

definition resolve_node :: "'w docker \<Rightarrow> docker_config \<Rightarrow> string \<Rightarrow> 'w \<Rightarrow> node option" where
  "resolve_node D C node_id w =
     (let nodes = docker_discover_nodes D C w in
      case List.find (\<lambda>n. n_node_id n = node_id) nodes of
        Some n \<Rightarrow> Some n
      | None \<Rightarrow> (case List.find (\<lambda>n. n_container_name n = node_id) nodes of
            Some n \<Rightarrow> Some n
          | None \<Rightarrow> (case nodes of [n] \<Rightarrow> Some n | _ \<Rightarrow> None)))"

definition node_interface :: "docker_config \<Rightarrow> node \<Rightarrow> string result" where
  "node_interface C n = sanitize_interface_name (if n_interface_name n = [] then dc_interface C else n_interface_name n)"

subsection \<open>Peers\<close>

definition docker_list_peers :: "'w docker \<Rightarrow> docker_config \<Rightarrow> string \<Rightarrow> 'w \<Rightarrow> peer_row list result" where
  "docker_list_peers D C node_id w =
     (case resolve_node D C node_id w of
        None \<Rightarrow> Inr []
      | Some n \<Rightarrow>
          rbind (node_interface C n) (\<lambda>i.
          rbind (dk_query D (n_container_name n) (wg_dump_cmd i) w) (\<lambda>(code, out).
            if code \<noteq> 0 then Inr [] else Inr (snd (snd (parse_wg_dump out))))))"

fun exec_all :: "'w docker \<Rightarrow> string \<Rightarrow> string list list \<Rightarrow> 'w \<Rightarrow> unit result \<times> 'w" where
  "exec_all D c [] w = (Inr (), w)"
| "exec_all D c (cmd # cmds) w = (case dk_exec D c cmd w of (Inl e, w1) \<Rightarrow> (Inl e, w1) | (Inr _, w1) \<Rightarrow> exec_all D c cmds w1)"

definition route_cmd :: "string \<Rightarrow> string \<Rightarrow> string list" where
  "route_cmd iface cidr = [''ip'', ''route'', ''add'', cidr, ''dev'', iface]"

text \<open>A route that cannot be added and a configuration that cannot be saved are only logged.\<close>

definition ensure_client_subnet_routes :: "'w docker \<Rightarrow> string \<Rightarrow> string \<Rightarrow> string list \<Rightarrow> 'w \<Rightarrow> unit result \<times> 'w" where
  "ensure_client_subnet_routes D c iface cidrs w = exec_all D c (map (route_cmd iface) (filter (\<lambda>s. s \<noteq> []) cidrs)) w"

definition persist_cmd :: "string \<Rightarrow> string list" where
  "persist_cmd iface = [''sh'', ''-c'', ''wg showconf '' @ iface @ '' > /run/'' @ iface @ ''.conf'']"

definition persist_wg_config :: "'w docker \<Rightarrow> string \<Rightarrow> string \<Rightarrow> 'w \<Rightarrow> unit result \<times> 'w" where
  "persist_wg_config D c iface w = exec_all D c [persist_cmd iface] w"

definition shell_quote :: "string \<Rightarrow> string" where
  "shell_quote s = concat (map (\<lambda>c. if c = CHR 0x27 then [CHR 0x27, CHR 0x22, CHR 0x27, CHR 0x22, CHR 0x27] else [c]) s)"

definition wg_set_cmd :: "string \<Rightarrow> string \<Rightarrow> string \<Rightarrow> int \<Rightarrow> string option \<Rightarrow> string list" where
  "wg_set_cmd iface key ips keepalive psk =
     (case psk of
        Some (c # k) \<Rightarrow> [''sh'', ''-c'', ''printf '' @ [CHR 0x27] @ ''%s'' @ [CHR 0x5C] @ ''n'' @ [CHR 0x27] @ '' '' @ [CHR 0x27]
            @ shell_quote (strip (c # k)) @ [CHR 0x27] @ '' | wg set '' @ iface @ '' peer '' @ key @ '' allowed-ips '' @ ips
            @ '' persistent-keepalive '' @ int_str keepalive @ '' preshared-key /dev/stdin'']
      | _ \<Rightarrow> [''wg'', ''set'', iface, ''peer'', key, ''allowed-ips'', ips, ''persistent-keepalive'', int_str keepalive])"

definition allowed_of :: "string \<Rightarrow> peer_row list \<Rightarrow> string" where
  "allowed_of key peers = (case List.find (\<lambda>p. p_public_key p = key) peers of None \<Rightarrow> [] | Some p \<Rightarrow> strip (p_allowed_ips p))"

definition conflicting :: "string \<Rightarrow> string \<Rightarrow> peer_row list \<Rightarrow> bool" where
  "conflicting key ips peers \<longleftrightarrow> list_ex (\<lambda>p. p_public_key p \<noteq> key
     \<and> set (extract_ipv4_host_cidrs ips) \<inter> set (extract_ipv4_host_cidrs (strip (p_allowed_ips p))) \<noteq> {}) peers"

text \<open>The checks before anything is sent: container, interface, key and addresses of the command.\<close>

definition check_add :: "'w docker \<Rightarrow> docker_config \<Rightarrow> string \<Rightarrow> peer_config \<Rightarrow> 'w \<Rightarrow> (string \<times> string \<times> string \<times> string) result" where
  "check_add D C node_id pc w =
     (case resolve_node D C node_id w of
        None \<Rightarrow> Inl (WireGuardCommandError (''Node not found: '' @ node_id))
      | Some n \<Rightarrow>
          rbind (node_interface C n) (\<lambda>i.
          rbind (sanitize_public_key (pcf_public_key pc)) (\<lambda>key.
            let raw = (case pcf_allowed_ips pc of None \<Rightarrow> [] | Some a \<Rightarrow> a) in
            if strip raw = [] \<or> contains ''0.0.0.0/0'' raw
            then Inl (WireGuardCommandError ''Server peer AllowedIPs must be client tunnel /32 (e.g. 10.8.1.2/32), not 0.0.0.0/0'')
            else rbind (sanitize_allowed_ips (strip raw)) (\<lambda>ips.
                 rbind (docker_list_peers D C node_id w) (\<lambda>peers.
                   if conflicting key ips peers then Inl (WireGuardCommandError ''allowed_ips conflict: already assigned to another peer'')
                   else Inr (n_container_name n, i, key, ips))))))"

definition docker_add_peer :: "'w docker \<Rightarrow> docker_config \<Rightarrow> string \<Rightarrow> peer_config \<Rightarrow> 'w \<Rightarrow> unit result \<times> 'w" where
  "docker_add_peer D C node_id pc w =
     (case check_add D C node_id pc w of
        Inl e \<Rightarrow> (Inl e, w)
      | Inr (c, i, key, ips) \<Rightarrow>
          (case dk_exec D c (wg_set_cmd i key ips (clamp_keepalive (Some (pcf_persistent_keepalive pc))) (pcf_preshared_key pc)) w of
             (Inl e, w1) \<Rightarrow> (Inl e, w1)
           | (Inr (code, _), w1) \<Rightarrow>
               if code \<noteq> 0 then (Inl (WireGuardCommandError ''wg set failed''), w1)
               else (case docker_list_peers D C node_id w1 of
                   Inl e \<Rightarrow> (Inl e, w1)
                 | Inr after \<Rightarrow>
                     if set (extract_ipv4_host_cidrs ips) \<noteq> set (extract_ipv4_host_cidrs (allowed_of key after))
                     then (Inl (WireGuardCommandError ''Verification failed: allowed_ips not applied on node''), w1)
                     else (case ensure_client_subnet_routes D c i (subnets_for_allowed_ips ips) w1 of
                         (Inl e, w2) \<Rightarrow> (Inl e, w2)
                       | (Inr _, w2) \<Rightarrow> persist_wg_config D c i w2))))"

definition wg_remove_cmd :: "string \<Rightarrow> string \<Rightarrow> string list" where
  "wg_remove_cmd iface key = [''wg'', ''set'', iface, ''peer'', key, ''remove'']"

definition docker_remove_peer :: "'w docker \<Rightarrow> docker_config \<Rightarrow> string \<Rightarrow> string \<Rightarrow> 'w \<Rightarrow> unit result \<times> 'w" where
  "docker_remove_peer D C node_id public_key w =
     (case resolve_node D C node_id w of
        None \<Rightarrow> (Inl (WireGuardCommandError (''Node not found: '' @ node_id)), w)
      | Some n \<Rightarrow>
          (case rbind (node_interface C n) (\<lambda>i. rbind (sanitize_public_key public_key) (\<lambda>key. Inr (i, key))) of
             Inl e \<Rightarrow> (Inl e, w)
           | Inr (i, key) \<Rightarrow>
               (case dk_exec D (n_container_name n) (wg_remove_cmd i key) w of
                  (Inl e, w1) \<Rightarrow> (Inl e, w1)
                | (Inr (code, _), w1) \<Rightarrow>
                    if code \<noteq> 0 then (Inl (WireGuardCommandError ''wg set remove failed''), w1)
                    else persist_wg_config D (n_container_name n) i w1)))"

definition ensure_reply_routes :: "'w docker \<Rightarrow> docker_config \<Rightarrow> string \<Rightarrow> 'w \<Rightarrow> unit result \<times> 'w" where
  "ensure_reply_routes D C node_id w =
     (case resolve_node D C node_id w of
        None \<Rightarrow> (Inr (), w)
      | Some n \<Rightarrow>
          (case rbind (node_interface C n) (\<lambda>i. rbind (docker_list_peers D C node_id w) (\<lambda>ps. Inr (i, ps))) of
             Inl e \<Rightarrow> (Inl e, w)
           | Inr (i, ps) \<Rightarrow>
               let subnets = fold add_new (concat (map (\<lambda>p. subnets_for_allowed_ips (strip (p_allowed_ips p))) ps)) [] in
               ensure_client_subnet_routes D (n_container_name n) i subnets w))"

definition docker_health_check :: "'w docker \<Rightarrow> docker_config \<Rightarrow> string \<Rightarrow> 'w \<Rightarrow> string result" where
  "docker_health_check D C node_id w =
     (case resolve_node D C node_id w of
        None \<Rightarrow> Inr ''unknown''
      | Some n \<Rightarrow>
          rbind (node_interface C n) (\<lambda>i.
          rbind (dk_query D (n_container_name n) (wg_dump_cmd i) w) (\<lambda>(code, out).
            if code \<noteq> 0 then Inr ''unreachable''
            else let peers = snd (snd (parse_wg_dump out)) in
              Inr (if peers = [] \<or> list_ex (recent_handshake (dk_now_ts D w)) peers then ''ok'' else ''degraded''))))"

definition get_obfuscation_from_node :: "'w docker \<Rightarrow> docker_config \<Rightarrow> string \<Rightarrow> 'w \<Rightarrow> payload option result" where
  "get_obfuscation_from_node D C node_id w =
     (case resolve_node D C node_id w of
        None \<Rightarrow> Inr None
      | Some n \<Rightarrow>
          rbind (node_interface C n) (\<lambda>i.
          rbind (dk_query D (n_container_name n) [''wg'', ''show'', i] w) (\<lambda>(code, out).
            Inr (if code \<noteq> 0 then None else parse_wg_show_obfuscation out))))"

definition docker_adapter :: "'w docker \<Rightarrow> docker_config \<Rightarrow> 'w adapter" where
  "docker_adapter D C = \<lparr>ad_discover = (\<lambda>w. Inr (docker_discover_nodes D C w)),
     ad_add_peer = docker_add_peer D C, ad_remove_peer = docker_remove_peer D C, ad_list_peers = docker_list_peers D C\<rparr>"

subsection \<open>Bandwidth policies\<close>

definition sanitize_mbit :: "pyval \<Rightarrow> int \<Rightarrow> int" where
  "sanitize_mbit v fallback = (case py_int_val v of Inl _ \<Rightarrow> fallback | Inr i \<Rightarrow> min (max i 1) 100000)"

definition plan_id_of :: "payload \<Rightarrow> string" where
  "plan_id_of p = py_str (py_or (pget p ''plan_id'') (VStr []))"

definition class_cmd :: "string \<Rightarrow> string \<Rightarrow> int \<Rightarrow> int \<Rightarrow> int \<Rightarrow> string list" where
  "class_cmd iface classid rate ceil prio =
     [''tc'', ''class'', ''replace'', ''dev'', iface, ''parent'', ''1:'', ''classid'', classid, ''htb'',
      ''rate'', int_str rate @ ''mbit'', ''ceil'', int_str ceil @ ''mbit'', ''prio'', int_str prio]"

definition filter_cmd :: "string \<Rightarrow> string \<Rightarrow> string \<Rightarrow> string \<Rightarrow> string list" where
  "filter_cmd iface direction cidr classid =
     [''tc'', ''filter'', ''add'', ''dev'', iface, ''parent'', ''1:'', ''pref'', ''100'', ''protocol'', ''ip'', ''u32'',
      ''match'', ''ip'', direction, cidr, ''flowid'', classid]"

record bandwidth_plan =
  bp_minor :: int
  bp_classes :: "(string \<times> string) list"
  bp_commands :: "string list list"
  bp_bound :: int
  bp_skipped :: int

text \<open>One class per policy with a plan: rate and ceiling within bounds, the ceiling at least the rate.\<close>

definition policy_class :: "payload \<Rightarrow> (int \<times> int \<times> int) result" where
  "policy_class p =
     rbind (if pget p ''rate_mbps'' \<noteq> VNone then py_int_val (pget p ''rate_mbps'') else Inr 1) (\<lambda>raw.
       let rate = sanitize_mbit (VInt raw) 1;
           ceil = sanitize_mbit (py_or (pget p ''ceil_mbps'') (VInt rate)) rate
       in rbind (py_int_val (py_or (pget p ''priority'') (VInt 3))) (\<lambda>prio.
            Inr (rate, max ceil rate, min (max prio 0) 7)))"

definition add_policy :: "string \<Rightarrow> payload \<Rightarrow> bandwidth_plan \<Rightarrow> bandwidth_plan result" where
  "add_policy iface p b =
     (if plan_id_of p = [] then Inr b
      else rbind (policy_class p) (\<lambda>(rate, ceil, prio).
        let classid = ''1:'' @ int_str (bp_minor b) in
        Inr (b\<lparr>bp_minor := bp_minor b + 1, bp_classes := AList.update (plan_id_of p) classid (bp_classes b),
               bp_commands := bp_commands b @ [class_cmd iface classid rate ceil prio]\<rparr>)))"

definition add_binding :: "string \<Rightarrow> payload \<Rightarrow> bandwidth_plan \<Rightarrow> bandwidth_plan" where
  "add_binding iface p b =
     (case map_of (bp_classes b) (plan_id_of p) of
        None \<Rightarrow> b
      | Some cid \<Rightarrow>
          (case extract_ipv4_host_cidrs (py_str (py_or (pget p ''allowed_ips'') (VStr []))) of
             [] \<Rightarrow> b\<lparr>bp_skipped := bp_skipped b + 1\<rparr>
           | hosts \<Rightarrow> b\<lparr>bp_bound := bp_bound b + 1, bp_commands := bp_commands b
                @ concat (map (\<lambda>h. [filter_cmd iface ''dst'' h cid, filter_cmd iface ''src'' h cid]) hosts)\<rparr>))"

definition bandwidth_commands :: "string \<Rightarrow> payload list \<Rightarrow> payload list \<Rightarrow> bandwidth_plan result" where
  "bandwidth_commands iface policies bindings =
     (let start = \<lparr>bp_minor = 10, bp_classes = [], bp_commands =
            [[''tc'', ''qdisc'', ''replace'', ''dev'', iface, ''root'', ''handle'', ''1:'', ''htb'', ''default'', ''999''],
             class_cmd iface ''1:999'' 100000 100000 7], bp_bound = 0, bp_skipped = 0\<rparr>
      in rbind (mfold (add_policy iface) (sort_key plan_id_of policies) start) (\<lambda>b.
           Inr (fold (add_binding iface) bindings
             (b\<lparr>bp_commands := bp_commands b @ [[''tc'', ''filter'', ''del'', ''dev'', iface, ''parent'', ''1:'', ''pref'', ''100'', ''protocol'', ''ip'']]\<rparr>))))"

text \<open>Running the commands: only the removal of old filters may fail.\<close>

fun run_commands :: "'w docker \<Rightarrow> string \<Rightarrow> string list list \<Rightarrow> int \<Rightarrow> 'w \<Rightarrow> int result \<times> 'w" where
  "run_commands D c [] n w = (Inr n, w)"
| "run_commands D c (cmd # cmds) n w =
     (case dk_exec D c cmd w of
        (Inl e, w1) \<Rightarrow> (Inl e, w1)
      | (Inr (code, _), w1) \<Rightarrow>
          if take 3 cmd = [''tc'', ''filter'', ''del''] \<and> code \<noteq> 0 then run_commands D c cmds n w1
          else if code \<noteq> 0 then (Inl (WireGuardCommandError ''tc apply failed''), w1)
          else run_commands D c cmds (n + 1) w1)"

record bandwidth_report =
  br_dry_run :: bool
  br_commands :: "string list"
  br_executed :: int
  br_classes :: int
  br_bound :: int
  br_skipped :: int

definition enforce_bandwidth_policies ::
  "'w docker \<Rightarrow> docker_config \<Rightarrow> string \<Rightarrow> payload list \<Rightarrow> payload list \<Rightarrow> bool \<Rightarrow> 'w \<Rightarrow> bandwidth_report result \<times> 'w" where
  "enforce_bandwidth_policies D C node_id policies bindings dry_run w =
     (case resolve_node D C node_id w of
        None \<Rightarrow> (Inl (WireGuardCommandError (''Node not found: '' @ node_id)), w)
      | Some n \<Rightarrow>
          (case rbind (node_interface C n) (\<lambda>i. bandwidth_commands i policies bindings) of
             Inl e \<Rightarrow> (Inl e, w)
           | Inr b \<Rightarrow>
               if dry_run
               then (Inr \<lparr>br_dry_run = True, br_commands = map (join '' '') (bp_commands b), br_executed = 0,
                          br_classes = int (length (bp_classes b)), br_bound = bp_bound b, br_skipped = bp_skipped b\<rparr>, w)
               else (case run_commands D (n_container_name n) (bp_commands b) 0 w of
                   (Inl e, w1) \<Rightarrow> (Inl e, w1)
                 | (Inr k, w1) \<Rightarrow> (Inr \<lparr>br_dry_run = False, br_commands = [], br_executed = k,
                      br_classes = int (length (bp_classes b)), br_bound = bp_bound b, br_skipped = bp_skipped b\<rparr>, w1))))"

end
