(* ===== verification/Docker_Contract.thy ===== *)
theory Docker_Contract
  imports Docker_Runtime
begin

section \<open>What the Docker runtime promises\<close>

text \<open>
  The dump of \<^verbatim>\<open>wg\<close> is read back as it was written; the container a node name leads to depends only
  on which containers exist and which queries succeed; on a host where the commands on one peer
  leave the other peers alone (the locale \<open>wg_host\<close>) the Docker adapter keeps the contract
  \<open>peer_runtime\<close> that migrations rely on; and bandwidth plans are well formed.
\<close>

subsection \<open>Reading a dump\<close>

text \<open>Rows of fields without white space, one line each, as \<^verbatim>\<open>wg show dump\<close> prints them.\<close>

definition field_ok :: "string \<Rightarrow> bool" where
  "field_ok f \<longleftrightarrow> f \<noteq> [] \<and> list_all (\<lambda>c. \<not> is_space c) f"

definition tab_lines :: "string list list \<Rightarrow> string" where
  "tab_lines rows = concat (map (\<lambda>fs. join [TAB] fs @ [NL]) rows)"

definition peer_fields_row :: "peer_row \<Rightarrow> string \<Rightarrow> string \<Rightarrow> string \<Rightarrow> string list" where
  "peer_fields_row p psk endpoint keepalive = [p_public_key p, psk, endpoint, p_allowed_ips p, int_str (p_last_handshake p),
     int_str (p_transfer_rx p), int_str (p_transfer_tx p), keepalive]"

lemma line_break_space: "is_line_break c \<Longrightarrow> is_space c"
  by (auto simp: is_line_break_def is_space_def)

lemma join_hd: "p \<noteq> [] \<Longrightarrow> hd (join sep (p # ps)) = hd p"
  by (cases ps) auto

lemma join_last: "ps \<noteq> [] \<Longrightarrow> last ps \<noteq> [] \<Longrightarrow> last (join sep ps) = last (last ps) \<and> join sep ps \<noteq> []"
  by (induction sep ps rule: join.induct) auto

lemma join_chars: "c \<in> set (join sep ps) \<Longrightarrow> c \<in> set sep \<or> (\<exists>p\<in>set ps. c \<in> set p)"
  by (induction sep ps rule: join.induct) auto

lemma splitlines_line: "\<forall>c\<in>set l. \<not> is_line_break c \<Longrightarrow> splitlines (l @ NL # s) = l # splitlines s"
  by (induction l) (auto simp: is_line_break_def)

lemma splitlines_last: "\<forall>c\<in>set l. \<not> is_line_break c \<Longrightarrow> l \<noteq> [] \<Longrightarrow> splitlines l = [l]"
  by (induction l) (force split: list.splits)+

lemma splitlines_join:
  "ls \<noteq> [] \<Longrightarrow> \<forall>l\<in>set ls. l \<noteq> [] \<and> (\<forall>c\<in>set l. \<not> is_line_break c) \<Longrightarrow> splitlines (join [NL] ls) = ls"
  by (induction "[NL]" ls rule: join.induct) (auto simp: splitlines_line splitlines_last simp del: splitlines.simps)

lemma strip_line_end: "t \<noteq> [] \<Longrightarrow> \<not> is_space (hd t) \<Longrightarrow> \<not> is_space (last t) \<Longrightarrow> strip (t @ [NL]) = t"
proof -
  assume a: "t \<noteq> []" "\<not> is_space (hd t)" "\<not> is_space (last t)"
  then have "lstrip (t @ [NL]) = t @ [NL]" by (cases t) (auto simp: lstrip_def)
  moreover have "dropWhile is_space (rev t) = rev t" using a by (cases "rev t") (auto simp: hd_rev[symmetric])
  ultimately show ?thesis by (simp add: strip_def rstrip_def is_space_def[of NL])
qed

lemma strip_ends: "t \<noteq> [] \<Longrightarrow> \<not> is_space (hd t) \<Longrightarrow> \<not> is_space (last t) \<Longrightarrow> strip t = t"
proof -
  assume a: "t \<noteq> []" "\<not> is_space (hd t)" "\<not> is_space (last t)"
  then have "lstrip t = t" by (cases t) (auto simp: lstrip_def)
  moreover have "dropWhile is_space (rev t) = rev t" using a by (cases "rev t") (auto simp: hd_rev[symmetric])
  ultimately show ?thesis by (simp add: strip_def rstrip_def)
qed

lemma tab_lines_join: "rows \<noteq> [] \<Longrightarrow> tab_lines rows = join [NL] (map (join [TAB]) rows) @ [NL]"
proof (induction rows)
  case (Cons r rows)
  then show ?case by (cases rows) (auto simp: tab_lines_def)
qed simp

lemma field_line:
  assumes "fs \<noteq> []" "list_all field_ok fs"
  shows "join [TAB] fs \<noteq> []" "\<not> is_space (hd (join [TAB] fs))" "\<not> is_space (last (join [TAB] fs))"
    "\<forall>c\<in>set (join [TAB] fs). \<not> is_line_break c" "split_on TAB (join [TAB] fs) = fs" "strip (join [TAB] fs) \<noteq> []"
proof -
  have ok: "f \<noteq> []" "\<forall>c\<in>set f. \<not> is_space c" if "f \<in> set fs" for f
    using assms(2) that by (auto simp: list_all_iff field_ok_def)
  have lst: "last fs \<in> set fs" and hd: "hd fs \<in> set fs" using assms(1) by auto
  show ne: "join [TAB] fs \<noteq> []" and l: "\<not> is_space (last (join [TAB] fs))"
    using join_last[of fs "[TAB]"] assms(1) ok[OF lst] by auto
  show h: "\<not> is_space (hd (join [TAB] fs))" using assms(1) ok[OF hd] by (cases fs) (auto simp: join_hd)
  show "\<forall>c\<in>set (join [TAB] fs). \<not> is_line_break c"
    using ok(2) line_break_space by (fastforce dest: join_chars simp: is_line_break_def)
  show "split_on TAB (join [TAB] fs) = fs"
    using ok(2) assms(1) by (intro split_on_join) (auto simp: is_space_def)
  show "strip (join [TAB] fs) \<noteq> []" using strip_ends[OF ne h l] ne by simp
qed

lemma tab_lines_rows:
  assumes "rows \<noteq> []" "\<forall>fs\<in>set rows. fs \<noteq> [] \<and> list_all field_ok fs"
  shows "filter (\<lambda>l. strip l \<noteq> []) (splitlines (strip (tab_lines rows))) = map (join [TAB]) rows"
proof -
  let ?t = "join [NL] (map (join [TAB]) rows)"
  have f: "join [TAB] fs \<noteq> []" "\<not> is_space (hd (join [TAB] fs))" "\<not> is_space (last (join [TAB] fs))"
    "\<forall>c\<in>set (join [TAB] fs). \<not> is_line_break c" "strip (join [TAB] fs) \<noteq> []" if "fs \<in> set rows" for fs
    using field_line[of fs] assms(2) that by auto
  have hl: "hd rows \<in> set rows" "last rows \<in> set rows" using assms(1) by auto
  have "?t \<noteq> []" "\<not> is_space (last ?t)"
    using join_last[of "map (join [TAB]) rows" "[NL]"] f[OF hl(2)] assms(1) by (auto simp: last_map)
  moreover have "\<not> is_space (hd ?t)" using f[OF hl(1)] assms(1) by (cases rows) (auto simp: join_hd)
  ultimately have "strip (tab_lines rows) = ?t" using tab_lines_join[OF assms(1)] by (simp add: strip_line_end)
  moreover have "splitlines ?t = map (join [TAB]) rows" using f assms(1) by (intro splitlines_join) auto
  moreover have "filter (\<lambda>l. strip l \<noteq> []) (map (join [TAB]) rows) = map (join [TAB]) rows" using f(5) by (auto simp: filter_id_conv)
  ultimately show ?thesis by simp
qed

text \<open>Reading a dump of one interface line and any peer lines.\<close>

lemma parse_tab_lines:
  assumes "list_all field_ok [private_key, public_key, port, fwmark]"
    and "\<forall>(p, psk, endpoint, keepalive)\<in>set peers. list_all field_ok (peer_fields_row p psk endpoint keepalive)"
  shows "parse_wg_dump (tab_lines ([private_key, public_key, port, fwmark] # map (\<lambda>(p, psk, endpoint, keepalive). peer_fields_row p psk endpoint keepalive) peers))
    = (public_key, int_or_0 port, map fst peers)"
proof -
  let ?if = "[private_key, public_key, port, fwmark]" and ?row = "\<lambda>(p, psk, endpoint, keepalive). peer_fields_row p psk endpoint keepalive"
  have rows: "\<forall>fs\<in>set (?if # map ?row peers). fs \<noteq> [] \<and> list_all field_ok fs"
    using assms by (auto simp: peer_fields_row_def)
  have "dump_interface (join [TAB] ?if) = (public_key, int_or_0 port)"
    unfolding dump_interface_def field_line(5)[OF list.distinct(2) assms(1)] by (simp add: Let_def)
  moreover have "dump_peer (join [TAB] (?row x)) = Some (fst x)" if "x \<in> set peers" for x
  proof -
    obtain p psk e k where x: "x = (p, psk, e, k)" by (cases x) auto
    have "list_all field_ok (peer_fields_row p psk e k)" using assms(2) that x by auto
    from field_line(5)[OF _ this] have sp: "split_on TAB (join [TAB] (peer_fields_row p psk e k)) = peer_fields_row p psk e k"
      by (simp add: peer_fields_row_def)
    have ne: "int_str i \<noteq> []" for i by (simp add: int_str_def)
    show ?thesis unfolding x dump_peer_def by (simp add: sp Let_def) (simp add: peer_fields_row_def int_or_0_def ne)
  qed
  then have "List.map_filter dump_peer (map (join [TAB] \<circ> ?row) peers) = map fst peers"
    by (induction peers) (auto simp: map_filter_simps)
  ultimately show ?thesis
    unfolding parse_wg_dump_def tab_lines_rows[OF _ rows, simplified] by (simp add: comp_def)
qed

subsection \<open>Which container a node name leads to\<close>

text \<open>What the choice of a container depends on: identifier, container name and interface.\<close>

definition node_shape :: "node \<Rightarrow> string \<times> string \<times> string" where
  "node_shape n = (n_node_id n, n_container_name n, n_interface_name n)"

definition answer_code :: "(int \<times> string) result \<Rightarrow> int result" where
  "answer_code r = map_sum id fst r"

text \<open>Two worlds with the same containers, where the same queries succeed.\<close>

definition similar :: "'w docker \<Rightarrow> 'w \<Rightarrow> 'w \<Rightarrow> bool" where
  "similar D w w' \<longleftrightarrow> dk_containers D w' = dk_containers D w
     \<and> (\<forall>c q. answer_code (dk_query D c q w') = answer_code (dk_query D c q w))
     \<and> (\<forall>c. dk_query D c [''wg'', ''show'', ''interfaces''] w' = dk_query D c [''wg'', ''show'', ''interfaces''] w)"

lemma similar_refl: "similar D w w"
  by (simp add: similar_def)

lemma similar_trans: "similar D u v \<Longrightarrow> similar D v w \<Longrightarrow> similar D u w"
  by (simp add: similar_def)

lemma similar_query:
  assumes "similar D w w'"
  obtains e where "dk_query D c q w = Inl e" "dk_query D c q w' = Inl e"
    | code out out' where "dk_query D c q w = Inr (code, out)" "dk_query D c q w' = Inr (code, out')"
proof -
  have "answer_code (dk_query D c q w') = answer_code (dk_query D c q w)" using assms by (simp add: similar_def)
  then show ?thesis using that by (cases "dk_query D c q w"; cases "dk_query D c q w'") (auto simp: answer_code_def)
qed

lemma try_interfaces_similar:
  assumes "similar D w w'" "fst a = fst a'"
  shows "map_sum id (\<lambda>(f, code, _). (f, code)) (try_interfaces D c w' is a') = map_sum id (\<lambda>(f, code, _). (f, code)) (try_interfaces D c w is a)"
  using assms(2)
proof (induction "is" arbitrary: a a')
  case Nil
  then show ?case by (cases a; cases a') simp
next
  case (Cons i "is")
  from assms(1) show ?case
  proof (rule similar_query[of D w w' c "wg_dump_cmd i"])
    fix code out out'
    assume "dk_query D c (wg_dump_cmd i) w = Inr (code, out)" "dk_query D c (wg_dump_cmd i) w' = Inr (code, out')"
    then show ?case using Cons.IH[of "(code, out)" "(code, out')"] by simp
  qed simp
qed

lemma read_wg_dump_similar:
  assumes "similar D w w'"
  shows "map_sum id (\<lambda>(i, code, _). (i, code)) (read_wg_dump D C c w') = map_sum id (\<lambda>(i, code, _). (i, code)) (read_wg_dump D C c w)"
proof -
  let ?q = "[''wg'', ''show'', ''interfaces'']"
  have "dk_query D c ?q w' = dk_query D c ?q w" using assms by (simp add: similar_def)
  moreover have "map_sum id (\<lambda>(f, code, _). (f, code)) (try_interfaces D c w' is a') = map_sum id (\<lambda>(f, code, _). (f, code)) (try_interfaces D c w is a)"
    if "fst a = fst a'" for "is" a a' using try_interfaces_similar[OF assms that] .
  note t = this[of "(1, [])" "(1, [])" "candidate_interfaces C"] this
  obtain tr tr' where tr: "try_interfaces D c w (candidate_interfaces C) (1, []) = tr" "try_interfaces D c w' (candidate_interfaces C) (1, []) = tr'" by blast
  show ?thesis
  proof (cases tr)
    case (Inl e)
    then have "tr' = Inl e" using t(1) tr by (cases tr') auto
    then show ?thesis using Inl tr by (simp add: read_wg_dump_def)
  next
    case (Inr x)
    obtain f code out where x: "x = (f, code, out)" by (cases x) auto
    then obtain out' where tr': "tr' = Inr (f, code, out')" using t(1) tr Inr by (cases tr') auto
    show ?thesis
    proof (cases f)
      case (Some i)
      then show ?thesis using tr Inr x tr' by (simp add: read_wg_dump_def)
    next
      case None
      show ?thesis
      proof (cases "dk_query D c ?q w")
        case (Inl e)
        then show ?thesis using tr Inr x tr' None calculation by (simp add: read_wg_dump_def)
      next
        case q: (Inr y)
        obtain qc qo where y: "y = (qc, qo)" by (cases y) auto
        let ?is = "filter (\<lambda>i. i \<notin> set (candidate_interfaces C)) (fold add_new (parse_wg_interfaces qo) [])"
        from t(2)[of "(code, out)" "(code, out')" ?is]
        have e: "map_sum id (\<lambda>(f, code, _). (f, code)) (try_interfaces D c w' ?is (code, out'))
            = map_sum id (\<lambda>(f, code, _). (f, code)) (try_interfaces D c w ?is (code, out))" by simp
        show ?thesis
          using tr Inr x tr' None calculation q y e
          by (cases "try_interfaces D c w' ?is (code, out')"; cases "try_interfaces D c w ?is (code, out)")
             (auto simp: read_wg_dump_def split: option.splits)
      qed
    qed
  qed
qed

lemma discover_one_similar:
  assumes "similar D w w'"
  shows "map_sum id node_shape (discover_one D C cid cname w') = map_sum id node_shape (discover_one D C cid cname w)"
proof -
  note r = read_wg_dump_similar[OF assms, of C cid]
  show ?thesis
  proof (cases "read_wg_dump D C cid w")
    case (Inl e)
    then have "read_wg_dump D C cid w' = Inl e" using r by (cases "read_wg_dump D C cid w'") auto
    then show ?thesis using Inl by (simp add: discover_one_def)
  next
    case (Inr x)
    obtain i code out where x: "x = (i, code, out)" by (cases x) auto
    then obtain out' where r': "read_wg_dump D C cid w' = Inr (i, code, out')"
      using r Inr by (cases "read_wg_dump D C cid w'") auto
    from assms show ?thesis
      by (rule similar_query[of D w w' cid "[''ip'', ''-j'', ''addr'', ''show'', i]"])
         (use Inr x r' in \<open>auto simp: discover_one_def node_shape_def down_node_def Let_def split: prod.splits\<close>)
  qed
qed

lemma discover_container_similar:
  assumes "similar D w w'"
  shows "map_option node_shape (discover_container D C w' c) = map_option node_shape (discover_container D C w c)"
proof -
  let ?name = "lstrip_slash (ct_name c)"
  let ?cname = "if ?name = [] then short_id c else ?name"
  have "map_sum id node_shape (discover_one D C (short_id c) ?cname w') = map_sum id node_shape (discover_one D C (short_id c) ?cname w)"
    by (rule discover_one_similar[OF assms])
  then show ?thesis
    by (cases "discover_one D C (short_id c) ?cname w"; cases "discover_one D C (short_id c) ?cname w'")
       (auto simp: discover_container_def Let_def split: prod.splits)
qed

lemma map_filter_shape:
  "(\<And>c. map_option g (f' c) = map_option g (f c)) \<Longrightarrow> map g (List.map_filter f' cs) = map g (List.map_filter f cs)"
proof (induction cs)
  case (Cons c cs)
  then show ?case by (cases "f c"; cases "f' c") (auto simp: map_filter_simps dest: meta_spec[of _ c])
qed (simp add: map_filter_simps)

text \<open>With distinct, non-empty container names nothing is merged.\<close>

lemma keep_best_new:
  assumes "n_container_name n \<noteq> []" "n_container_name n \<notin> fst ` set acc"
  shows "keep_best n acc = acc @ [(n_container_name n, n)]"
proof -
  have "map_of acc (n_container_name n) = None" using assms(2) by (simp add: map_of_eq_None_iff)
  moreover have "AList.update k v xs = xs @ [(k, v)]" if "k \<notin> fst ` set xs" for k and v :: node and xs
    using that by (induction xs) auto
  ultimately show ?thesis using assms by (simp add: keep_best_def)
qed

lemma fold_keep_best:
  assumes "distinct (map fst acc @ map n_container_name ns)" "\<forall>n\<in>set ns. n_container_name n \<noteq> []"
  shows "map snd (fold keep_best ns acc) = map snd acc @ ns"
  using assms
proof (induction ns arbitrary: acc)
  case (Cons n ns)
  have k: "keep_best n acc = acc @ [(n_container_name n, n)]" using Cons.prems by (intro keep_best_new) auto
  show ?case unfolding fold.simps comp_apply k using Cons by (subst Cons.IH) auto
qed simp

lemma discovered_name:
  assumes "discover_container D C w c = Some n" "lstrip_slash (ct_name c) \<noteq> []"
  shows "n_container_name n = lstrip_slash (ct_name c)"
  using assms
  by (auto simp: discover_container_def discover_one_def Let_def rbind_Inr_iff down_node_def split: if_splits sum.splits prod.splits)

lemma map_filter_names:
  assumes "distinct (map g cs)" "\<And>c n. c \<in> set cs \<Longrightarrow> f c = Some n \<Longrightarrow> h n = g c"
  shows "distinct (map h (List.map_filter f cs)) \<and> set (map h (List.map_filter f cs)) \<subseteq> g ` set cs"
  using assms
proof (induction cs)
  case (Cons c cs)
  then have IH: "distinct (map h (List.map_filter f cs))" "set (map h (List.map_filter f cs)) \<subseteq> g ` set cs" by auto
  show ?case
  proof (cases "f c")
    case None
    then show ?thesis using IH by (auto simp: map_filter_simps)
  next
    case (Some n)
    then have "h n = g c" using Cons.prems(2) by simp
    then show ?thesis using Some IH Cons.prems(1) by (auto simp: map_filter_simps)
  qed
qed (simp add: map_filter_simps)

lemma find_shape: "map_option g (List.find (P \<circ> g) xs) = List.find P (map g xs)"
  by (induction xs) auto

lemma resolve_shape:
  "map_option node_shape (resolve_node D C i w) =
     (let ss = map node_shape (docker_discover_nodes D C w) in
      case List.find (\<lambda>s. fst s = i) ss of
        Some s \<Rightarrow> Some s
      | None \<Rightarrow> (case List.find (\<lambda>s. fst (snd s) = i) ss of Some s \<Rightarrow> Some s
          | None \<Rightarrow> (case ss of [s] \<Rightarrow> Some s | _ \<Rightarrow> None)))"
proof -
  let ?ns = "docker_discover_nodes D C w"
  have a: "List.find (\<lambda>s. fst s = i) (map node_shape ?ns) = map_option node_shape (List.find (\<lambda>n. n_node_id n = i) ?ns)"
    unfolding find_shape[symmetric] by (simp add: node_shape_def comp_def)
  have b: "List.find (\<lambda>s. fst (snd s) = i) (map node_shape ?ns) = map_option node_shape (List.find (\<lambda>n. n_container_name n = i) ?ns)"
    unfolding find_shape[symmetric] by (simp add: node_shape_def comp_def)
  show ?thesis unfolding resolve_node_def Let_def a b by (auto split: option.splits list.splits)
qed

text \<open>Docker gives its running containers different names, and the configured prefixes are not empty.\<close>

definition names_ok :: "'w docker \<Rightarrow> docker_config \<Rightarrow> 'w \<Rightarrow> bool" where
  "names_ok D C w \<longleftrightarrow> [] \<notin> set (dc_prefixes C)
     \<and> (\<forall>cs. dk_containers D w = Some cs \<longrightarrow> distinct (map (\<lambda>c. lstrip_slash (ct_name c)) cs))"

lemma make_docker_config_prefixes: "make_docker_config f i = Inr C \<Longrightarrow> [] \<notin> set (dc_prefixes C)"
  by (auto simp: make_docker_config_def Let_def rbind_Inr_iff split: if_splits)

lemma discovered_nodes_all:
  assumes "names_ok D C w" "discover_containers D C w = Some cs"
  shows "docker_discover_nodes D C w = List.map_filter (discover_container D C w) cs"
proof -
  let ?name = "\<lambda>c. lstrip_slash (ct_name c)"
  obtain all where all: "dk_containers D w = Some all"
    and cs: "cs = filter (\<lambda>c. ct_status c = ''running'' \<and> list_ex (\<lambda>p. startswith (?name c) p) (dc_prefixes C)) all"
    using assms(2) by (auto simp: discover_containers_def)
  have d: "distinct (map ?name cs)" using assms(1) all by (simp add: names_ok_def cs distinct_map_filter)
  have ne: "?name c \<noteq> []" if "c \<in> set cs" for c
    using that assms(1) by (auto simp: cs names_ok_def list_ex_iff startswith_def)
  have nm: "n_container_name n = ?name c" if "c \<in> set cs" "discover_container D C w c = Some n" for c n
    using discovered_name[OF that(2) ne[OF that(1)]] .
  note mf = map_filter_names[where h = n_container_name, OF d nm]
  have "\<forall>n\<in>set (List.map_filter (discover_container D C w) cs). n_container_name n \<noteq> []"
  proof
    fix n
    assume "n \<in> set (List.map_filter (discover_container D C w) cs)"
    then have "n_container_name n \<in> ?name ` set cs" using mf by auto
    then show "n_container_name n \<noteq> []" using ne by (metis imageE)
  qed
  then show ?thesis using fold_keep_best[of "[]" "List.map_filter (discover_container D C w) cs"] mf
    by (simp add: docker_discover_nodes_def assms(2))
qed

lemma resolve_similar:
  assumes "names_ok D C w" "similar D w w'"
  shows "map_option node_shape (resolve_node D C i w') = map_option node_shape (resolve_node D C i w)"
proof -
  have same: "dk_containers D w' = dk_containers D w" using assms(2) by (simp add: similar_def)
  then have n': "names_ok D C w'" and dc: "discover_containers D C w' = discover_containers D C w"
    using assms(1) by (simp_all add: names_ok_def discover_containers_def)
  have "map node_shape (docker_discover_nodes D C w') = map node_shape (docker_discover_nodes D C w)"
  proof (cases "discover_containers D C w")
    case None
    then show ?thesis using dc by (simp add: docker_discover_nodes_def)
  next
    case (Some cs)
    then show ?thesis using discovered_nodes_all[OF assms(1) Some] discovered_nodes_all[OF n', of cs] dc
      by (simp add: map_filter_shape[OF discover_container_similar[OF assms(2)]])
  qed
  then show ?thesis unfolding resolve_shape by simp
qed

subsection \<open>The rows a host shows\<close>

definition dump_rows :: "'w docker \<Rightarrow> string \<Rightarrow> string \<Rightarrow> 'w \<Rightarrow> (string \<times> string) list" where
  "dump_rows D c i w = (case dk_query D c (wg_dump_cmd i) w of
     Inr (code, out) \<Rightarrow> if code = 0 then map (\<lambda>p. (p_public_key p, p_allowed_ips p)) (snd (snd (parse_wg_dump out))) else []
   | Inl _ \<Rightarrow> [])"

definition peer_rows :: "'w docker \<Rightarrow> docker_config \<Rightarrow> string \<Rightarrow> 'w \<Rightarrow> (string \<times> string) list" where
  "peer_rows D C n w = (case docker_list_peers D C n w of
     Inr ps \<Rightarrow> map (\<lambda>p. (p_public_key p, p_allowed_ips p)) ps | Inl _ \<Rightarrow> [])"

lemma peer_rows_shape:
  "peer_rows D C n w = (case map_option node_shape (resolve_node D C n w) of
     None \<Rightarrow> []
   | Some (_, cname, iface) \<Rightarrow>
       (case sanitize_interface_name (if iface = [] then dc_interface C else iface) of
          Inl _ \<Rightarrow> [] | Inr i \<Rightarrow> dump_rows D cname i w))"
  by (auto simp: peer_rows_def docker_list_peers_def node_shape_def node_interface_def dump_rows_def split: option.splits sum.splits)

lemma peer_rows_similar:
  assumes "names_ok D C w" "similar D w w'" "\<And>c i. P (dump_rows D c i w') = P (dump_rows D c i w)"
  shows "P (peer_rows D C n w') = P (peer_rows D C n w)"
  unfolding peer_rows_shape resolve_similar[OF assms(1,2)] using assms(3) by (auto split: option.splits sum.splits prod.splits)

text \<open>The rows of one key, compared as the adapter does.\<close>

definition row_cidrs :: "string \<Rightarrow> (string \<times> string) list \<Rightarrow> string set" where
  "row_cidrs key rows = set (extract_ipv4_host_cidrs (strip (case map_of rows key of None \<Rightarrow> [] | Some a \<Rightarrow> a)))"

lemma allowed_of_rows: "allowed_of key ps = strip (case map_of (map (\<lambda>p. (p_public_key p, p_allowed_ips p)) ps) key of None \<Rightarrow> [] | Some a \<Rightarrow> a)"
  by (induction ps) (auto simp: allowed_of_def strip_Nil)

lemma check_add_cases:
  assumes "check_add D C n pc w = Inr (c, i, key, ips)"
  obtains raw peers where "pcf_allowed_ips pc = Some raw" "key = strip (pcf_public_key pc)" "public_key_ok key" "ips = strip raw"
    "list_all is_allowed_char ips" "\<not> contains ''0.0.0.0/0'' raw" "docker_list_peers D C n w = Inr peers" "\<not> conflicting key ips peers"
  using assms
  by (cases "pcf_allowed_ips pc")
     (auto simp: check_add_def rbind_Inr_iff Let_def sanitize_public_key_def sanitize_allowed_ips_def strip_Nil split: option.splits if_splits)

subsection \<open>Hosts that keep peers apart\<close>

text \<open>
  The commands the adapter sends, and the keys of the peers they may change: setting and removing
  a peer concern its key, adding a route and saving the configuration concern none.
\<close>

inductive wg_command :: "string set \<Rightarrow> string list \<Rightarrow> bool" where
  "wg_command {} (route_cmd i cidr)"
| "wg_command {} (persist_cmd i)"
| "public_key_ok key \<Longrightarrow> list_all is_allowed_char ips \<Longrightarrow> wg_command {key} (wg_set_cmd i key ips keepalive psk)"
| "public_key_ok key \<Longrightarrow> wg_command {key} (wg_remove_cmd i key)"

locale wg_host =
  fixes D :: "'w docker" and C :: docker_config
  assumes names: "names_ok D C w"
    and exec_similar: "wg_command ks cmd \<Longrightarrow> similar D w (snd (dk_exec D c cmd w))"
    and exec_keys: "wg_command ks cmd \<Longrightarrow> k \<notin> ks \<Longrightarrow> (k \<in> fst ` set (dump_rows D c' i (snd (dk_exec D c cmd w)))) = (k \<in> fst ` set (dump_rows D c' i w))"
    and exec_quiet: "wg_command {} cmd \<Longrightarrow> dump_rows D c' i (snd (dk_exec D c cmd w)) = dump_rows D c' i w"
begin

lemma exec_other:
  assumes "wg_command ks cmd" "dk_exec D c cmd w = (r, w')" "k \<notin> ks"
  shows "(k \<in> fst ` set (peer_rows D C n w')) = (k \<in> fst ` set (peer_rows D C n w))"
proof -
  have w': "w' = snd (dk_exec D c cmd w)" using assms(2) by simp
  show ?thesis unfolding w'
    by (rule peer_rows_similar[where P = "\<lambda>rows. k \<in> fst ` set rows"]) (fact names exec_similar[OF assms(1)] exec_keys[OF assms(1,3)])+
qed

lemma exec_all_quiet:
  assumes "\<forall>cmd\<in>set cmds. wg_command {} cmd" "exec_all D c cmds w = (r, w')"
  shows "peer_rows D C n w' = peer_rows D C n w"
  using assms
proof (induction cmds arbitrary: w)
  case (Cons cmd cmds)
  obtain r1 w1 where e: "dk_exec D c cmd w = (r1, w1)" by fastforce
  have q: "wg_command {} cmd" using Cons.prems by simp
  have "peer_rows D C n w1 = peer_rows D C n w"
    unfolding arg_cong[OF e, of snd, simplified, symmetric]
    by (rule peer_rows_similar[where P = "\<lambda>rows. rows"]) (fact names exec_similar[OF q] exec_quiet[OF q])+
  then show ?case using Cons e by (auto split: sum.splits)
qed simp

lemma routes_quiet: "ensure_client_subnet_routes D c i cidrs w = (r, w') \<Longrightarrow> peer_rows D C n w' = peer_rows D C n w"
  unfolding ensure_client_subnet_routes_def by (erule exec_all_quiet[rotated]) (auto intro: wg_command.intros)

lemma persist_quiet: "persist_wg_config D c i w = (r, w') \<Longrightarrow> peer_rows D C n w' = peer_rows D C n w"
  unfolding persist_wg_config_def by (erule exec_all_quiet[rotated]) (auto intro: wg_command.intros)

lemma add_peer_other:
  assumes "docker_add_peer D C n pc w = (r, w')" "k \<noteq> strip (pcf_public_key pc)"
  shows "(k \<in> fst ` set (peer_rows D C m w')) = (k \<in> fst ` set (peer_rows D C m w))"
proof (cases "check_add D C n pc w")
  case (Inl e)
  then show ?thesis using assms(1) by (simp add: docker_add_peer_def)
next
  case (Inr x)
  obtain c i key ips where x: "x = (c, i, key, ips)" by (cases x) auto
  let ?cmd = "wg_set_cmd i key ips (clamp_keepalive (Some (pcf_persistent_keepalive pc))) (pcf_preshared_key pc)"
  have cmd: "wg_command {key} ?cmd" and k: "k \<notin> {key}"
    using check_add_cases[OF Inr[unfolded x]] assms(2) by (auto intro: wg_command.intros)
  obtain r1 w1 where e: "dk_exec D c ?cmd w = (r1, w1)" by fastforce
  have "peer_rows D C m w' = peer_rows D C m w1"
    using assms(1) Inr x e
    by (auto simp: docker_add_peer_def split: sum.splits prod.splits if_splits) (metis routes_quiet persist_quiet)+
  then show ?thesis using exec_other[OF cmd e k] by simp
qed

lemma add_peer_applied:
  assumes "docker_add_peer D C n pc w = (Inr (), w')" "pcf_allowed_ips pc = Some raw"
  shows "row_cidrs (strip (pcf_public_key pc)) (peer_rows D C n w') = set (extract_ipv4_host_cidrs (strip raw))"
proof (cases "check_add D C n pc w")
  case (Inl e)
  then show ?thesis using assms(1) by (simp add: docker_add_peer_def)
next
  case (Inr x)
  obtain c i key ips where x: "x = (c, i, key, ips)" by (cases x) auto
  have k: "key = strip (pcf_public_key pc)" "ips = strip raw" using check_add_cases[OF Inr[unfolded x]] assms(2) by auto
  obtain w1 after where l: "docker_list_peers D C n w1 = Inr after"
    and s: "set (extract_ipv4_host_cidrs ips) = set (extract_ipv4_host_cidrs (allowed_of key after))"
    and "peer_rows D C n w' = peer_rows D C n w1"
    using assms(1) Inr x
    by (auto simp: docker_add_peer_def split: sum.splits prod.splits if_splits) (metis routes_quiet persist_quiet)+
  then show ?thesis by (simp add: row_cidrs_def peer_rows_def allowed_of_rows k)
qed

lemma remove_peer_other:
  assumes "docker_remove_peer D C n key w = (r, w')" "k \<noteq> strip key"
  shows "(k \<in> fst ` set (peer_rows D C m w')) = (k \<in> fst ` set (peer_rows D C m w))"
proof (cases "resolve_node D C n w")
  case None
  then show ?thesis using assms(1) by (simp add: docker_remove_peer_def)
next
  case (Some nd)
  show ?thesis
  proof (cases "rbind (node_interface C nd) (\<lambda>i. rbind (sanitize_public_key key) (\<lambda>key. Inr (i, key)))")
    case (Inl e)
    then show ?thesis using assms(1) Some by (simp add: docker_remove_peer_def)
  next
    case (Inr x)
    then obtain i where x: "x = (i, strip key)" and "public_key_ok (strip key)"
      by (auto simp: rbind_Inr_iff sanitize_public_key_def split: if_splits)
    then have cmd: "wg_command {strip key} (wg_remove_cmd i (strip key))" by (intro wg_command.intros)
    obtain r1 w1 where e: "dk_exec D (n_container_name nd) (wg_remove_cmd i (strip key)) w = (r1, w1)" by fastforce
    have "peer_rows D C m w' = peer_rows D C m w1"
      using assms(1) Some Inr x e by (auto simp: docker_remove_peer_def split: sum.splits prod.splits if_splits dest: persist_quiet)
    then show ?thesis using exec_other[OF cmd e] assms(2) by simp
  qed
qed

end

lemma row_cidrs_listed: "row_cidrs key rows \<noteq> {} \<Longrightarrow> key \<in> fst ` set rows"
  by (cases "map_of rows key") (force simp: row_cidrs_def strip_Nil extract_ipv4_host_cidrs_def host_cidr_def map_filter_simps dest: map_of_SomeD)+

sublocale wg_host \<subseteq> peer_runtime "docker_adapter D C" "\<lambda>w n k. strip k \<in> fst ` set (peer_rows D C n w)"
  "\<lambda>ips. extract_ipv4_host_cidrs (strip ips) \<noteq> []"
proof unfold_locales
  fix n cfg w w' ips
  assume "ad_add_peer (docker_adapter D C) n cfg w = (Inr (), w')" "pcf_allowed_ips cfg = Some ips" "extract_ipv4_host_cidrs (strip ips) \<noteq> []"
  then show "strip (pcf_public_key cfg) \<in> fst ` set (peer_rows D C n w')"
    using add_peer_applied[of n cfg w w' ips] by (intro row_cidrs_listed) (simp add: docker_adapter_def)
qed (simp_all add: docker_adapter_def add_peer_other remove_peer_other)

context wg_host begin

lemma docker_runtime:
  "peer_runtime (docker_adapter D C) (\<lambda>w n k. strip k \<in> fst ` set (peer_rows D C n w)) (\<lambda>ips. extract_ipv4_host_cidrs (strip ips) \<noteq> [])"
  by unfold_locales

end

subsection \<open>A simulated host\<close>

text \<open>
  One container with one interface: the world is the list of peers with their addresses, and
  \<^verbatim>\<open>wg set\<close> changes one of them. Shell scripts do nothing there.
\<close>

definition sim_container :: container where
  "sim_container = \<lparr>ct_id = ''0123456789abcdef'', ct_name = ''/amnezia-awg'', ct_status = ''running'',
     ct_image_refs = [''amneziavpn/amneziawg''], ct_exposed = [], ct_ports = [], ct_mounts = [], ct_entry = [], ct_caps = []\<rparr>"

definition sim_rows :: "(string \<times> string) list \<Rightarrow> (string \<times> string) list" where
  "sim_rows w = AList.clearjunk (filter (\<lambda>(k, a). field_ok k \<and> field_ok a) w)"

lemma sim_rows_ok: "(k, a) \<in> set (sim_rows w) \<Longrightarrow> field_ok k \<and> field_ok a"
  unfolding sim_rows_def graph_map_of[symmetric] by (auto dest!: in_graphD map_of_SomeD)

definition sim_dump :: "(string \<times> string) list \<Rightarrow> string" where
  "sim_dump w = tab_lines ([''s'', ''p'', ''443'', ''off''] # map (\<lambda>(k, a). [k, ''(none)'', ''(none)'', a, ''0'', ''0'', ''0'', ''off'']) (sim_rows w))"

definition sim_exec :: "string list \<Rightarrow> (string \<times> string) list \<Rightarrow> (int \<times> string) result \<times> (string \<times> string) list" where
  "sim_exec cmd w =
     (if take 3 cmd = [''wg'', ''set'', ''awg0''] \<and> length cmd = 9 then (Inr (0, []), AList.update (cmd ! 4) (cmd ! 6) w)
      else if take 3 cmd = [''wg'', ''set'', ''awg0''] \<and> length cmd = 6 then (Inr (0, []), AList.delete (cmd ! 4) w)
      else (Inr (1, []), w))"

definition sim_docker :: "(string \<times> string) list docker" where
  "sim_docker = \<lparr>dk_containers = (\<lambda>_. Some [sim_container]),
     dk_query = (\<lambda>_ q w. if q = wg_dump_cmd ''awg0'' then Inr (0, sim_dump w) else Inr (1, [])),
     dk_exec = (\<lambda>_. sim_exec), dk_latency_ms = (\<lambda>_. 0), dk_now_ts = (\<lambda>_. 0), dk_json = (\<lambda>_. None)\<rparr>"

definition sim_config :: docker_config where
  "sim_config = \<lparr>dc_prefixes = [''amnezia-awg''], dc_interface = ''awg0''\<rparr>"

lemma sim_dump_rows: "dump_rows sim_docker c i w = (if i = ''awg0'' then sim_rows w else [])"
proof -
  let ?peer = "\<lambda>(k, a). (\<lparr>p_public_key = k, p_allowed_ips = a, p_last_handshake = 0, p_transfer_rx = 0, p_transfer_tx = 0\<rparr>, ''(none)'', ''(none)'', ''off'')"
  have num: "int_str 0 = ''0''" by code_simp
  have rows: "map (\<lambda>(k, a). [k, ''(none)'', ''(none)'', a, ''0'', ''0'', ''0'', ''off'']) (sim_rows w)
      = map (\<lambda>(p, psk, e, ka). peer_fields_row p psk e ka) (map ?peer (sim_rows w))"
    by (auto simp: peer_fields_row_def num)
  have ok: "\<forall>(p, psk, e, ka)\<in>set (map ?peer (sim_rows w)). list_all field_ok (peer_fields_row p psk e ka)"
    by (auto simp: peer_fields_row_def num dest: sim_rows_ok) (simp_all add: field_ok_def is_space_def)
  have "list_all field_ok [''s'', ''p'', ''443'', ''off'']" by (simp add: field_ok_def is_space_def)
  from parse_tab_lines[OF this ok] have "snd (snd (parse_wg_dump (sim_dump w))) = map fst (map ?peer (sim_rows w))"
    unfolding sim_dump_def rows by simp
  then show ?thesis by (auto simp: dump_rows_def sim_docker_def wg_dump_cmd_def comp_def case_prod_unfold)
qed

lemma sim_rows_keys: "k \<in> fst ` set (sim_rows w) \<longleftrightarrow> (\<exists>a. (k, a) \<in> set w \<and> field_ok k \<and> field_ok a)"
  unfolding sim_rows_def dom_clearjunk by force

lemma in_AList_update_other: "k \<noteq> key \<Longrightarrow> ((k, a) \<in> set (AList.update key v w)) = ((k, a) \<in> set w)"
  by (induction w) auto

lemma sim_exec_other: "wg_command ks cmd \<Longrightarrow> k \<notin> ks \<Longrightarrow> ((k, a) \<in> set (snd (sim_exec cmd w))) = ((k, a) \<in> set w)"
  by (induction rule: wg_command.induct)
     (auto simp: sim_exec_def route_cmd_def persist_cmd_def wg_set_cmd_def wg_remove_cmd_def in_AList_update_other AList.delete_eq
       split: option.splits list.splits)

lemma sim_exec_quiet: "wg_command {} cmd \<Longrightarrow> snd (sim_exec cmd w) = w"
  by (erule wg_command.cases) (auto simp: sim_exec_def route_cmd_def persist_cmd_def)

interpretation sim_host: wg_host sim_docker sim_config
proof unfold_locales
  fix w :: "(string \<times> string) list"
  show "names_ok sim_docker sim_config w" by (simp add: names_ok_def sim_docker_def sim_config_def)
  fix ks cmd k c c' i
  show "similar sim_docker w (snd (dk_exec sim_docker c cmd w))"
    by (simp add: similar_def sim_docker_def answer_code_def wg_dump_cmd_def)
  show "dump_rows sim_docker c' i (snd (dk_exec sim_docker c cmd w)) = dump_rows sim_docker c' i w" if "wg_command {} cmd"
    using sim_exec_quiet[OF that] by (simp add: sim_docker_def)
  assume "wg_command ks cmd" "k \<notin> ks"
  then show "(k \<in> fst ` set (dump_rows sim_docker c' i (snd (dk_exec sim_docker c cmd w)))) = (k \<in> fst ` set (dump_rows sim_docker c' i w))"
    using sim_exec_other[of ks cmd k]
    by (cases "i = ''awg0''") (simp_all add: sim_dump_rows sim_rows_keys, simp_all add: sim_docker_def)
qed

definition sim_key :: string where "sim_key = replicate 43 (CHR ''A'') @ ''=''"

definition sim_peer :: peer_config where
  "sim_peer = PeerConfigLike sim_key (Some ''10.8.1.2/32'') None"

lemma sim_check: "check_add sim_docker sim_config ''amnezia-awg'' sim_peer [] = Inr (''amnezia-awg'', ''awg0'', sim_key, ''10.8.1.2/32'')"
proof -
  have "map_option (\<lambda>n. (n_container_name n, node_interface sim_config n)) (resolve_node sim_docker sim_config ''amnezia-awg'' [])
      = Some (''amnezia-awg'', Inr ''awg0'')" by code_simp
  then obtain n where "resolve_node sim_docker sim_config ''amnezia-awg'' [] = Some n" "n_container_name n = ''amnezia-awg''"
    "node_interface sim_config n = Inr ''awg0''" by auto
  moreover have "docker_list_peers sim_docker sim_config ''amnezia-awg'' [] = Inr []" by code_simp
  moreover have "sanitize_public_key sim_key = Inr sim_key" "sanitize_allowed_ips (strip ''10.8.1.2/32'') = Inr ''10.8.1.2/32''"
    "strip ''10.8.1.2/32'' \<noteq> []" "\<not> contains ''0.0.0.0/0'' ''10.8.1.2/32''" by code_simp+
  ultimately show ?thesis by (simp add: check_add_def sim_peer_def PeerConfigLike_def conflicting_def)
qed

lemma sim_add: "docker_add_peer sim_docker sim_config ''amnezia-awg'' sim_peer [] = (Inr (), [(sim_key, ''10.8.1.2/32'')])"
proof -
  let ?w = "[(sim_key, ''10.8.1.2/32'')]"
  have "dk_exec sim_docker ''amnezia-awg'' (wg_set_cmd ''awg0'' sim_key ''10.8.1.2/32'' (clamp_keepalive (Some (pcf_persistent_keepalive sim_peer))) (pcf_preshared_key sim_peer)) []
      = (Inr (0, []), ?w)" by code_simp
  moreover have "map_sum id (allowed_of sim_key) (docker_list_peers sim_docker sim_config ''amnezia-awg'' ?w) = Inr ''10.8.1.2/32''" by code_simp
  then obtain after where "docker_list_peers sim_docker sim_config ''amnezia-awg'' ?w = Inr after" "allowed_of sim_key after = ''10.8.1.2/32''"
    by (cases "docker_list_peers sim_docker sim_config ''amnezia-awg'' ?w") auto
  moreover have "ensure_client_subnet_routes sim_docker ''amnezia-awg'' ''awg0'' (subnets_for_allowed_ips ''10.8.1.2/32'') ?w = (Inr (), ?w)"
    "persist_wg_config sim_docker ''amnezia-awg'' ''awg0'' ?w = (Inr (), ?w)" by code_simp+
  ultimately show ?thesis by (simp add: docker_add_peer_def sim_check)
qed

subsection \<open>Properties\<close>

text \<open>C33. On a host where the commands on one peer leave the other peers alone, the Docker adapter keeps
  the contract of a peer runtime: an addition of a client address that returns leaves the peer
  listed on the node, and additions and removals of one key never change whether another is listed.\<close>

theorem docker_keeps_contract:
  assumes "wg_host D C"
  shows "peer_runtime (docker_adapter D C) (\<lambda>w n k. strip k \<in> fst ` set (peer_rows D C n w)) (\<lambda>ips. extract_ipv4_host_cidrs (strip ips) \<noteq> [])"
  by (rule wg_host.docker_runtime[OF assms])

theorem docker_keeps_contract_witness:
  "strip sim_key \<in> fst ` set (peer_rows sim_docker sim_config ''amnezia-awg''
     (snd (docker_add_peer sim_docker sim_config ''amnezia-awg'' sim_peer [])))"
proof -
  have "extract_ipv4_host_cidrs (strip ''10.8.1.2/32'') \<noteq> []" by code_simp
  then show ?thesis
    using peer_runtime.add_ok[OF docker_keeps_contract[OF sim_host.wg_host_axioms], of "''amnezia-awg''" sim_peer "[]"] sim_add
    by (simp add: docker_adapter_def sim_peer_def PeerConfigLike_def)
qed



text \<open>C35. The dump of an interface is read back exactly: for any peers whose fields have no white space,
  key, addresses, handshake and counters of each are recovered in order, with the interface key and port.\<close>

theorem wg_dump_roundtrip:
  assumes "list_all field_ok [private_key, public_key, fwmark]"
    and "\<forall>(p, psk, endpoint, keepalive)\<in>set peers. list_all field_ok [p_public_key p, p_allowed_ips p, psk, endpoint, keepalive]"
  shows "parse_wg_dump (tab_lines ([private_key, public_key, int_str port, fwmark] # map (\<lambda>(p, psk, endpoint, keepalive). peer_fields_row p psk endpoint keepalive) peers))
    = (public_key, port, map fst peers)"
proof -
  have num: "field_ok (int_str i)" "int_str i \<noteq> []" for i
    using nat_str_digits digit_not_space by (auto simp: field_ok_def list_all_iff int_str_def is_space_def[of "CHR ''-''"])
  have "list_all field_ok [private_key, public_key, int_str port, fwmark]" using assms(1) num by simp
  moreover have "\<forall>(p, psk, endpoint, keepalive)\<in>set peers. list_all field_ok (peer_fields_row p psk endpoint keepalive)"
    using assms(2) num by (auto simp: peer_fields_row_def)
  ultimately show ?thesis by (subst parse_tab_lines) (simp_all add: int_or_0_def num)
qed

theorem wg_dump_roundtrip_witness:
  "parse_wg_dump (tab_lines [[''s'', ''p'', int_str 443, ''off''],
     [''K1'', ''(none)'', ''1.2.3.4:9'', ''10.8.1.2/32'', int_str 7, int_str 8, int_str 9, ''25'']])
   = (''p'', 443, [\<lparr>p_public_key = ''K1'', p_allowed_ips = ''10.8.1.2/32'', p_last_handshake = 7, p_transfer_rx = 8, p_transfer_tx = 9\<rparr>])"
proof -
  let ?p = "\<lparr>p_public_key = ''K1'', p_allowed_ips = ''10.8.1.2/32'', p_last_handshake = 7, p_transfer_rx = 8, p_transfer_tx = 9\<rparr>"
  have "list_all field_ok [''s'', ''p'', ''off'']" by code_simp
  moreover have "list_all field_ok [''K1'', ''10.8.1.2/32'', ''(none)'', ''1.2.3.4:9'', ''25'']" by code_simp
  ultimately show ?thesis
    using wg_dump_roundtrip[of "''s''" "''p''" "''off''" "[(?p, ''(none)'', ''1.2.3.4:9'', ''25'')]" 443] by (simp add: peer_fields_row_def)
qed

subsection \<open>Bandwidth plans\<close>

definition class_ok :: "string \<Rightarrow> string list \<Rightarrow> bool" where
  "class_ok iface cmd \<longleftrightarrow> (\<exists>cid rate ceil prio. cmd = class_cmd iface cid rate ceil prio
     \<and> 1 \<le> rate \<and> rate \<le> ceil \<and> ceil \<le> 100000 \<and> 0 \<le> prio \<and> prio \<le> 7)"

definition filter_ok :: "string \<Rightarrow> string set \<Rightarrow> string list \<Rightarrow> bool" where
  "filter_ok iface cids cmd \<longleftrightarrow> (\<exists>dir host cid. cmd = filter_cmd iface dir host cid \<and> dir \<in> {''dst'', ''src''} \<and> cid \<in> cids)"

definition class_id_of :: "int \<Rightarrow> string" where
  "class_id_of m = ''1:'' @ int_str m"

definition classes_ok :: "bandwidth_plan \<Rightarrow> bool" where
  "classes_ok b \<longleftrightarrow> 10 \<le> bp_minor b \<and> distinct (map snd (bp_classes b)) \<and> snd ` set (bp_classes b) \<subseteq> class_id_of ` {10..<bp_minor b}"

lemma class_id_inj: "class_id_of m = class_id_of n \<longleftrightarrow> m = n"
  by (simp add: class_id_of_def)

lemma sanitize_mbit_range: "1 \<le> fallback \<Longrightarrow> fallback \<le> 100000 \<Longrightarrow> 1 \<le> sanitize_mbit v fallback \<and> sanitize_mbit v fallback \<le> 100000"
  by (simp add: sanitize_mbit_def split: sum.splits)

lemma policy_class_range:
  assumes "policy_class p = Inr (rate, ceil, prio)"
  shows "1 \<le> rate \<and> rate \<le> ceil \<and> ceil \<le> 100000 \<and> 0 \<le> prio \<and> prio \<le> 7"
proof -
  obtain raw where r: "rate = sanitize_mbit (VInt raw) 1"
    and c: "ceil = max (sanitize_mbit (py_or (pget p ''ceil_mbps'') (VInt rate)) rate) rate" and "0 \<le> prio" "prio \<le> 7"
    using assms by (auto simp: policy_class_def rbind_Inr_iff Let_def)
  moreover have "1 \<le> rate" "rate \<le> 100000" using sanitize_mbit_range[of 1 "VInt raw"] r by simp_all
  ultimately show ?thesis using sanitize_mbit_range[of rate "py_or (pget p ''ceil_mbps'') (VInt rate)"] by simp
qed

lemma distinct_AList_update: "distinct (map snd xs) \<Longrightarrow> v \<notin> snd ` set xs \<Longrightarrow> distinct (map snd (AList.update k v xs))
    \<and> snd ` set (AList.update k v xs) \<subseteq> insert v (snd ` set xs)"
  by (induction xs) auto

lemma add_policy_spec:
  assumes "add_policy iface p b = Inr b'" "classes_ok b"
  shows "classes_ok b' \<and> bp_bound b' = bp_bound b \<and> bp_skipped b' = bp_skipped b \<and> bp_minor b' \<le> bp_minor b + 1
    \<and> (\<exists>new. bp_commands b' = bp_commands b @ new \<and> list_all (class_ok iface) new)"
proof (cases "plan_id_of p = []")
  case True
  then show ?thesis using assms by (auto simp: add_policy_def intro: exI[of _ "[]"])
next
  case False
  let ?cid = "class_id_of (bp_minor b)"
  obtain rate ceil prio where pc: "policy_class p = Inr (rate, ceil, prio)"
    and b': "b' = b\<lparr>bp_minor := bp_minor b + 1, bp_classes := AList.update (plan_id_of p) ?cid (bp_classes b),
        bp_commands := bp_commands b @ [class_cmd iface ?cid rate ceil prio]\<rparr>"
    using assms(1) False by (auto simp: add_policy_def rbind_Inr_iff class_id_of_def Let_def)
  have "?cid \<notin> snd ` set (bp_classes b)" using assms(2) by (force simp: classes_ok_def class_id_inj)
  from distinct_AList_update[OF _ this, of "plan_id_of p"] have d: "distinct (map snd (bp_classes b'))"
    "snd ` set (bp_classes b') \<subseteq> insert ?cid (snd ` set (bp_classes b))" using assms(2) b' by (auto simp: classes_ok_def)
  have "snd ` set (bp_classes b) \<subseteq> class_id_of ` {10..<bp_minor b}" "10 \<le> bp_minor b" using assms(2) by (simp_all add: classes_ok_def)
  then have "insert ?cid (snd ` set (bp_classes b)) \<subseteq> class_id_of ` {10..<bp_minor b + 1}" by force
  with d(2) have "snd ` set (bp_classes b') \<subseteq> class_id_of ` {10..<bp_minor b + 1}" by (rule subset_trans)
  then have "classes_ok b'" using d(1) assms(2) b' by (simp add: classes_ok_def)
  then show ?thesis using policy_class_range[OF pc] b' by (auto simp: class_ok_def)
qed

lemma add_policies_spec:
  assumes "mfold (add_policy iface) ps b = Inr b'" "classes_ok b"
  shows "classes_ok b' \<and> bp_bound b' = bp_bound b \<and> bp_skipped b' = bp_skipped b \<and> bp_minor b' \<le> bp_minor b + int (length ps)
    \<and> (\<exists>new. bp_commands b' = bp_commands b @ new \<and> list_all (class_ok iface) new)"
  using assms
proof (induction ps arbitrary: b)
  case (Cons p ps)
  then obtain b1 where b1: "add_policy iface p b = Inr b1" "mfold (add_policy iface) ps b1 = Inr b'" by (auto simp: rbind_Inr_iff)
  note s = add_policy_spec[OF b1(1) Cons.prems(2)]
  from s have "classes_ok b1" by blast
  from Cons.IH[OF b1(2) this] s show ?case by (auto simp del: append_assoc simp: append_assoc[symmetric]) fastforce
qed auto

definition known_binding :: "bandwidth_plan \<Rightarrow> payload \<Rightarrow> bool" where
  "known_binding b p \<longleftrightarrow> map_of (bp_classes b) (plan_id_of p) \<noteq> None"

lemma add_bindings_spec:
  "let b' = fold (add_binding iface) ps b in bp_classes b' = bp_classes b \<and> bp_minor b' = bp_minor b
     \<and> bp_bound b' + bp_skipped b' = bp_bound b + bp_skipped b + int (length (filter (known_binding b) ps))
     \<and> (\<exists>new. bp_commands b' = bp_commands b @ new \<and> list_all (filter_ok iface (snd ` set (bp_classes b))) new)"
proof (induction ps arbitrary: b)
  case (Cons p ps)
  let ?b1 = "add_binding iface p b"
  have s: "bp_classes ?b1 = bp_classes b" "bp_minor ?b1 = bp_minor b"
    "bp_bound ?b1 + bp_skipped ?b1 = bp_bound b + bp_skipped b + (if known_binding b p then 1 else 0)"
    by (auto simp: add_binding_def known_binding_def split: option.splits list.splits)
  have new: "\<exists>new. bp_commands ?b1 = bp_commands b @ new \<and> list_all (filter_ok iface (snd ` set (bp_classes b))) new"
    by (auto simp: add_binding_def list_all_iff filter_ok_def split: option.splits list.splits dest!: map_of_SomeD)
       (metis snd_conv imageI)+
  have k: "known_binding ?b1 = known_binding b" by (auto simp: known_binding_def s(1))
  show ?case using Cons.IH[of ?b1] new by (auto simp: Let_def s k)
qed (simp add: Let_def)



end
