(* ===== verification/Reconcile.thy ===== *)
theory Reconcile
  imports Docker_Contract
begin

section \<open>Reconciliation of nodes with the device table\<close>

text \<open>
  \<^verbatim>\<open>services/reconciliation_engine.py\<close>: the peers a node should have are the devices that are neither
  revoked nor suspended; \<open>compute_diff\<close> compares them with the peers it lists, \<open>apply_diff\<close> sends the
  changes to the adapter, and \<open>reconcile_node\<close>, \<open>reconcile_all_nodes\<close> and the background loop run
  both. Error texts are kept as values (stage, key, exception), measured times and metrics are left
  out, and the audit entry of a run is returned. \<open>routes\<close> is the optional method
  \<^verbatim>\<open>ensure_reply_routes\<close> of the adapter.
\<close>

subsection \<open>Desired against actual state\<close>

record reconciliation_diff =
  df_add :: "peer_config list"
  df_remove :: "string list"
  df_update :: "peer_config list"

datatype reconcile_error = Remove_failed string py_error | Add_failed string py_error | Update_failed string py_error | Node_failed py_error

record reconciliation_result =
  rs_added :: int
  rs_removed :: int
  rs_updated :: int
  rs_added_pubkeys :: "string list"
  rs_errors :: "reconcile_error list"

definition empty_result :: reconciliation_result where
  "empty_result = \<lparr>rs_added = 0, rs_removed = 0, rs_updated = 0, rs_added_pubkeys = [], rs_errors = []\<rparr>"

definition is_valid_server_allowed_ips :: "string \<Rightarrow> bool" where
  "is_valid_server_allowed_ips allowed =
     (let a = strip allowed in a \<noteq> [] \<and> \<not> contains ''0.0.0.0/0'' a \<and> (contains ''/32'' a \<or> contains ''/128'' a))"

definition psk_norm :: "string option \<Rightarrow> string option" where
  "psk_norm psk = (if strip (or_empty psk) = [] then None else Some (strip (or_empty psk)))"

definition db_map_of :: "(string \<times> string \<times> string option) list \<Rightarrow> (string \<times> string \<times> string option) list" where
  "db_map_of db_peers = fold (\<lambda>(pk, allowed, psk) m. if pk = [] then m else AList.update pk (strip allowed, psk_norm psk) m) db_peers []"

definition wg_map_of :: "peer_row list \<Rightarrow> (string \<times> string) list" where
  "wg_map_of wg_peers = fold (\<lambda>p m. if p_public_key p = [] then m else AList.update (p_public_key p) (strip (p_allowed_ips p)) m) wg_peers []"

definition peer_entry :: "string \<times> string \<times> string option \<Rightarrow> peer_config" where
  "peer_entry e = (case e of (pk, allowed, psk) \<Rightarrow> PeerConfigLike pk (Some allowed) psk)"

definition compute_diff :: "(string \<times> string \<times> string option) list \<Rightarrow> peer_row list \<Rightarrow> reconciliation_diff" where
  "compute_diff db_peers wg_peers =
     (let db_map = db_map_of db_peers; wg_map = wg_map_of wg_peers in
      \<lparr>df_add = map peer_entry (filter (\<lambda>(pk, allowed, _). map_of wg_map pk = None \<and> is_valid_server_allowed_ips allowed) db_map),
       df_remove = filter (\<lambda>pk. map_of db_map pk = None) (map fst wg_map),
       df_update = map peer_entry (filter (\<lambda>(pk, allowed, _). is_valid_server_allowed_ips allowed
         \<and> (case map_of wg_map pk of None \<Rightarrow> False
            | Some wg_val \<Rightarrow> wg_val \<noteq> allowed \<and> (wg_val = [] \<or> contains ''0.0.0.0/0'' wg_val))) db_map)\<rparr>)"

definition no_drift :: "reconciliation_diff \<Rightarrow> bool" where
  "no_drift df \<longleftrightarrow> df_add df = [] \<and> df_remove df = [] \<and> df_update df = []"

subsection \<open>Applying the differences\<close>

definition remove_step :: "'w adapter \<Rightarrow> string \<Rightarrow> string \<Rightarrow> reconciliation_result \<times> 'w \<Rightarrow> reconciliation_result \<times> 'w" where
  "remove_step A n pubkey st = (case st of (r, w) \<Rightarrow>
     (case ad_remove_peer A n pubkey w of
        (Inr _, w1) \<Rightarrow> (r\<lparr>rs_removed := rs_removed r + 1\<rparr>, w1)
      | (Inl e, w1) \<Rightarrow> (r\<lparr>rs_errors := rs_errors r @ [Remove_failed (take 16 pubkey) e]\<rparr>, w1)))"

definition add_step :: "'w adapter \<Rightarrow> string \<Rightarrow> peer_config \<Rightarrow> reconciliation_result \<times> 'w \<Rightarrow> reconciliation_result \<times> 'w" where
  "add_step A n peer st = (case st of (r, w) \<Rightarrow>
     (case ad_add_peer A n peer w of
        (Inr _, w1) \<Rightarrow> (r\<lparr>rs_added := rs_added r + 1, rs_added_pubkeys := rs_added_pubkeys r @ [pcf_public_key peer]\<rparr>, w1)
      | (Inl e, w1) \<Rightarrow> (r\<lparr>rs_errors := rs_errors r @ [Add_failed (take 16 (pcf_public_key peer)) e]\<rparr>, w1)))"

definition update_step :: "'w adapter \<Rightarrow> string \<Rightarrow> peer_config \<Rightarrow> reconciliation_result \<times> 'w \<Rightarrow> reconciliation_result \<times> 'w" where
  "update_step A n peer st = (case st of (r, w) \<Rightarrow>
     (let failed = (\<lambda>e w1. (r\<lparr>rs_errors := rs_errors r @ [Update_failed (take 16 (pcf_public_key peer)) e]\<rparr>, w1)) in
      case ad_remove_peer A n (pcf_public_key peer) w of
        (Inl e, w1) \<Rightarrow> failed e w1
      | (Inr _, w1) \<Rightarrow>
          (case ad_add_peer A n peer w1 of
             (Inl e, w2) \<Rightarrow> failed e w2
           | (Inr _, w2) \<Rightarrow> (r\<lparr>rs_updated := rs_updated r + 1\<rparr>, w2))))"

definition apply_diff :: "settings \<Rightarrow> 'w adapter \<Rightarrow> string \<Rightarrow> reconciliation_diff \<Rightarrow> 'w \<Rightarrow> reconciliation_result \<times> 'w" where
  "apply_diff S A n df w =
     (if reconciliation_read_only S \<and> \<not> no_drift df then (empty_result, w)
      else fold (update_step A n) (df_update df)
        (fold (add_step A n) (df_add df)
          (fold (remove_step A n) (if reconciliation_remove_orphans S then df_remove df else []) (empty_result, w))))"

subsection \<open>Runs\<close>

definition desired_device :: "string list \<Rightarrow> device \<Rightarrow> bool" where
  "desired_device ids dev \<longleftrightarrow> d_server_id dev \<in> set ids \<and> d_revoked_at dev = None \<and> d_suspended_at dev = None \<and> d_public_key dev \<noteq> []"

definition desired_peers :: "string list \<Rightarrow> db \<Rightarrow> (string \<times> string \<times> string option) list" where
  "desired_peers ids d = map (\<lambda>dev. (d_public_key dev, strip (or_empty (d_allowed_ips dev)), psk_norm (d_preshared_key dev)))
     (filter (desired_device ids) (devices d))"

text \<open>The device a key stands for is the last one read.\<close>

definition device_id_of :: "string list \<Rightarrow> db \<Rightarrow> string \<Rightarrow> string option" where
  "device_id_of ids d pk = map_of (rev (map (\<lambda>dev. (d_public_key dev, d_id dev)) (filter (desired_device ids) (devices d)))) pk"

definition mark_applied :: "datetime \<Rightarrow> string list \<Rightarrow> db \<Rightarrow> db" where
  "mark_applied now ids d = devices_update (map (\<lambda>dev. if d_id dev \<in> set ids
     then dev\<lparr>d_apply_status := Some ''APPLIED'', d_last_applied_at := Some now, d_last_error := None\<rparr> else dev)) d"

record audit_entry =
  ae_action :: string
  ae_resource_type :: string
  ae_resource_id :: string
  ae_counts :: "int \<times> int \<times> int"
  ae_errors :: "reconcile_error list"

definition production_refusal :: py_error where
  "production_refusal = ValueError ''Reconciliation must not run in production; only node-agent mutates peers. Set NODE_DISCOVERY=agent.''"

definition candidate_servers :: "string \<Rightarrow> string list \<Rightarrow> string list" where
  "candidate_servers n server_ids = (let given = filter (\<lambda>s. s \<noteq> []) server_ids in if given = [] then [n] else given)"

definition run_routes :: "(string \<Rightarrow> 'w \<Rightarrow> unit result \<times> 'w) option \<Rightarrow> string \<Rightarrow> 'w \<Rightarrow> unit result \<times> 'w" where
  "run_routes routes n w = (case routes of None \<Rightarrow> (Inr (), w) | Some f \<Rightarrow> f n w)"

definition reconcile_node ::
  "settings \<Rightarrow> 'w adapter \<Rightarrow> (string \<Rightarrow> 'w \<Rightarrow> unit result \<times> 'w) option \<Rightarrow> datetime \<Rightarrow> string \<Rightarrow> string list \<Rightarrow> 'w \<times> db
     \<Rightarrow> (reconciliation_result \<times> audit_entry list) result \<times> 'w \<times> db" where
  "reconcile_node S A routes now n server_ids st = (case st of (w, d) \<Rightarrow>
     if environment S = ''production'' then (Inl production_refusal, w, d)
     else let ids = candidate_servers n server_ids in
       (case ad_list_peers A n w of
          Inl e \<Rightarrow> (Inl e, w, d)
        | Inr wg_peers \<Rightarrow>
            let df = compute_diff (desired_peers ids d) wg_peers in
            (case run_routes routes n w of
               (Inl e, w1) \<Rightarrow> (Inl e, w1, d)
             | (Inr _, w1) \<Rightarrow>
                 if no_drift df then (Inr (empty_result, []), w1, d)
                 else let (r, w2) = apply_diff S A n df w1 in
                   (Inr (r, [\<lparr>ae_action = ''reconciliation.completed'', ae_resource_type = ''cluster'', ae_resource_id = n,
                       ae_counts = (rs_added r, rs_removed r, rs_updated r), ae_errors = take 5 (rs_errors r)\<rparr>]),
                    w2, mark_applied now (List.map_filter (device_id_of ids d) (rs_added_pubkeys r)) d))))"

fun reconcile_nodes ::
  "settings \<Rightarrow> 'w adapter \<Rightarrow> (string \<Rightarrow> 'w \<Rightarrow> unit result \<times> 'w) option \<Rightarrow> datetime \<Rightarrow> node list \<Rightarrow> 'w \<times> db
     \<Rightarrow> ((string \<times> reconciliation_result) list \<times> audit_entry list) \<times> 'w \<times> db" where
  "reconcile_nodes S A routes now [] st = (([], []), st)"
| "reconcile_nodes S A routes now (n # ns) st =
     (let cname = n_container_name n;
          ids = (if cname \<noteq> [] \<and> cname \<noteq> n_node_id n then [n_node_id n, cname] else [n_node_id n]);
          (out, st1) = reconcile_node S A routes now (n_node_id n) ids st;
          (r, audit) = (case out of Inr x \<Rightarrow> x | Inl e \<Rightarrow> (empty_result\<lparr>rs_errors := [Node_failed e]\<rparr>, []));
          ((rs, audits), st2) = reconcile_nodes S A routes now ns st1
      in (((n_node_id n, r) # rs, audit @ audits), st2))"

definition reconcile_all_nodes ::
  "settings \<Rightarrow> 'w adapter \<Rightarrow> (string \<Rightarrow> 'w \<Rightarrow> unit result \<times> 'w) option \<Rightarrow> datetime \<Rightarrow> 'w \<times> db
     \<Rightarrow> ((string \<times> reconciliation_result) list \<times> audit_entry list) result \<times> 'w \<times> db" where
  "reconcile_all_nodes S A routes now st =
     (if environment S = ''production'' then (Inl production_refusal, st)
      else case ad_discover A (fst st) of
        Inl e \<Rightarrow> (Inl e, st)
      | Inr nodes \<Rightarrow> (case reconcile_nodes S A routes now nodes st of (out, st1) \<Rightarrow> (Inr out, st1)))"

text \<open>
  The background loop, for a number of rounds: the seconds it sleeps after each round, and the
  state. After \<open>k\<close> failures in a row it waits \<open>interval * 2 ^ k\<close> seconds, an hour at most.
\<close>

definition backoff_delay :: "int \<Rightarrow> nat \<Rightarrow> int" where
  "backoff_delay interval failures = min (interval * 2 ^ failures) 3600"

fun reconciliation_loop ::
  "settings \<Rightarrow> (nat \<Rightarrow> 'w adapter result) \<Rightarrow> (string \<Rightarrow> 'w \<Rightarrow> unit result \<times> 'w) option \<Rightarrow> (nat \<Rightarrow> datetime) \<Rightarrow> nat \<Rightarrow> nat \<Rightarrow> nat \<Rightarrow> 'w \<times> db
     \<Rightarrow> int list \<times> 'w \<times> db" where
  "reconciliation_loop S get_adapter routes now 0 k failures st = ([], st)"
| "reconciliation_loop S get_adapter routes now (Suc rounds) k failures st =
     (let interval = reconciliation_interval_seconds S;
          (out, st1) = (case get_adapter k of Inl e \<Rightarrow> (Inl e, st)
             | Inr A \<Rightarrow> (case reconcile_all_nodes S A routes (now k) st of (r, s) \<Rightarrow> (map_sum id (\<lambda>_. ()) r, s)));
          failures1 = (case out of Inr _ \<Rightarrow> 0 | Inl _ \<Rightarrow> failures + 1);
          delay = (case out of Inr _ \<Rightarrow> interval | Inl _ \<Rightarrow> backoff_delay interval failures1);
          (delays, st2) = reconciliation_loop S get_adapter routes now rounds (Suc k) failures1 st1
      in (delay # delays, st2))"

definition run_reconciliation_loop ::
  "settings \<Rightarrow> (nat \<Rightarrow> 'w adapter result) \<Rightarrow> (string \<Rightarrow> 'w \<Rightarrow> unit result \<times> 'w) option \<Rightarrow> (nat \<Rightarrow> datetime) \<Rightarrow> nat \<Rightarrow> 'w \<times> db \<Rightarrow> int list \<times> 'w \<times> db" where
  "run_reconciliation_loop S get_adapter routes now rounds st =
     (if node_discovery S = ''agent'' then (replicate rounds 3600, st)
      else reconciliation_loop S get_adapter routes now rounds 0 0 st)"

subsection \<open>The differences\<close>

lemma fold_update_map:
  "map_of (fold (\<lambda>x m. if bad x then m else AList.update (k x) (v x) m) xs m) = map_of (rev (map (\<lambda>x. (k x, v x)) (filter (\<lambda>x. \<not> bad x) xs)) @ m)"
proof (induction xs arbitrary: m)
  case (Cons x xs)
  show ?case by (simp only: fold.simps comp_apply Cons.IH) (simp add: update_conv' map_add_upd)
qed simp

lemma fold_update_distinct:
  "distinct (map fst m) \<Longrightarrow> distinct (map fst (fold (\<lambda>x m. if bad x then m else AList.update (k x) (v x) m) xs m))"
  by (induction xs arbitrary: m) (simp_all add: distinct_update)

lemma map_of_rev_distinct: "distinct (map fst xs) \<Longrightarrow> map_of (rev xs) = map_of xs"
proof (induction xs)
  case (Cons x xs)
  then have "map_of (rev (x # xs)) = [fst x \<mapsto> snd x] ++ map_of xs" by simp
  moreover have "map_of xs (fst x) = None" using Cons.prems by (simp add: map_of_eq_None_iff)
  ultimately have "map_of (rev (x # xs)) = (map_of xs)(fst x \<mapsto> snd x)"
    by (auto simp: map_add_def fun_eq_iff split: option.splits)
  then show ?case by (cases x) simp
qed simp

lemma db_map_of_alt:
  "db_map_of ps = fold (\<lambda>x m. if fst x = [] then m else AList.update (fst x) (strip (fst (snd x)), psk_norm (snd (snd x))) m) ps []"
  unfolding db_map_of_def by (simp add: case_prod_unfold)

lemma distinct_db_map [simp]: "distinct (map fst (db_map_of ps))"
  unfolding db_map_of_alt by (rule fold_update_distinct) simp

lemma db_map_entry:
  assumes "map_of (db_map_of ps) pk = Some (a, psk)"
  shows "pk \<noteq> []" "\<exists>a' psk'. (pk, a', psk') \<in> set ps \<and> a = strip a'" "strip a = a"
  using map_of_SomeD[OF assms[unfolded db_map_of_alt fold_update_map]] by (auto simp: strip_idem) blast

lemma distinct_wg_map [simp]: "distinct (map fst (wg_map_of ps))"
  unfolding wg_map_of_def by (rule fold_update_distinct) simp

lemma wg_map_of_rows:
  assumes "distinct (map p_public_key ps)"
  shows "map_of (wg_map_of ps) pk = (if pk = [] then None else map_option strip (map_of (map (\<lambda>p. (p_public_key p, p_allowed_ips p)) ps) pk))"
proof -
  let ?rows = "map (\<lambda>p. (p_public_key p, strip (p_allowed_ips p))) (filter (\<lambda>p. p_public_key p \<noteq> []) ps)"
  have "distinct (map fst ?rows)" using assms by (simp add: comp_def distinct_map_filter)
  then have "map_of (wg_map_of ps) = map_of ?rows" unfolding wg_map_of_def fold_update_map by (simp add: map_of_rev_distinct)
  moreover have "map_of ?rows pk = (if pk = [] then None else map_option strip (map_of (map (\<lambda>p. (p_public_key p, p_allowed_ips p)) ps) pk))"
    by (induction ps) auto
  ultimately show ?thesis by simp
qed

definition needs_fix :: "string \<Rightarrow> string \<Rightarrow> bool" where
  "needs_fix actual wanted \<longleftrightarrow> actual \<noteq> wanted \<and> (actual = [] \<or> contains ''0.0.0.0/0'' actual)"

lemma ball_map_of: "distinct (map fst m) \<Longrightarrow> (\<forall>x\<in>set m. Q x) \<longleftrightarrow> (\<forall>k v. map_of m k = Some v \<longrightarrow> Q (k, v))"
  by (auto simp: map_of_eq_Some_iff)

lemma no_drift_iff:
  "no_drift (compute_diff db ps) \<longleftrightarrow>
     (\<forall>pk a psk. map_of (db_map_of db) pk = Some (a, psk) \<longrightarrow> is_valid_server_allowed_ips a \<longrightarrow>
        (\<exists>v. map_of (wg_map_of ps) pk = Some v \<and> \<not> needs_fix v a))
     \<and> (\<forall>pk. map_of (db_map_of db) pk = None \<longrightarrow> map_of (wg_map_of ps) pk = None)"
proof -
  let ?D = "map_of (db_map_of db)" and ?W = "map_of (wg_map_of ps)"
  have add: "df_add (compute_diff db ps) = [] \<longleftrightarrow> (\<forall>pk a psk. ?D pk = Some (a, psk) \<longrightarrow> is_valid_server_allowed_ips a \<longrightarrow> ?W pk \<noteq> None)"
    unfolding compute_diff_def Let_def by (simp add: filter_empty_conv ball_map_of) blast
  have rem: "df_remove (compute_diff db ps) = [] \<longleftrightarrow> (\<forall>pk. ?D pk = None \<longrightarrow> ?W pk = None)"
    unfolding compute_diff_def Let_def by (auto simp: filter_empty_conv map_of_eq_None_iff)
  have upd: "df_update (compute_diff db ps) = [] \<longleftrightarrow>
      (\<forall>pk a psk. ?D pk = Some (a, psk) \<longrightarrow> is_valid_server_allowed_ips a \<longrightarrow> (\<forall>v. ?W pk = Some v \<longrightarrow> \<not> needs_fix v a))"
    unfolding compute_diff_def Let_def by (auto simp: filter_empty_conv ball_map_of needs_fix_def split: option.splits)
  have "(\<exists>v. ?W pk = Some v \<and> \<not> needs_fix v a) \<longleftrightarrow> ?W pk \<noteq> None \<and> (\<forall>v. ?W pk = Some v \<longrightarrow> \<not> needs_fix v a)" for pk a
    by (cases "?W pk") (simp_all del: map_of_eq_Some_iff)
  then show ?thesis unfolding no_drift_def add rem upd by (simp only:) blast
qed

text \<open>What a list of changes writes.\<close>

definition written :: "peer_config list \<Rightarrow> string \<Rightarrow> string option" where
  "written cfgs = map_of (rev (map (\<lambda>c. (pcf_public_key c, the (pcf_allowed_ips c))) cfgs))"

lemma written_entries:
  assumes "distinct (map fst m)"
  shows "written (map peer_entry (filter P m)) k = (case map_of m k of None \<Rightarrow> None | Some (a, psk) \<Rightarrow> if P (k, a, psk) then Some a else None)"
proof -
  let ?kv = "map (\<lambda>c. (pcf_public_key c, the (pcf_allowed_ips c))) (map peer_entry (filter P m))"
  have kv: "?kv = map (\<lambda>(k, a, psk). (k, a)) (filter P m)" by (simp add: peer_entry_def PeerConfigLike_def case_prod_unfold)
  have "distinct (map fst ?kv)" unfolding kv using assms by (simp add: comp_def case_prod_unfold distinct_map_filter)
  then have "written (map peer_entry (filter P m)) k = map_of (map (\<lambda>(k, a, psk). (k, a)) (filter P m)) k"
    unfolding written_def kv by (simp only: kv map_of_rev_distinct)
  also have "\<dots> = (case map_of m k of None \<Rightarrow> None | Some (a, psk) \<Rightarrow> if P (k, a, psk) then Some a else None)"
    using assms
  proof (induction m)
    case (Cons x m)
    then have "map_of m (fst x) = None" by (simp add: map_of_eq_None_iff)
    then show ?case using Cons by (cases x) auto
  qed simp
  finally show ?thesis .
qed

subsection \<open>Adapters that keep a table\<close>

text \<open>
  What reconciliation relies on: \<open>rows w n\<close> are the peers of node \<open>n\<close> with their addresses; listing
  shows them, an addition of an address that returns stores it, a removal that returns deletes the
  peer, and reply routes change no peer. Nothing is promised about calls that raise.
\<close>

definition cfg_ok :: "(string \<Rightarrow> bool) \<Rightarrow> peer_config \<Rightarrow> bool" where
  "cfg_ok addr_ok c \<longleftrightarrow> (\<exists>a. pcf_allowed_ips c = Some a \<and> addr_ok a) \<and> strip (pcf_public_key c) = pcf_public_key c"

locale peer_table =
  fixes A :: "'w adapter" and routes :: "(string \<Rightarrow> 'w \<Rightarrow> unit result \<times> 'w) option"
    and rows :: "'w \<Rightarrow> string \<Rightarrow> string \<Rightarrow> string option" and addr_ok :: "string \<Rightarrow> bool"
  assumes list_rows: "ad_list_peers A n w = Inr ps \<Longrightarrow>
      map_of (map (\<lambda>p. (p_public_key p, p_allowed_ips p)) ps) = rows w n \<and> distinct (map p_public_key ps)"
    and key_clean: "rows w n k = Some a \<Longrightarrow> strip k = k"
    and add_row: "ad_add_peer A n cfg w = (Inr (), w') \<Longrightarrow> pcf_allowed_ips cfg = Some a \<Longrightarrow> addr_ok a \<Longrightarrow>
      rows w' n = (rows w n)(strip (pcf_public_key cfg) \<mapsto> a)"
    and remove_row: "ad_remove_peer A n k w = (Inr (), w') \<Longrightarrow> rows w' n = (rows w n)(strip k := None)"
    and routes_rows: "run_routes routes n w = (r, w') \<Longrightarrow> rows w' m = rows w m"
begin

lemma remove_fold:
  assumes "fold (remove_step A n) ks (r, w) = (r', w')" "rs_errors r' = []" "\<forall>k\<in>set ks. strip k = k"
  shows "rs_errors r = [] \<and> rows w' n = rows w n |` (- set ks)"
  using assms
proof (induction ks arbitrary: r w)
  case (Cons k ks)
  obtain res w1 where e: "ad_remove_peer A n k w = (res, w1)" by fastforce
  have IH: "rs_errors r1 = [] \<and> rows w' n = rows w1 n |` (- set ks)" if "remove_step A n k (r, w) = (r1, w1)" for r1
    using Cons that by simp
  show ?case
  proof (cases res)
    case (Inl err)
    then show ?thesis using IH e by (simp add: remove_step_def)
  next
    case (Inr u)
    then have "rows w1 n = (rows w n)(k := None)" using remove_row[of n k w w1] e Cons.prems(3) by simp
    then show ?thesis using IH Inr e by (auto simp: remove_step_def restrict_map_def fun_eq_iff)
  qed
qed (simp add: restrict_map_def)

lemma written_Cons: "m ++ written (c # cs) = m(pcf_public_key c \<mapsto> the (pcf_allowed_ips c)) ++ written cs"
  by (simp add: written_def)

lemma add_fold:
  assumes "fold (add_step A n) cs (r, w) = (r', w')" "rs_errors r' = []" "\<forall>c\<in>set cs. cfg_ok addr_ok c"
  shows "rs_errors r = [] \<and> rows w' n = rows w n ++ written cs"
  using assms
proof (induction cs arbitrary: r w)
  case (Cons c cs)
  obtain res w1 where e: "ad_add_peer A n c w = (res, w1)" by fastforce
  have IH: "rs_errors r1 = [] \<and> rows w' n = rows w1 n ++ written cs" if "add_step A n c (r, w) = (r1, w1)" for r1
    using Cons that by simp
  show ?case
  proof (cases res)
    case (Inl err)
    then show ?thesis using IH e by (simp add: add_step_def)
  next
    case (Inr u)
    have "rows w1 n = (rows w n)(pcf_public_key c \<mapsto> the (pcf_allowed_ips c))"
      using add_row[of n c w w1] e Inr Cons.prems(3) by (auto simp: cfg_ok_def)
    then show ?thesis unfolding written_Cons using IH Inr e by (auto simp: add_step_def)
  qed
qed (simp add: written_def)

lemma update_fold:
  assumes "fold (update_step A n) cs (r, w) = (r', w')" "rs_errors r' = []" "\<forall>c\<in>set cs. cfg_ok addr_ok c"
  shows "rs_errors r = [] \<and> rows w' n = rows w n ++ written cs"
  using assms
proof (induction cs arbitrary: r w)
  case (Cons c cs)
  obtain r1 w1 where s: "update_step A n c (r, w) = (r1, w1)" by fastforce
  have IH: "rs_errors r1 = [] \<and> rows w' n = rows w1 n ++ written cs" using Cons s by simp
  then obtain u v where "ad_remove_peer A n (pcf_public_key c) w = (Inr (), u)" "ad_add_peer A n c u = (Inr (), w1)" "rs_errors r = []"
    using s by (auto simp: update_step_def Let_def split: prod.splits sum.splits)
  then have "rows w1 n = (rows w n)(pcf_public_key c \<mapsto> the (pcf_allowed_ips c))"
    using add_row[of n c u w1] remove_row[of n "pcf_public_key c" w u] Cons.prems(3) by (auto simp: cfg_ok_def)
  then show ?case unfolding written_Cons using IH \<open>rs_errors r = []\<close> by simp
qed (simp add: written_def)

text \<open>After an application without errors nothing is left to do.\<close>

lemma apply_diff_settles:
  fixes db :: "(string \<times> string \<times> string option) list"
  defines "D \<equiv> map_of (db_map_of db)"
  assumes df: "df = compute_diff db ps" and ps: "ad_list_peers A n w = Inr ps" and w1: "rows w1 n = rows w n"
    and run: "apply_diff S A n df w1 = (r, w')" "rs_errors r = []"
    and mode: "\<not> reconciliation_read_only S" "reconciliation_remove_orphans S"
    and db: "\<And>pk a psk. D pk = Some (a, psk) \<Longrightarrow> strip pk = pk \<and> (is_valid_server_allowed_ips a \<longrightarrow> addr_ok a)"
    and ps': "ad_list_peers A n w' = Inr ps'"
  shows "no_drift (compute_diff db ps')"
proof -
  let ?W = "map_of (wg_map_of ps)" and ?R = "rows w n"
  let ?addP = "\<lambda>(pk, allowed, _ :: string option). ?W pk = None \<and> is_valid_server_allowed_ips allowed"
  let ?updP = "\<lambda>(pk, allowed, _ :: string option). is_valid_server_allowed_ips allowed \<and> (case ?W pk of None \<Rightarrow> False | Some v \<Rightarrow> v \<noteq> allowed \<and> (v = [] \<or> contains ''0.0.0.0/0'' v))"
  have W: "?W pk = (if pk = [] then None else map_option strip (?R pk))" for pk
    using wg_map_of_rows[of ps pk] list_rows[OF ps] by simp
  have W': "map_of (wg_map_of ps') pk = (if pk = [] then None else map_option strip (rows w' n pk))" for pk
    using wg_map_of_rows[of ps' pk] list_rows[OF ps'] by simp
  have dfs: "df_add df = map peer_entry (filter ?addP (db_map_of db))" "df_update df = map peer_entry (filter ?updP (db_map_of db))"
    "df_remove df = filter (\<lambda>pk. D pk = None) (map fst (wg_map_of ps))"
    unfolding df compute_diff_def Let_def D_def by simp_all
  have ent: "cfg_ok addr_ok c" if "c \<in> set (map peer_entry (filter P (db_map_of db)))" "\<And>k a psk. P (k, a, psk) \<Longrightarrow> is_valid_server_allowed_ips a" for P c
    using that db unfolding D_def by (auto simp: cfg_ok_def peer_entry_def PeerConfigLike_def)
  have rk: "\<forall>k\<in>set (df_remove df). strip k = k"
  proof
    fix k
    assume "k \<in> set (df_remove df)"
    then have "?W k \<noteq> None" by (auto simp: dfs map_of_eq_None_iff)
    then show "strip k = k" using W[of k] key_clean by (auto split: if_splits)
  qed
  obtain r1 u where f1: "fold (remove_step A n) (df_remove df) (empty_result, w1) = (r1, u)" by (metis surj_pair)
  obtain r2 v where f2: "fold (add_step A n) (df_add df) (r1, u) = (r2, v)" by (metis surj_pair)
  have f3: "fold (update_step A n) (df_update df) (r2, v) = (r, w')"
    using run(1) mode by (simp add: apply_diff_def f1 f2)
  have "\<forall>c\<in>set (df_update df). cfg_ok addr_ok c" "\<forall>c\<in>set (df_add df). cfg_ok addr_ok c"
    unfolding dfs by (rule ballI, erule ent, simp)+
  note ok = this
  from update_fold[OF f3 run(2) ok(1)] have 3: "rs_errors r2 = []" "rows w' n = rows v n ++ written (df_update df)" by simp_all
  from add_fold[OF f2 3(1) ok(2)] have 2: "rs_errors r1 = []" "rows v n = rows u n ++ written (df_add df)" by simp_all
  from remove_fold[OF f1 2(1) rk] w1 have 1: "rows u n = ?R |` (- set (df_remove df))" by simp
  have rem: "k \<in> set (df_remove df) \<longleftrightarrow> D k = None \<and> ?W k \<noteq> None" for k by (auto simp: dfs map_of_eq_None_iff)
  have wadd: "written (df_add df) k = (case D k of None \<Rightarrow> None | Some (a, psk) \<Rightarrow> if ?addP (k, a, psk) then Some a else None)"
    and wupd: "written (df_update df) k = (case D k of None \<Rightarrow> None | Some (a, psk) \<Rightarrow> if ?updP (k, a, psk) then Some a else None)" for k
    unfolding dfs D_def by (rule written_entries, simp)+
  have final: "rows w' n k = (case written (df_update df) k of Some a \<Rightarrow> Some a | None \<Rightarrow>
      (case written (df_add df) k of Some a \<Rightarrow> Some a | None \<Rightarrow> if k \<in> set (df_remove df) then None else ?R k))" for k
    by (simp add: 1 2(2) 3(2) map_add_def restrict_map_def split: option.splits)
  show ?thesis
    unfolding no_drift_iff D_def[symmetric]
  proof (intro conjI allI impI)
    fix pk a psk
    assume D: "D pk = Some (a, psk)" and v: "is_valid_server_allowed_ips a"
    note e = db_map_entry[OF D[unfolded D_def]]
    show "\<exists>v. map_of (wg_map_of ps') pk = Some v \<and> \<not> needs_fix v a"
      unfolding W' final rem wadd wupd using D v e W[of pk]
      by (cases "?W pk") (auto simp: needs_fix_def split: option.splits if_splits)
  next
    fix pk
    assume "D pk = None"
    then show "map_of (wg_map_of ps') pk = None" unfolding W' final rem wadd wupd using W[of pk] by (auto split: if_splits)
  qed
qed

end

subsection \<open>Docker hosts as tables\<close>

text \<open>
  A host on which \<^verbatim>\<open>wg set\<close> of one address that no other peer of the interface has stores that row,
  and \<^verbatim>\<open>remove\<close> deletes it.
\<close>

definition single_host :: "string \<Rightarrow> bool" where
  "single_host a \<longleftrightarrow> (\<exists>v. 0 \<le> v \<and> v < 2 ^ 32 \<and> a = net4_str v 32)"

lemma single_host_chars: "single_host a \<Longrightarrow> c \<in> set a \<Longrightarrow> \<not> is_space c"
proof -
  assume "single_host a" "c \<in> set a"
  moreover have "int_str 32 = ''32''" by code_simp
  ultimately have "is_digit c \<or> c = CHR ''.'' \<or> c = CHR ''/'' \<or> c = CHR ''3'' \<or> c = CHR ''2''"
    by (auto simp: single_host_def net4_str_def dest: ip4_str_chars)
  then show ?thesis by (auto dest: digit_not_space) (simp_all add: is_space_def)
qed

lemma strip_single_host: "single_host a \<Longrightarrow> strip a = a"
  by (rule strip_no_space) (blast dest: single_host_chars)

definition rows_apart :: "string \<Rightarrow> string \<Rightarrow> (string \<times> string) list \<Rightarrow> bool" where
  "rows_apart key ips rs \<longleftrightarrow> (\<forall>(k, a)\<in>set rs. k \<noteq> key \<longrightarrow> set (extract_ipv4_host_cidrs ips) \<inter> set (extract_ipv4_host_cidrs (strip a)) = {})"

locale exact_host = wg_host +
  assumes set_rows: "public_key_ok key \<Longrightarrow> single_host ips \<Longrightarrow> dk_exec D c (wg_set_cmd i key ips ka psk) w = (Inr (0, out), w') \<Longrightarrow>
      rows_apart key ips (dump_rows D c i w) \<Longrightarrow> map_of (dump_rows D c i w') = (map_of (dump_rows D c i w))(key \<mapsto> ips)"
    and remove_rows: "public_key_ok key \<Longrightarrow> dk_exec D c (wg_remove_cmd i key) w = (Inr (0, out), w') \<Longrightarrow>
      map_of (dump_rows D c i w') = (map_of (dump_rows D c i w))(key := None)"
    and rows_clean: "(k, a) \<in> set (dump_rows D c i w) \<Longrightarrow> strip k = k"
    and rows_distinct: "distinct (map fst (dump_rows D c i w))"
begin

lemma peer_rows_at:
  assumes "resolve_node D C n w = Some nd" "node_interface C nd = Inr i"
  shows "peer_rows D C n w = dump_rows D (n_container_name nd) i w"
    and "similar D w w' \<Longrightarrow> peer_rows D C n w' = dump_rows D (n_container_name nd) i w'"
proof -
  show "peer_rows D C n w = dump_rows D (n_container_name nd) i w"
    unfolding peer_rows_shape using assms by (simp add: node_shape_def node_interface_def)
  assume "similar D w w'"
  from resolve_similar[OF names this, of n] assms(1) have "map_option node_shape (resolve_node D C n w') = Some (node_shape nd)" by simp
  then show "peer_rows D C n w' = dump_rows D (n_container_name nd) i w'"
    unfolding peer_rows_shape using assms(2) by (simp only: option.case) (simp add: node_shape_def node_interface_def)
qed

lemma peer_rows_cases:
  obtains "peer_rows D C n w = []" | c i where "peer_rows D C n w = dump_rows D c i w"
proof (cases "resolve_node D C n w")
  case None
  then show ?thesis using that(1) by (simp add: peer_rows_shape)
next
  case (Some nd)
  show ?thesis
  proof (cases "node_interface C nd")
    case (Inl e)
    then show ?thesis using that(1) Some by (simp add: peer_rows_shape node_shape_def node_interface_def)
  next
    case (Inr i)
    then show ?thesis using that(2) peer_rows_at(1)[OF Some] by blast
  qed
qed

lemma add_peer_row:
  assumes "docker_add_peer D C n pc w = (Inr (), w')" "pcf_allowed_ips pc = Some a" "single_host a"
  shows "map_of (peer_rows D C n w') = (map_of (peer_rows D C n w))(strip (pcf_public_key pc) \<mapsto> a)"
proof -
  obtain c i key ips where ch: "check_add D C n pc w = Inr (c, i, key, ips)"
    using assms(1) by (cases "check_add D C n pc w") (auto simp: docker_add_peer_def)
  then obtain nd where nd: "resolve_node D C n w = Some nd" "c = n_container_name nd" "node_interface C nd = Inr i"
    by (auto simp: check_add_def rbind_Inr_iff Let_def split: option.splits if_splits)
  from check_add_cases[OF ch] assms(2,3) obtain peers where k: "key = strip (pcf_public_key pc)" "public_key_ok key" "ips = a"
    "list_all is_allowed_char ips" and p: "docker_list_peers D C n w = Inr peers" "\<not> conflicting key ips peers"
    by (metis option.inject strip_single_host)
  let ?cmd = "wg_set_cmd i key ips (clamp_keepalive (Some (pcf_persistent_keepalive pc))) (pcf_preshared_key pc)"
  obtain out w1 where e: "dk_exec D c ?cmd w = (Inr (0, out), w1)" and w1: "peer_rows D C n w' = peer_rows D C n w1"
    using assms(1) ch by (auto simp: docker_add_peer_def split: sum.splits prod.splits if_splits) (metis routes_quiet persist_quiet)
  have "similar D w w1" using exec_similar[OF wg_command.intros(3)[OF k(2,4)], of w c i] e by (metis snd_conv)
  note rows = peer_rows_at(1)[OF nd(1,3)] peer_rows_at(2)[OF nd(1,3) this]
  have "rows_apart key ips (dump_rows D c i w)"
    using p unfolding nd(2) rows(1)[symmetric] by (auto simp: rows_apart_def peer_rows_def conflicting_def list_ex_iff)
  from set_rows[OF k(2) _ e this] show ?thesis unfolding w1 rows nd(2)[symmetric] using assms(3) k by simp
qed

lemma remove_peer_row:
  assumes "docker_remove_peer D C n key w = (Inr (), w')"
  shows "map_of (peer_rows D C n w') = (map_of (peer_rows D C n w))(strip key := None)"
proof -
  obtain nd i out w1 where nd: "resolve_node D C n w = Some nd" "node_interface C nd = Inr i" and k: "public_key_ok (strip key)"
    and e: "dk_exec D (n_container_name nd) (wg_remove_cmd i (strip key)) w = (Inr (0, out), w1)"
    and "persist_wg_config D (n_container_name nd) i w1 = (Inr (), w')"
    using assms
    by (auto simp: docker_remove_peer_def rbind_def sanitize_public_key_def split: option.splits sum.splits prod.splits if_splits)
  then have w1: "peer_rows D C n w' = peer_rows D C n w1" by (simp add: persist_quiet)
  have "similar D w w1" using exec_similar[OF wg_command.intros(4)[OF k], of w "n_container_name nd" i] e by (metis snd_conv)
  note rows = peer_rows_at(1)[OF nd] peer_rows_at(2)[OF nd this]
  from remove_rows[OF k e] show ?thesis unfolding w1 rows .
qed

lemma reply_routes_rows: "ensure_reply_routes D C n w = (r, w') \<Longrightarrow> peer_rows D C m w' = peer_rows D C m w"
  by (auto simp: ensure_reply_routes_def Let_def split: option.splits sum.splits prod.splits dest: routes_quiet[where n = m])

end

sublocale exact_host \<subseteq> peer_table "docker_adapter D C" "Some (ensure_reply_routes D C)" "\<lambda>w n. map_of (peer_rows D C n w)" single_host
proof unfold_locales
  fix n w ps
  assume "ad_list_peers (docker_adapter D C) n w = Inr ps"
  then have "peer_rows D C n w = map (\<lambda>p. (p_public_key p, p_allowed_ips p)) ps" by (simp add: docker_adapter_def peer_rows_def)
  moreover have "distinct (map fst (peer_rows D C n w))" by (rule peer_rows_cases[of n w]) (auto simp: rows_distinct)
  ultimately show "map_of (map (\<lambda>p. (p_public_key p, p_allowed_ips p)) ps) = map_of (peer_rows D C n w) \<and> distinct (map p_public_key ps)"
    by (simp add: comp_def)
next
  fix w n k a
  show "map_of (peer_rows D C n w) k = Some a \<Longrightarrow> strip k = k"
    by (rule peer_rows_cases[of n w]) (auto dest: map_of_SomeD rows_clean)
next
  fix n w r w' m
  assume "run_routes (Some (ensure_reply_routes D C)) n w = (r, w')"
  then show "map_of (peer_rows D C m w') = map_of (peer_rows D C m w)" using reply_routes_rows[of n w r w' m] by (simp add: run_routes_def)
qed (auto simp: docker_adapter_def dest: add_peer_row remove_peer_row)

context exact_host begin

lemma docker_table: "peer_table (docker_adapter D C) (Some (ensure_reply_routes D C)) (\<lambda>w n. map_of (peer_rows D C n w)) single_host"
  by unfold_locales

end

lemma public_key_field: "public_key_ok k \<Longrightarrow> field_ok k"
proof -
  have "\<forall>c\<in>set [CHR '' '', CHR 0x09, CHR 0x0A, CHR 0x0B, CHR 0x0C, CHR 0x0D, CHR 0x1C, CHR 0x1D, CHR 0x1E, CHR 0x1F].
      \<not> (is_alnum c \<or> c \<in> set ''+/='')" by code_simp
  then have sp: "\<not> is_space c" if "is_alnum c \<or> c \<in> set ''+/=''" for c using that unfolding is_space_def by fastforce
  assume "public_key_ok k"
  then have "k \<noteq> []" "\<forall>c\<in>set k. is_alnum c \<or> c \<in> set ''+/=''" by (auto simp only: public_key_ok_def list_all_iff list.size)
  then show "field_ok k" unfolding field_ok_def list_all_iff using sp by blast
qed

lemma sim_docker_exec: "dk_exec sim_docker c = sim_exec"
  by (simp add: sim_docker_def)

lemma single_host_field: "single_host a \<Longrightarrow> field_ok a"
  by (auto simp: field_ok_def list_all_iff dest: single_host_chars) (simp add: single_host_def net4_str_def)

lemma sim_update_rows: "field_ok k \<Longrightarrow> field_ok a \<Longrightarrow> map_of (sim_rows (AList.update k a w)) = (map_of (sim_rows w))(k \<mapsto> a)"
  unfolding sim_rows_def map_of_clearjunk by (induction w) (auto simp: fun_eq_iff)

lemma sim_delete_rows: "map_of (sim_rows (AList.delete k w)) = (map_of (sim_rows w))(k := None)"
  unfolding sim_rows_def map_of_clearjunk by (induction w) (auto simp: fun_eq_iff AList.delete_eq)

interpretation sim_table: exact_host sim_docker sim_config
proof unfold_locales
  fix key ips c i ka psk and w w' :: "(string \<times> string) list" and out
  show "map_of (dump_rows sim_docker c i w') = (map_of (dump_rows sim_docker c i w))(key \<mapsto> ips)"
    if "public_key_ok key" "single_host ips" "dk_exec sim_docker c (wg_set_cmd i key ips ka psk) w = (Inr (0, out), w')"
      "rows_apart key ips (dump_rows sim_docker c i w)"
    using that sim_update_rows[OF public_key_field single_host_field]
    by (auto simp: sim_dump_rows sim_docker_exec sim_exec_def wg_set_cmd_def split: option.splits list.splits if_splits)
  show "map_of (dump_rows sim_docker c i w') = (map_of (dump_rows sim_docker c i w))(key := None)"
    if "public_key_ok key" "dk_exec sim_docker c (wg_remove_cmd i key) w = (Inr (0, out), w')"
    using that by (auto simp: sim_dump_rows sim_delete_rows sim_docker_exec sim_exec_def wg_remove_cmd_def split: if_splits)
  fix k a
  show "distinct (map fst (dump_rows sim_docker c i w))" by (simp add: sim_dump_rows sim_rows_def)
  assume "(k, a) \<in> set (dump_rows sim_docker c i w)"
  then show "strip k = k" using sim_rows_ok[of k a w] by (auto simp: sim_dump_rows field_ok_def list_all_iff intro: strip_no_space split: if_splits)
qed

subsection \<open>What a run may change\<close>

lemma db_map_keys: "k \<in> fst ` set (db_map_of db) \<longleftrightarrow> k \<noteq> [] \<and> k \<in> fst ` set db"
proof -
  have "k \<in> fst ` set (db_map_of db) \<longleftrightarrow> map_of (db_map_of db) k \<noteq> None" by (simp only: map_of_eq_None_iff not_not)
  also have "\<dots> \<longleftrightarrow> k \<noteq> [] \<and> k \<in> fst ` set db" unfolding db_map_of_alt fold_update_map map_of_eq_None_iff by force
  finally show ?thesis .
qed

lemma wg_map_keys: "k \<in> fst ` set (wg_map_of ps) \<longleftrightarrow> k \<noteq> [] \<and> k \<in> p_public_key ` set ps"
proof -
  have "k \<in> fst ` set (wg_map_of ps) \<longleftrightarrow> map_of (wg_map_of ps) k \<noteq> None" by (simp only: map_of_eq_None_iff not_not)
  also have "\<dots> \<longleftrightarrow> k \<noteq> [] \<and> k \<in> p_public_key ` set ps" unfolding wg_map_of_def fold_update_map map_of_eq_None_iff by force
  finally show ?thesis .
qed

lemma entry_keys: "map pcf_public_key (map peer_entry xs) = map fst xs"
  by (simp add: peer_entry_def PeerConfigLike_def case_prod_unfold)

lemma entry_sound:
  assumes "c \<in> set (map peer_entry (filter P (db_map_of db)))" "\<And>k a psk. P (k, a, psk) \<Longrightarrow> is_valid_server_allowed_ips a"
  shows "\<exists>a a' psk. pcf_allowed_ips c = Some a \<and> is_valid_server_allowed_ips a \<and> (pcf_public_key c, a', psk) \<in> set db \<and> a = strip a'"
proof -
  obtain k a psk where c: "c = peer_entry (k, a, psk)" "(k, a, psk) \<in> set (db_map_of db)" "P (k, a, psk)" using assms(1) by auto
  from c(2) have "map_of (db_map_of db) k = Some (a, psk)" by simp
  from db_map_entry(2)[OF this] c assms(2)[OF c(3)] show ?thesis by (auto simp: peer_entry_def PeerConfigLike_def)
qed

lemma mark_applied_none [simp]: "mark_applied now [] d = d"
  by (simp add: mark_applied_def)

lemma map_filter_Nil [simp]: "List.map_filter f [] = []"
  by (simp add: map_filter_simps)

lemma reconcile_node_read_only:
  assumes "reconciliation_read_only S" "reconcile_node S A routes now n ids (w, d) = (out, w', d')"
  shows "d' = d \<and> (routes = None \<longrightarrow> w' = w)"
  using assms
  by (auto simp: reconcile_node_def Let_def apply_diff_def empty_result_def run_routes_def split: if_splits sum.splits prod.splits option.splits)

lemma reconcile_nodes_read_only:
  assumes "reconciliation_read_only S" "reconcile_nodes S A routes now ns (w, d) = (out, w', d')"
  shows "d' = d \<and> (routes = None \<longrightarrow> w' = w)"
  using assms(2)
proof (induction ns arbitrary: w d out)
  case (Cons n ns)
  then obtain ids out1 w1 d1 out2 where s: "reconcile_node S A routes now (n_node_id n) ids (w, d) = (out1, w1, d1)"
    "reconcile_nodes S A routes now ns (w1, d1) = (out2, w', d')"
    by (auto simp: Let_def split: prod.splits)
  from Cons.IH[OF s(2)] reconcile_node_read_only[OF assms(1) s(1)] show ?case by simp
qed simp

text \<open>Rows that differ at most in the marks of an applied device whose key was added.\<close>

definition marked_device :: "datetime \<Rightarrow> string list \<Rightarrow> string list \<Rightarrow> device \<Rightarrow> device \<Rightarrow> bool" where
  "marked_device now ids added a b \<longleftrightarrow> b = a \<or> (desired_device ids a \<and> d_public_key a \<in> set added
     \<and> b = a\<lparr>d_apply_status := Some ''APPLIED'', d_last_applied_at := Some now, d_last_error := None\<rparr>)"

lemma device_id_of_row:
  assumes "device_id_of ids d pk = Some i"
  obtains dev where "dev \<in> set (devices d)" "desired_device ids dev" "d_public_key dev = pk" "d_id dev = i"
  using map_of_SomeD[OF assms[unfolded device_id_of_def]] by auto

lemma mark_applied_rows:
  assumes "unique_on d_id (devices d)"
  shows "list_all2 (marked_device now ids added) (devices d) (devices (mark_applied now (List.map_filter (device_id_of ids d) added) d))"
proof -
  have "desired_device ids dev \<and> d_public_key dev \<in> set added"
    if dev: "dev \<in> set (devices d)" "d_id dev \<in> set (List.map_filter (device_id_of ids d) added)" for dev
  proof -
    obtain pk where pk: "pk \<in> set added" "device_id_of ids d pk = Some (d_id dev)" using dev(2) by (auto simp: map_filter_def)
    then obtain dev' where "dev' \<in> set (devices d)" "desired_device ids dev'" "d_public_key dev' = pk" "d_id dev' = d_id dev"
      by (blast elim: device_id_of_row)
    moreover from this have "dev' = dev" using unique_on_key[OF assms _ dev(1)] by blast
    ultimately show ?thesis using pk(1) by simp
  qed
  then show ?thesis by (auto simp: mark_applied_def list_all2_map2 marked_device_def intro: list.rel_refl_strong)
qed

lemma desired_marked [simp]: "desired_peers ids (mark_applied now is d) = desired_peers ids d"
proof -
  have "filter (desired_device ids) (map (\<lambda>dev. if d_id dev \<in> set is then dev\<lparr>d_apply_status := Some ''APPLIED'', d_last_applied_at := Some now, d_last_error := None\<rparr> else dev) ds)
      = map (\<lambda>dev. if d_id dev \<in> set is then dev\<lparr>d_apply_status := Some ''APPLIED'', d_last_applied_at := Some now, d_last_error := None\<rparr> else dev) (filter (desired_device ids) ds)" for ds
    by (induction ds) (auto simp: desired_device_def)
  then show ?thesis by (simp add: desired_peers_def mark_applied_def)
qed

lemma loop_round:
  "\<exists>delay k' f' st'. fst (reconciliation_loop S g routes now (Suc rounds) k f st) = delay # fst (reconciliation_loop S g routes now rounds k' f' st')
     \<and> (delay = reconciliation_interval_seconds S \<or> (\<exists>j. delay = backoff_delay (reconciliation_interval_seconds S) j))"
  unfolding reconciliation_loop.simps Let_def case_prod_unfold fst_conv by (intro exI conjI, rule refl) (auto split: sum.splits)

lemma loop_delays:
  assumes "0 < reconciliation_interval_seconds S"
  shows "length (fst (reconciliation_loop S g routes now rounds k f st)) = rounds
     \<and> (\<forall>x\<in>set (fst (reconciliation_loop S g routes now rounds k f st)). 0 < x \<and> x \<le> max (reconciliation_interval_seconds S) 3600)"
proof (induction rounds arbitrary: k f st)
  case (Suc rounds)
  have j: "0 < backoff_delay (reconciliation_interval_seconds S) j \<and> backoff_delay (reconciliation_interval_seconds S) j \<le> 3600" for j
    using assms by (simp add: backoff_delay_def)
  obtain delay k' f' st' where "fst (reconciliation_loop S g routes now (Suc rounds) k f st) = delay # fst (reconciliation_loop S g routes now rounds k' f' st')"
    and "delay = reconciliation_interval_seconds S \<or> (\<exists>j. delay = backoff_delay (reconciliation_interval_seconds S) j)"
    using loop_round by blast
  moreover from this(2) have "0 < delay \<and> delay \<le> max (reconciliation_interval_seconds S) 3600" using j assms by (auto simp: le_max_iff_disj)
  ultimately show ?case using Suc.IH[of k' f' st'] by (simp del: reconciliation_loop.simps)
qed simp

subsection \<open>Properties\<close>





text \<open>C40. A run over a node changes no row of the device table but those of desired devices whose peer it
  added, and of these only the marks of the application; no other table changes.\<close>

theorem reconcile_devices_frame:
  assumes "reconcile_node S A routes now n ids (w, d) = (Inr (r, audit), w', d')" "unique_on d_id (devices d)"
  shows "list_all2 (marked_device now (candidate_servers n ids) (rs_added_pubkeys r)) (devices d) (devices d')
     \<and> d'\<lparr>devices := devices d\<rparr> = d"
proof -
  have "list_all2 (marked_device now is ks) (devices d) (devices d)" for "is" ks
    by (auto simp: marked_device_def intro: list.rel_refl_strong)
  moreover have "d' = d \<or> d' = mark_applied now (List.map_filter (device_id_of (candidate_servers n ids) d) (rs_added_pubkeys r)) d"
    using assms(1) by (auto simp: reconcile_node_def Let_def split: if_splits sum.splits prod.splits)
  ultimately show ?thesis using mark_applied_rows[OF assms(2)] by (auto simp: mark_applied_def)
qed

text \<open>The background loop goes on: it sleeps after every round, for a positive time of at most an hour or
  the configured interval, whatever the rounds return or raise.\<close>

theorem reconcile_loop_goes_on:
  assumes "0 < reconciliation_interval_seconds S"
  shows "length (fst (run_reconciliation_loop S get_adapter routes now rounds st)) = rounds
    \<and> (\<forall>x\<in>set (fst (run_reconciliation_loop S get_adapter routes now rounds st)). 0 < x \<and> x \<le> max (reconciliation_interval_seconds S) 3600)"
proof (cases "node_discovery S = ''agent''")
  case True
  then show ?thesis by (simp add: run_reconciliation_loop_def)
next
  case False
  then show ?thesis using loop_delays[OF assms, of get_adapter routes now rounds 0 0 st] by (simp add: run_reconciliation_loop_def)
qed

theorem reconcile_loop_goes_on_witness:
  "length (fst (run_reconciliation_loop default_settings (\<lambda>_. Inl TypeError) None (\<lambda>_. 0) 3 ((), empty_db))) = 3"
  using reconcile_loop_goes_on[of default_settings "\<lambda>_. Inl TypeError" None "\<lambda>_. 0" 3 "((), empty_db)"] by (simp add: default_settings_def)

text \<open>C37. Reconciliation converges, for any adapter that keeps a table: when a run that may remove orphans ends
  without errors, the node has no drift any more, and a second run changes nothing, reports nothing
  and writes no audit entry. The keys of the devices have no surrounding blanks and their client
  addresses are ones the adapter stores.\<close>

theorem reconcile_converges:
  assumes table: "peer_table A routes rows addr_ok" and run: "reconcile_node S A routes now n ids (w, d) = (Inr (r, audit), w', d')" "rs_errors r = []"
    and mode: "\<not> reconciliation_read_only S" "reconciliation_remove_orphans S"
    and devs: "\<forall>dev\<in>set (devices d). desired_device (candidate_servers n ids) dev \<longrightarrow> strip (d_public_key dev) = d_public_key dev
      \<and> (is_valid_server_allowed_ips (or_empty (d_allowed_ips dev)) \<longrightarrow> addr_ok (strip (or_empty (d_allowed_ips dev))))"
    and again: "reconcile_node S A routes now' n ids (w', d') = (Inr out, w'', d'')"
  shows "out = (empty_result, []) \<and> d'' = d' \<and> rows w'' n = rows w' n"
proof -
  let ?ids = "candidate_servers n ids"
  have env: "environment S \<noteq> ''production''" using run(1) by (auto simp: reconcile_node_def)
  obtain ps where ps: "ad_list_peers A n w = Inr ps" using run(1) env by (auto simp: reconcile_node_def Let_def split: sum.splits)
  obtain ps' where ps': "ad_list_peers A n w' = Inr ps'" using again env by (auto simp: reconcile_node_def Let_def split: sum.splits)
  obtain res w1 where rt: "run_routes routes n w = (res, w1)" by fastforce
  obtain res' w2 where rt': "run_routes routes n w' = (res', w2)" by fastforce
  let ?df = "compute_diff (desired_peers ?ids d) ps"
  note rows_w1 = peer_table.routes_rows[OF table rt, of n] and rows_w2 = peer_table.routes_rows[OF table rt', of n]
  have D: "strip pk = pk \<and> (is_valid_server_allowed_ips a \<longrightarrow> addr_ok a)" if e: "map_of (db_map_of (desired_peers ?ids d)) pk = Some (a, psk)" for pk a psk
  proof -
    obtain a' psk' where "(pk, a', psk') \<in> set (desired_peers ?ids d)" "a = strip a'" using db_map_entry(2)[OF e] by blast
    then obtain dev where "dev \<in> set (devices d)" "desired_device ?ids dev" "pk = d_public_key dev" "a = strip (or_empty (d_allowed_ips dev))"
      by (auto simp: desired_peers_def strip_idem)
    then show ?thesis using devs by (simp add: is_valid_server_allowed_ips_def strip_idem)
  qed
  have dd: "desired_peers ?ids d' = desired_peers ?ids d"
    using run(1) env ps rt by (auto simp: reconcile_node_def Let_def split: if_splits sum.splits prod.splits)
  have "no_drift (compute_diff (desired_peers ?ids d) ps')"
  proof (cases "no_drift ?df")
    case True
    then have "w' = w1" using run(1) env ps rt by (auto simp: reconcile_node_def Let_def split: sum.splits)
    then have "map_of (wg_map_of ps') = map_of (wg_map_of ps)"
      using peer_table.list_rows[OF table ps] peer_table.list_rows[OF table ps'] rows_w1 by (simp add: fun_eq_iff wg_map_of_rows)
    then show ?thesis using True by (simp only: no_drift_iff)
  next
    case False
    then have "apply_diff S A n ?df w1 = (r, w')"
      using run(1) env ps rt by (auto simp: reconcile_node_def Let_def split: sum.splits prod.splits)
    from peer_table.apply_diff_settles[OF table refl ps rows_w1 this run(2) mode D ps'] show ?thesis .
  qed
  then show ?thesis using again env ps' rt' rows_w2 dd by (auto simp: reconcile_node_def Let_def split: if_splits sum.splits)
qed

definition sim_device :: device where
  "sim_device = sample_device\<lparr>d_server_id := ''amnezia-awg'', d_public_key := sim_key\<rparr>"

definition sim_settings :: settings where
  "sim_settings = default_settings\<lparr>reconciliation_remove_orphans := True\<rparr>"

lemma sim_reconcile:
  "\<exists>audit d'. reconcile_node sim_settings (docker_adapter sim_docker sim_config) (Some (ensure_reply_routes sim_docker sim_config)) 5 ''amnezia-awg'' [] ([], empty_db\<lparr>devices := [sim_device]\<rparr>)
    = (Inr (\<lparr>rs_added = 1, rs_removed = 0, rs_updated = 0, rs_added_pubkeys = [sim_key], rs_errors = []\<rparr>, audit), [(sim_key, ''10.8.1.2/32'')], d')"
proof -
  have "docker_list_peers sim_docker sim_config ''amnezia-awg'' [] = Inr []" by code_simp
  moreover have "compute_diff (desired_peers (candidate_servers ''amnezia-awg'' []) (empty_db\<lparr>devices := [sim_device]\<rparr>)) [] = \<lparr>df_add = [sim_peer], df_remove = [], df_update = []\<rparr>"
    by code_simp
  moreover have "ensure_reply_routes sim_docker sim_config ''amnezia-awg'' [] = (Inr (), [])" by code_simp
  moreover have "environment sim_settings \<noteq> ''production''" "\<not> reconciliation_read_only sim_settings" by code_simp+
  moreover have "pcf_public_key sim_peer = sim_key" by code_simp
  ultimately show ?thesis
    using sim_add by (simp add: reconcile_node_def docker_adapter_def run_routes_def apply_diff_def no_drift_def add_step_def empty_result_def Let_def)
qed

theorem reconcile_converges_witness:
  "\<exists>w' d'. snd (reconcile_node sim_settings (docker_adapter sim_docker sim_config) (Some (ensure_reply_routes sim_docker sim_config)) 5 ''amnezia-awg'' [] ([], empty_db\<lparr>devices := [sim_device]\<rparr>)) = (w', d')
     \<and> (\<forall>out w'' d''. reconcile_node sim_settings (docker_adapter sim_docker sim_config) (Some (ensure_reply_routes sim_docker sim_config)) 9 ''amnezia-awg'' [] (w', d') = (Inr out, w'', d'')
          \<longrightarrow> out = (empty_result, []) \<and> d'' = d')"
proof -
  let ?A = "docker_adapter sim_docker sim_config" and ?routes = "Some (ensure_reply_routes sim_docker sim_config)"
  obtain audit d' where run: "reconcile_node sim_settings ?A ?routes 5 ''amnezia-awg'' [] ([], empty_db\<lparr>devices := [sim_device]\<rparr>)
      = (Inr (\<lparr>rs_added = 1, rs_removed = 0, rs_updated = 0, rs_added_pubkeys = [sim_key], rs_errors = []\<rparr>, audit), [(sim_key, ''10.8.1.2/32'')], d')"
    using sim_reconcile by blast
  have "single_host ''10.8.1.2/32''" unfolding single_host_def by (rule exI[of _ 168296706]) (simp, code_simp)
  moreover have "strip (or_empty (d_allowed_ips sim_device)) = ''10.8.1.2/32''" "strip (d_public_key sim_device) = d_public_key sim_device" by code_simp+
  ultimately have "\<forall>dev\<in>set (devices (empty_db\<lparr>devices := [sim_device]\<rparr>)). desired_device (candidate_servers ''amnezia-awg'' []) dev \<longrightarrow> strip (d_public_key dev) = d_public_key dev
      \<and> (is_valid_server_allowed_ips (or_empty (d_allowed_ips dev)) \<longrightarrow> single_host (strip (or_empty (d_allowed_ips dev))))" by simp
  moreover have "\<not> reconciliation_read_only sim_settings" "reconciliation_remove_orphans sim_settings" by code_simp+
  ultimately show ?thesis using reconcile_converges[OF sim_table.docker_table run] run by (metis reconciliation_result.select_convs(5) snd_conv)
qed

theorem reconcile_devices_frame_witness:
  "list_all2 (marked_device 5 [''amnezia-awg''] [sim_key]) [sim_device] (devices (snd (snd (reconcile_node sim_settings (docker_adapter sim_docker sim_config)
     (Some (ensure_reply_routes sim_docker sim_config)) 5 ''amnezia-awg'' [] ([], empty_db\<lparr>devices := [sim_device]\<rparr>)))))"
proof -
  obtain audit d' where run: "reconcile_node sim_settings (docker_adapter sim_docker sim_config) (Some (ensure_reply_routes sim_docker sim_config)) 5 ''amnezia-awg'' [] ([], empty_db\<lparr>devices := [sim_device]\<rparr>)
      = (Inr (\<lparr>rs_added = 1, rs_removed = 0, rs_updated = 0, rs_added_pubkeys = [sim_key], rs_errors = []\<rparr>, audit), [(sim_key, ''10.8.1.2/32'')], d')"
    using sim_reconcile by blast
  have "unique_on d_id (devices (empty_db\<lparr>devices := [sim_device]\<rparr>))" by (simp add: unique_on_def)
  from reconcile_devices_frame[OF run this] show ?thesis unfolding run by (simp add: candidate_servers_def)
qed

end
