(* ===== verification/Spec2Isabelle.thy ===== *)
theory Spec2Isabelle
  imports Billing Migration Config_Clean Address_Alloc Reconcile
begin

text \<open>
  The backend of the VPN suite.
\<close>

end
